theory Spec2Isabelle
  imports Complex_Main "HOL-Library.Sublist" "HOL-Library.Multiset"
begin

section \<open>Python values and library functions used by train.py\<close>

text \<open>
  Every way the program can stop abnormally is a value of \<open>error\<close>.
  \<open>SystemExit msg\<close> is \<^verbatim>\<open>sys.exit(msg)\<close> with a string argument: the
  interpreter prints the message on stderr and exits with status 1.
  \<open>AssertionError msg\<close> is a failed \<^verbatim>\<open>assert cond, msg\<close>.
  \<open>ArgumentError\<close> is argparse rejecting the command line (status 2).
  The remaining constructors are the built-in exceptions raised by the
  library calls that the code makes; \<open>ExternalError\<close> stands for any exception
  raised inside a collaborator (configuration loader, plugin, dataset, torch).
\<close>

datatype error =
    SystemExit string
  | AssertionError string
  | ArgumentError string
  | TypeError
  | IndexError
  | ValueError
  | RuntimeError
  | FileNotFoundError
  | ExternalError string

fun exit_status :: "error option \<Rightarrow> nat" where
  "exit_status None = 0"
| "exit_status (Some (ArgumentError m)) = 2"
| "exit_status (Some e) = 1"

subsection \<open>Decimal formatting: \<^verbatim>\<open>str(int)\<close> and \<^verbatim>\<open>"{:05d}".format(int)\<close>\<close>

text \<open>The decimal digits are the characters 48 to 57.\<close>

definition digit_char :: "nat \<Rightarrow> char" where
  "digit_char d = char_of (48 + d mod 10)"

definition digit_val :: "char \<Rightarrow> nat option" where
  "digit_val c =
     (let k = (of_char c :: nat) in if 48 \<le> k \<and> k \<le> 57 then Some (k - 48) else None)"

fun dec_digits :: "nat \<Rightarrow> string" where
  "dec_digits n =
     (if n < 10 then [digit_char n] else dec_digits (n div 10) @ [digit_char (n mod 10)])"

declare dec_digits.simps [simp del]

definition str_int :: "int \<Rightarrow> string" where
  "str_int i = (if i < 0 then CHR ''-'' # dec_digits (nat (- i)) else dec_digits (nat i))"

definition zfill :: "nat \<Rightarrow> string \<Rightarrow> string" where
  "zfill w s = replicate (w - length s) (CHR ''0'') @ s"

text \<open>
  The format specification \<^verbatim>\<open>05d\<close>: minimum width 5, padded with zeros after the
  sign, never truncated.
\<close>

definition format_05d :: "int \<Rightarrow> string" where
  "format_05d i =
     (if i < 0 then CHR ''-'' # zfill 4 (dec_digits (nat (- i))) else zfill 5 (dec_digits (nat i)))"

text \<open>Reading a digit string back; used to show that the formatting loses nothing.\<close>

definition dec_val :: "string \<Rightarrow> nat" where
  "dec_val s = foldl (\<lambda>acc c. 10 * acc + (case digit_val c of Some d \<Rightarrow> d | None \<Rightarrow> 0)) 0 s"

subsection \<open>\<^verbatim>\<open>repr\<close> of strings and lists, \<^verbatim>\<open>str.title\<close>, \<^verbatim>\<open>os.path.join\<close>\<close>

definition hex_char :: "nat \<Rightarrow> char" where
  "hex_char d =
     (if d < 10 then digit_char d else if d = 10 then CHR ''a'' else if d = 11 then CHR ''b''
      else if d = 12 then CHR ''c'' else if d = 13 then CHR ''d'' else if d = 14 then CHR ''e''
      else CHR ''f'')"

text \<open>
  \<^verbatim>\<open>repr(s)\<close> for a string of ASCII characters: the quote is \<^verbatim>\<open>"\<close> when the
  string holds a \<^verbatim>\<open>'\<close> and no \<^verbatim>\<open>"\<close>, otherwise \<^verbatim>\<open>'\<close>; the backslash, the
  chosen quote and the control characters are escaped.
\<close>

definition repr_char :: "char \<Rightarrow> char \<Rightarrow> string" where
  "repr_char q c =
     (if c = CHR 0x5C then [CHR 0x5C, CHR 0x5C]
      else if c = q then [CHR 0x5C, q]
      else if c = CHR 0x0A then [CHR 0x5C, CHR ''n'']
      else if c = CHR 0x0D then [CHR 0x5C, CHR ''r'']
      else if c = CHR 0x09 then [CHR 0x5C, CHR ''t'']
      else if (of_char c :: nat) < 32 \<or> (of_char c :: nat) = 127
        then [CHR 0x5C, CHR ''x'', hex_char ((of_char c :: nat) div 16), hex_char ((of_char c :: nat) mod 16)]
      else [c])"

definition py_repr :: "string \<Rightarrow> string" where
  "py_repr s =
     (let q = (if CHR 0x27 \<in> set s \<and> CHR 0x22 \<notin> set s then CHR 0x22 else CHR 0x27)
      in q # concat (map (repr_char q) s) @ [q])"

fun join_with :: "string \<Rightarrow> string list \<Rightarrow> string" where
  "join_with sep [] = []"
| "join_with sep [x] = x"
| "join_with sep (x # y # ys) = x @ sep @ join_with sep (y # ys)"

definition py_repr_list :: "string list \<Rightarrow> string" where
  "py_repr_list xs = ''['' @ join_with '', '' (map py_repr xs) @ '']''"

definition is_lower :: "char \<Rightarrow> bool" where
  "is_lower c = (97 \<le> (of_char c :: nat) \<and> (of_char c :: nat) \<le> 122)"

definition is_upper :: "char \<Rightarrow> bool" where
  "is_upper c = (65 \<le> (of_char c :: nat) \<and> (of_char c :: nat) \<le> 90)"

definition to_upper :: "char \<Rightarrow> char" where
  "to_upper c = (if is_lower c then char_of ((of_char c :: nat) - 32) else c)"

definition to_lower :: "char \<Rightarrow> char" where
  "to_lower c = (if is_upper c then char_of ((of_char c :: nat) + 32) else c)"

text \<open>
  \<^verbatim>\<open>str.title()\<close>: a cased character is upper-cased when the character before it is
  not cased, and lower-cased otherwise.
\<close>

fun title_from :: "bool \<Rightarrow> string \<Rightarrow> string" where
  "title_from prev [] = []"
| "title_from prev (c # cs) =
     (if is_lower c \<or> is_upper c
      then (if prev then to_lower c else to_upper c) # title_from True cs
      else c # title_from False cs)"

definition py_title :: "string \<Rightarrow> string" where
  "py_title s = title_from False s"

text \<open>\<^verbatim>\<open>posixpath.join\<close> of two and of three components.\<close>

definition path_join :: "string \<Rightarrow> string \<Rightarrow> string" where
  "path_join a b =
     (if b \<noteq> [] \<and> hd b = CHR ''/'' then b
      else if a = [] \<or> last a = CHR ''/'' then a @ b
      else a @ ''/'' @ b)"

definition path_join3 :: "string \<Rightarrow> string \<Rightarrow> string \<Rightarrow> string" where
  "path_join3 a b c = path_join (path_join a b) c"

section \<open>The command line (\<^verbatim>\<open>add_parser\<close>)\<close>

subsection \<open>\<^verbatim>\<open>int(str)\<close>, the converter behind \<^verbatim>\<open>type=int\<close>\<close>

text \<open>
  On a string of ASCII characters \<^verbatim>\<open>int\<close> skips the blank and the characters 9 to 13
  at both ends, and nothing else. The limit that recent interpreters put on the number
  of digits is not modelled.
\<close>

definition is_space :: "char \<Rightarrow> bool" where
  "is_space c = (c = CHR '' '' \<or> (9 \<le> (of_char c :: nat) \<and> (of_char c :: nat) \<le> 13))"

definition strip :: "string \<Rightarrow> string" where
  "strip s = rev (dropWhile is_space (rev (dropWhile is_space s)))"

text \<open>
  Decimal digits, where single underscores may separate digits. The flag says
  whether the character before was a digit.
\<close>

fun parse_digits :: "nat \<Rightarrow> bool \<Rightarrow> string \<Rightarrow> nat option" where
  "parse_digits acc prev [] = (if prev then Some acc else None)"
| "parse_digits acc prev (c # cs) =
     (case digit_val c of
        Some d \<Rightarrow> parse_digits (10 * acc + d) True cs
      | None \<Rightarrow> if c = CHR ''_'' \<and> prev then parse_digits acc False cs else None)"

definition py_int :: "string \<Rightarrow> int option" where
  "py_int s =
     (case strip s of
        [] \<Rightarrow> None
      | c # cs \<Rightarrow>
          if c = CHR ''-'' then map_option (\<lambda>n. - int n) (parse_digits 0 False cs)
          else if c = CHR ''+'' then map_option int (parse_digits 0 False cs)
          else map_option int (parse_digits 0 False (c # cs)))"

subsection \<open>Floats that decide the control flow\<close>

text \<open>
  A learning rate and a weight decay are Python floats: a finite number, an infinity
  or a NaN. \<^verbatim>\<open>if x\<close> is false for zero only, and \<^verbatim>\<open>0.0 <= x\<close> is false for the
  negative numbers, the negative infinity and NaN.
\<close>

datatype pyfloat = Finite real | PosInf | NegInf | NaN

definition float_truthy :: "pyfloat \<Rightarrow> bool" where
  "float_truthy x = (x \<noteq> Finite 0)"

definition float_nonneg :: "pyfloat \<Rightarrow> bool" where
  "float_nonneg x = (case x of Finite r \<Rightarrow> 0 \<le> r | PosInf \<Rightarrow> True | NegInf \<Rightarrow> False | NaN \<Rightarrow> False)"

subsection \<open>The arguments\<close>

text \<open>
  The command line as argparse reads it, from left to right: an option of
  \<^verbatim>\<open>add_parser\<close> with its value, the switch \<^verbatim>\<open>--resume\<close>, a positional string, or
  a string that no option of the parser accepts. Cutting the command line into these
  items (abbreviated options, \<^verbatim>\<open>--option=value\<close>) is argparse's own work and is not
  modelled; the converters (\<^verbatim>\<open>type=\<close>), the defaults and \<^verbatim>\<open>required\<close> are those of
  lines 37 to 44.
\<close>

datatype flag = FConfig | FCheckpoint | FWorkers | FDataset | FEpochs | FLr

datatype cli_item = Valued flag string | ResumeSwitch | Positional string | Unrecognized string

text \<open>The namespace while the command line is read, and the one that \<^verbatim>\<open>main\<close> receives.\<close>

record namespace =
  ns_config :: "string option"
  ns_checkpoint :: "string option"
  ns_resume :: bool
  ns_workers :: int
  ns_dataset :: "int option"
  ns_epochs :: "int option"
  ns_lr :: "pyfloat option"
  ns_out :: "string option"
  ns_extras :: "string list"

record args =
  config :: string
  checkpoint :: "string option"
  resume :: bool
  workers :: int
  dataset :: "int option"
  epochs :: "int option"
  lr :: "pyfloat option"
  out :: string

text \<open>The defaults: \<^verbatim>\<open>--workers\<close> is 0, \<^verbatim>\<open>--resume\<close> is false, the others are \<^verbatim>\<open>None\<close>.\<close>

definition empty_namespace :: namespace where
  "empty_namespace =
     \<lparr>ns_config = None, ns_checkpoint = None, ns_resume = False, ns_workers = 0,
      ns_dataset = None, ns_epochs = None, ns_lr = None, ns_out = None, ns_extras = []\<rparr>"

text \<open>The message of argparse for a value that the converter of an option rejects.\<close>

definition invalid_value :: "string \<Rightarrow> string \<Rightarrow> string \<Rightarrow> error" where
  "invalid_value option tyname v =
     ArgumentError (''argument '' @ option @ '': invalid '' @ tyname @ '' value: '' @ py_repr v)"

text \<open>
  One item, lines 37 to 44: the value of an option is converted when it is read.
  \<open>py_float\<close> is Python's \<^verbatim>\<open>float(str)\<close>, taken as a parameter. Line 41 declares
  \<^verbatim>\<open>--dataset\<close> with \<^verbatim>\<open>type=int\<close>. The first positional string is \<^verbatim>\<open>out\<close>; a further
  one is not recognised.
\<close>

definition read_item :: "(string \<Rightarrow> pyfloat option) \<Rightarrow> cli_item \<Rightarrow> namespace \<Rightarrow> error + namespace" where
  "read_item py_float item ns =
     (case item of
        Valued f v \<Rightarrow>
          (case f of
             FConfig \<Rightarrow> Inr (ns\<lparr>ns_config := Some v\<rparr>)
           | FCheckpoint \<Rightarrow> Inr (ns\<lparr>ns_checkpoint := Some v\<rparr>)
           | FWorkers \<Rightarrow>
               (case py_int v of
                  None \<Rightarrow> Inl (invalid_value ''--workers'' ''int'' v)
                | Some n \<Rightarrow> Inr (ns\<lparr>ns_workers := n\<rparr>))
           | FDataset \<Rightarrow>
               (case py_int v of
                  None \<Rightarrow> Inl (invalid_value ''--dataset'' ''int'' v)
                | Some n \<Rightarrow> Inr (ns\<lparr>ns_dataset := Some n\<rparr>))
           | FEpochs \<Rightarrow>
               (case py_int v of
                  None \<Rightarrow> Inl (invalid_value ''--epochs'' ''int'' v)
                | Some n \<Rightarrow> Inr (ns\<lparr>ns_epochs := Some n\<rparr>))
           | FLr \<Rightarrow>
               (case py_float v of
                  None \<Rightarrow> Inl (invalid_value ''--lr'' ''float'' v)
                | Some x \<Rightarrow> Inr (ns\<lparr>ns_lr := Some x\<rparr>)))
      | ResumeSwitch \<Rightarrow> Inr (ns\<lparr>ns_resume := True\<rparr>)
      | Positional v \<Rightarrow>
          (case ns_out ns of
             None \<Rightarrow> Inr (ns\<lparr>ns_out := Some v\<rparr>)
           | Some x \<Rightarrow> Inr (ns\<lparr>ns_extras := ns_extras ns @ [v]\<rparr>))
      | Unrecognized t \<Rightarrow> Inr (ns\<lparr>ns_extras := ns_extras ns @ [t]\<rparr>))"

fun read_items :: "(string \<Rightarrow> pyfloat option) \<Rightarrow> cli_item list \<Rightarrow> namespace \<Rightarrow> error + namespace" where
  "read_items py_float [] ns = Inr ns"
| "read_items py_float (item # rest) ns =
     (case read_item py_float item ns of
        Inl e \<Rightarrow> Inl e
      | Inr ns' \<Rightarrow> read_items py_float rest ns')"

text \<open>
  The whole command line: the first value that a converter rejects ends the parse;
  then the required arguments are checked, then the strings that were not recognised.
\<close>

definition parse_args :: "(string \<Rightarrow> pyfloat option) \<Rightarrow> cli_item list \<Rightarrow> error + args" where
  "parse_args py_float items =
     (case read_items py_float items empty_namespace of
        Inl e \<Rightarrow> Inl e
      | Inr ns \<Rightarrow>
          (case (ns_config ns, ns_out ns) of
             (None, None) \<Rightarrow>
               Inl (ArgumentError ''the following arguments are required: --config, out'')
           | (None, Some odir) \<Rightarrow>
               Inl (ArgumentError ''the following arguments are required: --config'')
           | (Some cfg, None) \<Rightarrow>
               Inl (ArgumentError ''the following arguments are required: out'')
           | (Some cfg, Some odir) \<Rightarrow>
               if ns_extras ns \<noteq> []
               then Inl (ArgumentError
                          (''unrecognized arguments: '' @ join_with '' '' (ns_extras ns)))
               else Inr \<lparr>config = cfg, checkpoint = ns_checkpoint ns, resume = ns_resume ns,
                         workers = ns_workers ns, dataset = ns_dataset ns,
                         epochs = ns_epochs ns, lr = ns_lr ns, out = odir\<rparr>))"

section \<open>Configuration\<close>

text \<open>
  The resolved configuration document that \<^verbatim>\<open>load_config\<close> returns; the loader
  itself is a collaborator. Only the keys that train.py reads are kept.
\<close>

record channel =
  sub :: string
  bands :: "int list"

record config =
  model_name :: string
  model_encoder :: string
  model_pretrained :: bool
  model_loss :: string
  model_lr :: pyfloat
  model_decay :: pyfloat
  model_epochs :: int
  model_batch_size :: int
  model_tile_size :: int
  model_data_augmentation :: bool
  dataset_path :: string
  classes_titles :: "string list"
  channels :: "channel list"

section \<open>The joint transform pipeline\<close>

datatype image_op = ImageToTensor | Normalize "real list" "real list"

datatype mask_op = MaskToTensor

datatype joint_stage =
    JointResize int
  | JointRandomFlipOrRotate bool
  | JointTransform "image_op option" "mask_op option"

text \<open>
  \<^verbatim>\<open>get_dataset_loaders\<close>, lines 242 to 251: the argument of \<^verbatim>\<open>JointCompose\<close>.
  The constants are the decimal literals of line 242.
\<close>

definition joint_transform :: "config \<Rightarrow> joint_stage list" where
  "joint_transform cfg =
     (let mean = [0.485, 0.456, 0.406]; std = [0.229, 0.224, 0.225]
      in [JointResize (model_tile_size cfg),
          JointRandomFlipOrRotate (model_data_augmentation cfg),
          JointTransform (Some ImageToTensor) (Some MaskToTensor),
          JointTransform (Some (Normalize mean std)) None])"

text \<open>The six geometric operations among which the flip-or-rotate stage draws.\<close>

datatype geom = NoOp | FlipH | FlipV | Rot90 | Rot180 | Rot270

text \<open>The primitive raster operations, collaborators of the pipeline.\<close>

record ('i, 'm) raster_ops =
  resize_image :: "int \<Rightarrow> 'i \<Rightarrow> 'i"
  resize_mask :: "int \<Rightarrow> 'm \<Rightarrow> 'm"
  geom_image :: "geom \<Rightarrow> 'i \<Rightarrow> 'i"
  geom_mask :: "geom \<Rightarrow> 'm \<Rightarrow> 'm"
  image_to_tensor :: "'i \<Rightarrow> 'i"
  mask_to_tensor :: "'m \<Rightarrow> 'm"
  normalize :: "real list \<Rightarrow> real list \<Rightarrow> 'i \<Rightarrow> 'i"

text \<open>
  Modelled from the spec: the classes \<^verbatim>\<open>JointCompose\<close>, \<^verbatim>\<open>JointTransform\<close>,
  \<^verbatim>\<open>JointResize\<close> and \<^verbatim>\<open>JointRandomFlipOrRotate\<close> of \<^verbatim>\<open>robosat_pink.transforms\<close>
  are missing from the sources. Section 4.2 of the specification: each stage receives
  (image, mask) and returns (image, mask); a stage with a null mask transform leaves
  the mask untouched; the flip-or-rotate stage applies one drawn operation
  identically to image and mask and is enabled by a configuration flag; the
  stages of a composition run in sequence. \<open>g\<close> is the operation drawn.
\<close>

definition apply_image_op :: "('i, 'm) raster_ops \<Rightarrow> image_op \<Rightarrow> 'i \<Rightarrow> 'i" where
  "apply_image_op ops f img =
     (case f of ImageToTensor \<Rightarrow> image_to_tensor ops img
              | Normalize mean std \<Rightarrow> normalize ops mean std img)"

text \<open>
  Modelled from the spec: the transform of the mask alone (section 4.2, stage c), its
  class \<^verbatim>\<open>MaskToTensor\<close> being missing from the sources.
\<close>

definition apply_mask_op :: "('i, 'm) raster_ops \<Rightarrow> mask_op \<Rightarrow> 'm \<Rightarrow> 'm" where
  "apply_mask_op ops f msk = (case f of MaskToTensor \<Rightarrow> mask_to_tensor ops msk)"

text \<open>
  Modelled from the spec: a stage of the pipeline (section 4.2), the classes being
  missing from the sources; the resize and the drawn operation act on image and mask
  alike, a \<^verbatim>\<open>JointTransform\<close> applies each of its two transforms that is not null.
\<close>

fun apply_stage :: "('i, 'm) raster_ops \<Rightarrow> geom \<Rightarrow> joint_stage \<Rightarrow> 'i \<times> 'm \<Rightarrow> 'i \<times> 'm" where
  "apply_stage ops g (JointResize n) (img, msk) =
     (resize_image ops n img, resize_mask ops n msk)"
| "apply_stage ops g (JointRandomFlipOrRotate enabled) (img, msk) =
     (if enabled then (geom_image ops g img, geom_mask ops g msk) else (img, msk))"
| "apply_stage ops g (JointTransform f h) (img, msk) =
     ((case f of None \<Rightarrow> img | Some f' \<Rightarrow> apply_image_op ops f' img),
      (case h of None \<Rightarrow> msk | Some h' \<Rightarrow> apply_mask_op ops h' msk))"

text \<open>
  Modelled from the spec: \<^verbatim>\<open>JointCompose\<close>, missing from the sources, runs its stages
  in sequence, each on the pair that the one before returned (section 4.2).
\<close>

fun joint_compose :: "('i, 'm) raster_ops \<Rightarrow> geom \<Rightarrow> joint_stage list \<Rightarrow> 'i \<times> 'm \<Rightarrow> 'i \<times> 'm" where
  "joint_compose ops g [] p = p"
| "joint_compose ops g (st # sts) p = joint_compose ops g sts (apply_stage ops g st p)"

section \<open>Tensors, samples, datasets and loaders\<close>

text \<open>
  A tensor is its size (\<^verbatim>\<open>t.size()\<close>) and an opaque payload. A sample is
  (image, mask, tile), a batch is (images, masks, tiles).
\<close>

datatype 'd tensor = Tensor (tsize: "nat list") (tdata: 'd)

type_synonym tile = "nat \<times> nat \<times> nat"

type_synonym 'd sample = "'d tensor \<times> 'd tensor \<times> tile"

type_synonym 'd batch = "'d tensor \<times> 'd tensor \<times> tile list"

text \<open>
  The object \<^verbatim>\<open>SlippyMapTilesConcatenation(root, channels, target, joint_transform)\<close>
  with the samples it yields. The payloads are opaque, so the samples are listed once:
  what the augmentation draws changes in them is not visible here.
\<close>

record 'd dataset =
  ds_root :: string
  ds_channels :: "channel list"
  ds_target :: string
  ds_joint_transform :: "joint_stage list"
  ds_samples :: "'d sample list"

record 'd data_loader =
  dl_dataset :: "'d dataset"
  dl_batch_size :: int
  dl_shuffle :: bool
  dl_drop_last :: bool
  dl_num_workers :: int

text \<open>
  \<^verbatim>\<open>torch.utils.data.DataLoader(dataset, batch_size, shuffle, drop_last, num_workers)\<close>:
  the constructor refuses a negative worker count, then, when it shuffles, a
  dataset without samples (the random sampler does), then a batch size that is not
  positive (the batch sampler does).
\<close>

definition DataLoader ::
  "'d dataset \<Rightarrow> int \<Rightarrow> bool \<Rightarrow> bool \<Rightarrow> int \<Rightarrow> error + 'd data_loader" where
  "DataLoader ds batch_size shuffle drop_last num_workers =
     (if num_workers < 0 then Inl ValueError
      else if shuffle \<and> ds_samples ds = [] then Inl ValueError
      else if batch_size \<le> 0 then Inl ValueError
      else Inr \<lparr>dl_dataset = ds, dl_batch_size = batch_size, dl_shuffle = shuffle,
                dl_drop_last = drop_last, dl_num_workers = num_workers\<rparr>)"

text \<open>
  The batch sampler: consecutive groups of \<open>n\<close> indices; a last, shorter group
  is yielded only without \<open>drop_last\<close>.
\<close>

function chunks :: "nat \<Rightarrow> bool \<Rightarrow> 'a list \<Rightarrow> 'a list list" where
  "chunks n drop_last xs =
     (if n = 0 then []
      else if length xs < n then (if drop_last \<or> xs = [] then [] else [xs])
      else take n xs # chunks n drop_last (drop n xs))"
  by pat_completeness auto
termination
  by (relation "measure (\<lambda>(n, d, xs). length xs)") auto

declare chunks.simps [simp del]

text \<open>
  The random sampler: a permutation of the samples, decided by a stream of random
  numbers. Each number picks one of the samples that are left.
\<close>

function shuffle_with :: "nat list \<Rightarrow> 'a list \<Rightarrow> 'a list" where
  "shuffle_with rs xs =
     (if xs = [] then []
      else (let i = (case rs of [] \<Rightarrow> 0 | r # _ \<Rightarrow> r mod length xs)
            in xs ! i # shuffle_with (tl rs) (take i xs @ drop (Suc i) xs)))"
  by pat_completeness auto
termination
proof (relation "measure (\<lambda>(rs, xs). length xs)")
  show "wf (measure (\<lambda>(rs, xs). length xs))" by simp
next
  fix rs :: "nat list" and xs :: "'a list" and i :: nat
  assume ne: "xs \<noteq> []" and i: "i = (case rs of [] \<Rightarrow> 0 | r # x \<Rightarrow> r mod length xs)"
  have "i < length xs"
    using ne i by (cases rs) simp_all
  then show "((tl rs, take i xs @ drop (Suc i) xs), (rs, xs)) \<in> measure (\<lambda>(rs, xs). length xs)"
    by simp
qed

declare shuffle_with.simps [simp del]

section \<open>Collaborators and program state\<close>

text \<open>
  A criterion maps (outputs, masks) to the loss: its value (\<^verbatim>\<open>loss.item()\<close>) and
  the gradient that \<^verbatim>\<open>loss.backward()\<close> adds to the parameters' gradients.
  The value of a loss and the statistics of a pass are reals here: rounding is not
  modelled, and no branch of the program depends on these values.
\<close>

type_synonym ('d, 'g) criterion = "'d tensor \<Rightarrow> 'd tensor \<Rightarrow> real \<times> 'g"

text \<open>
  What the passes need from torch, from the network plugin and from
  \<^verbatim>\<open>robosat_pink.metrics\<close>, as parameters: \<open>'sd\<close> is the network's state (what
  \<^verbatim>\<open>state_dict()\<close> returns), \<open>'o\<close> the optimizer's state, \<open>'g\<close> the gradients,
  \<open>'d\<close> a tensor payload, \<open>'mt\<close> a \<^verbatim>\<open>Metrics\<close> object. \<open>forward\<close> takes the
  network's mode (\<open>True\<close> in training mode) and whether gradients are recorded.
\<close>

record ('sd, 'o, 'g, 'd, 'mt) torch =
  stack_data :: "'d list \<Rightarrow> 'd"
  row_data :: "'d \<Rightarrow> nat \<Rightarrow> 'd"
  rng_draws :: "nat \<Rightarrow> nat list"
  rng_next :: "nat \<Rightarrow> nat"
  forward :: "bool \<Rightarrow> bool \<Rightarrow> 'sd \<Rightarrow> 'd tensor \<Rightarrow> 'd tensor \<times> 'sd"
  grads_none :: 'g
  zero_grad :: "'g \<Rightarrow> 'g"
  accumulate_grad :: "'g \<Rightarrow> 'g \<Rightarrow> 'g"
  optimizer_step :: "'o \<Rightarrow> 'sd \<Rightarrow> 'g \<Rightarrow> 'o \<times> 'sd"
  metrics_new :: 'mt
  metrics_add :: "'mt \<Rightarrow> 'd tensor \<Rightarrow> 'd tensor \<Rightarrow> 'mt"
  get_miou :: "'mt \<Rightarrow> real"
  get_fg_iou :: "'mt \<Rightarrow> real"
  get_mcc :: "'mt \<Rightarrow> real"

text \<open>What \<^verbatim>\<open>main\<close> needs besides.\<close>

record ('sd, 'o, 'g, 'd, 'mt) env = "('sd, 'o, 'g, 'd, 'mt) torch" +
  load_config :: "string \<Rightarrow> error + config"
  cuda_is_available :: bool
  cuda_device_count :: nat
  model_modules :: "string list"
  loss_modules :: "string list"
  model_new :: "string \<Rightarrow> string \<Rightarrow> nat \<Rightarrow> nat \<Rightarrow> string \<Rightarrow> bool \<Rightarrow> error + 'sd"
  loss_new :: "string \<Rightarrow> string \<Rightarrow> error + ('d, 'g) criterion"
  adam :: "'sd \<Rightarrow> pyfloat \<Rightarrow> pyfloat \<Rightarrow> error + 'o"
  state_dict_fits :: "'sd \<Rightarrow> 'sd \<Rightarrow> bool"
  optimizer_state_fits :: "'o \<Rightarrow> 'o \<Rightarrow> bool"
  tiles_dataset :: "string \<Rightarrow> channel list \<Rightarrow> string \<Rightarrow> joint_stage list \<Rightarrow> error + 'd sample list"
  str_float :: "pyfloat \<Rightarrow> string"
  format_float :: "nat \<Rightarrow> real \<Rightarrow> string"

text \<open>The dictionary that \<^verbatim>\<open>torch.save\<close> writes at line 157 and \<^verbatim>\<open>torch.load\<close> reads at line 92.\<close>

record ('sd, 'o) checkpoint_rec =
  ck_epoch :: int
  ck_state_dict :: 'sd
  ck_optimizer :: 'o

text \<open>The calls into the network, the optimizer and the checkpoint store, as the program makes them.\<close>

datatype call =
    NetTrain
  | NetEval
  | ZeroGrad
  | Forward bool
  | Backward
  | OptimizerStep
  | LoadStateDict
  | OptimizerLoadStateDict
  | TorchLoad string
  | TorchSave string

text \<open>
  The world outside the process: the checkpoint files, the lines sent to the log, the
  record of calls and the state of the random number generator.
\<close>

record ('sd, 'o) world =
  files :: "string \<rightharpoonup> ('sd, 'o) checkpoint_rec"
  log_lines :: "string list"
  calls :: "call list"
  rng :: nat

text \<open>The world together with the objects \<^verbatim>\<open>net\<close> and \<^verbatim>\<open>optimizer\<close> that \<^verbatim>\<open>main\<close> creates.\<close>

record ('sd, 'o, 'g) session = "('sd, 'o) world" +
  state_dict :: 'sd
  training :: bool
  grads :: 'g
  opt_state :: 'o

datatype device = Cuda | Cpu

record stats =
  loss :: real
  miou :: real
  fg_iou :: real
  mcc :: real

subsection \<open>Iterating a loader\<close>

text \<open>\<^verbatim>\<open>torch.stack\<close> as the default collate function uses it: all sizes must agree.\<close>

definition stack :: "('sd, 'o, 'g, 'd, 'mt, 'z) torch_scheme \<Rightarrow> 'd tensor list \<Rightarrow> error + 'd tensor" where
  "stack env ts =
     (case ts of
        [] \<Rightarrow> Inl RuntimeError
      | t # _ \<Rightarrow>
          if list_all (\<lambda>u. tsize u = tsize t) ts
          then Inr (Tensor (length ts # tsize t) (stack_data env (map tdata ts)))
          else Inl RuntimeError)"

definition collate :: "('sd, 'o, 'g, 'd, 'mt, 'z) torch_scheme \<Rightarrow> 'd sample list \<Rightarrow> error + 'd batch" where
  "collate env samples =
     (case stack env (map fst samples) of
        Inl e \<Rightarrow> Inl e
      | Inr imgs \<Rightarrow>
          (case stack env (map (\<lambda>x. fst (snd x)) samples) of
             Inl e \<Rightarrow> Inl e
           | Inr msks \<Rightarrow> Inr (imgs, msks, map (\<lambda>x. snd (snd x)) samples)))"

text \<open>
  One iteration over a loader: the batches in order, each one a batch or the error
  that collating it raises. A shuffling loader consumes random numbers.
\<close>

definition loader_iter ::
  "('sd, 'o, 'g, 'd, 'mt, 'z) torch_scheme \<Rightarrow> 'd data_loader \<Rightarrow> ('sd, 'o, 'g) session
     \<Rightarrow> (error + 'd batch) list \<times> ('sd, 'o, 'g) session" where
  "loader_iter env loader s =
     (let xs = ds_samples (dl_dataset loader);
          n = nat (dl_batch_size loader)
      in if dl_shuffle loader
         then (map (collate env) (chunks n (dl_drop_last loader) (shuffle_with (rng_draws env (rng s)) xs)),
               s\<lparr>rng := rng_next env (rng s)\<rparr>)
         else (map (collate env) (chunks n (dl_drop_last loader) xs), s))"

text \<open>Iterating a tensor yields its slices along the first dimension; a tensor without dimensions cannot be iterated.\<close>

definition rows :: "('sd, 'o, 'g, 'd, 'mt, 'z) torch_scheme \<Rightarrow> 'd tensor \<Rightarrow> error + 'd tensor list" where
  "rows env t =
     (case tsize t of
        [] \<Rightarrow> Inl TypeError
      | n # sz \<Rightarrow> Inr (map (\<lambda>i. Tensor sz (row_data env (tdata t) i)) [0..<n]))"

definition zip_rows ::
  "('sd, 'o, 'g, 'd, 'mt, 'z) torch_scheme \<Rightarrow> 'd tensor \<Rightarrow> 'd tensor \<Rightarrow> error + ('d tensor \<times> 'd tensor) list" where
  "zip_rows env a b =
     (case rows env a of
        Inl e \<Rightarrow> Inl e
      | Inr ra \<Rightarrow> (case rows env b of Inl e \<Rightarrow> Inl e | Inr rb \<Rightarrow> Inr (zip ra rb)))"

section \<open>The passes: \<^verbatim>\<open>train\<close> and \<^verbatim>\<open>validate\<close>\<close>

text \<open>The number of samples of an item of a loader: \<^verbatim>\<open>images.size(0)\<close> of a batch.\<close>

definition samples_in :: "error + 'd batch \<Rightarrow> nat" where
  "samples_in item =
     (case item of
        Inl e \<Rightarrow> 0
      | Inr (images, masks, tiles) \<Rightarrow> (case tsize images of [] \<Rightarrow> 0 | n # _ \<Rightarrow> n))"

text \<open>The local variables of a pass: \<^verbatim>\<open>num_samples\<close>, \<^verbatim>\<open>running_loss\<close>, \<^verbatim>\<open>metrics\<close>.\<close>

type_synonym 'mt acc = "nat \<times> real \<times> 'mt"

text \<open>
  The body of the loop of \<^verbatim>\<open>train\<close>, lines 169 to 191. The result is the
  exception raised, if any, with the local variables and the session as they are then.
\<close>

definition train_batch ::
  "('sd, 'o, 'g, 'd, 'mt, 'z) torch_scheme \<Rightarrow> nat \<Rightarrow> ('d, 'g) criterion \<Rightarrow> 'd batch \<Rightarrow> 'mt acc
     \<Rightarrow> ('sd, 'o, 'g) session \<Rightarrow> error option \<times> 'mt acc \<times> ('sd, 'o, 'g) session" where
  "train_batch env num_classes criterion b acc s =
     (case b of (images, masks, tiles) \<Rightarrow>
      case acc of (num_samples, running_loss, metrics) \<Rightarrow>
      if drop 2 (tsize images) \<noteq> drop 1 (tsize masks)
      then (Some (AssertionError ''resolutions for images and masks are in sync''), acc, s)
      else
        (case tsize images of
           [] \<Rightarrow> (Some IndexError, acc, s)
         | n # _ \<Rightarrow>
             (let num_samples1 = num_samples + n;
                  s1 = s\<lparr>grads := zero_grad env (grads s), calls := calls s @ [ZeroGrad]\<rparr>;
                  (outputs, sd) = forward env (training s1) True (state_dict s1) images;
                  s2 = s1\<lparr>state_dict := sd, calls := calls s1 @ [Forward True]\<rparr>
              in if drop 2 (tsize outputs) \<noteq> drop 1 (tsize masks)
                 then (Some (AssertionError ''resolutions for predictions and masks are in sync''),
                       (num_samples1, running_loss, metrics), s2)
                 else if length (tsize outputs) < 2
                 then (Some IndexError, (num_samples1, running_loss, metrics), s2)
                 else if tsize outputs ! 1 \<noteq> num_classes
                 then (Some (AssertionError ''classes for predictions and dataset are in sync''),
                       (num_samples1, running_loss, metrics), s2)
                 else
                   (let (loss_item, loss_grad) = criterion outputs masks;
                        s3 = s2\<lparr>grads := accumulate_grad env (grads s2) loss_grad,
                                calls := calls s2 @ [Backward]\<rparr>;
                        (opt, sd') = optimizer_step env (opt_state s3) (state_dict s3) (grads s3);
                        s4 = s3\<lparr>opt_state := opt, state_dict := sd',
                                calls := calls s3 @ [OptimizerStep]\<rparr>;
                        running_loss1 = running_loss + loss_item
                    in (case zip_rows env masks outputs of
                          Inl e \<Rightarrow> (Some e, (num_samples1, running_loss1, metrics), s4)
                        | Inr pairs \<Rightarrow>
                            (None,
                             (num_samples1, running_loss1,
                              foldl (\<lambda>m (mask, output). metrics_add env m mask output) metrics pairs),
                             s4))))))"

fun train_loop ::
  "('sd, 'o, 'g, 'd, 'mt, 'z) torch_scheme \<Rightarrow> nat \<Rightarrow> ('d, 'g) criterion \<Rightarrow> (error + 'd batch) list
     \<Rightarrow> 'mt acc \<Rightarrow> ('sd, 'o, 'g) session \<Rightarrow> error option \<times> 'mt acc \<times> ('sd, 'o, 'g) session" where
  "train_loop env num_classes criterion [] acc s = (None, acc, s)"
| "train_loop env num_classes criterion (item # rest) acc s =
     (case item of
        Inl e \<Rightarrow> (Some e, acc, s)
      | Inr b \<Rightarrow>
          (case train_batch env num_classes criterion b acc s of
             (Some e, acc', s') \<Rightarrow> (Some e, acc', s')
           | (None, acc', s') \<Rightarrow> train_loop env num_classes criterion rest acc' s'))"

text \<open>
  \<^verbatim>\<open>train\<close>, lines 160 to 200. Moving tensors to the device changes nothing here,
  and the progress bar around the loader only prints. Assertions are checked, as they
  are unless the interpreter runs with \<^verbatim>\<open>-O\<close>.
\<close>

definition train ::
  "('sd, 'o, 'g, 'd, 'mt, 'z) torch_scheme \<Rightarrow> 'd data_loader \<Rightarrow> nat \<Rightarrow> device \<Rightarrow> ('d, 'g) criterion
     \<Rightarrow> ('sd, 'o, 'g) session \<Rightarrow> (error + stats) \<times> ('sd, 'o, 'g) session" where
  "train env loader num_classes dev criterion s =
     (let s1 = s\<lparr>training := True, calls := calls s @ [NetTrain]\<rparr>;
          (items, s2) = loader_iter env loader s1;
          (err, acc, s3) = train_loop env num_classes criterion items (0, 0, metrics_new env) s2
      in case err of
           Some e \<Rightarrow> (Inl e, s3)
         | None \<Rightarrow>
             (case acc of (num_samples, running_loss, metrics) \<Rightarrow>
                if num_samples > 0
                then (Inr \<lparr>loss = running_loss / real num_samples, miou = get_miou env metrics,
                           fg_iou = get_fg_iou env metrics, mcc = get_mcc env metrics\<rparr>, s3)
                else (Inl (AssertionError ''dataset contains training images and labels''), s3)))"

text \<open>
  The body of the loop of \<^verbatim>\<open>validate\<close>, lines 213 to 228, inside
  \<^verbatim>\<open>with torch.no_grad()\<close>.
\<close>

definition validate_batch ::
  "('sd, 'o, 'g, 'd, 'mt, 'z) torch_scheme \<Rightarrow> nat \<Rightarrow> ('d, 'g) criterion \<Rightarrow> 'd batch \<Rightarrow> 'mt acc
     \<Rightarrow> ('sd, 'o, 'g) session \<Rightarrow> error option \<times> 'mt acc \<times> ('sd, 'o, 'g) session" where
  "validate_batch env num_classes criterion b acc s =
     (case b of (images, masks, tiles) \<Rightarrow>
      case acc of (num_samples, running_loss, metrics) \<Rightarrow>
      if drop 2 (tsize images) \<noteq> drop 1 (tsize masks)
      then (Some (AssertionError ''resolutions for images and masks are in sync''), acc, s)
      else
        (case tsize images of
           [] \<Rightarrow> (Some IndexError, acc, s)
         | n # _ \<Rightarrow>
             (let num_samples1 = num_samples + n;
                  (outputs, sd) = forward env (training s) False (state_dict s) images;
                  s1 = s\<lparr>state_dict := sd, calls := calls s @ [Forward False]\<rparr>
              in if drop 2 (tsize outputs) \<noteq> drop 1 (tsize masks)
                 then (Some (AssertionError ''resolutions for predictions and masks are in sync''),
                       (num_samples1, running_loss, metrics), s1)
                 else if length (tsize outputs) < 2
                 then (Some IndexError, (num_samples1, running_loss, metrics), s1)
                 else if tsize outputs ! 1 \<noteq> num_classes
                 then (Some (AssertionError ''classes for predictions and dataset are in sync''),
                       (num_samples1, running_loss, metrics), s1)
                 else
                   (let (loss_item, loss_grad) = criterion outputs masks;
                        running_loss1 = running_loss + loss_item
                    in (case zip_rows env masks outputs of
                          Inl e \<Rightarrow> (Some e, (num_samples1, running_loss1, metrics), s1)
                        | Inr pairs \<Rightarrow>
                            (None,
                             (num_samples1, running_loss1,
                              foldl (\<lambda>m (mask, output). metrics_add env m mask output) metrics pairs),
                             s1))))))"

fun validate_loop ::
  "('sd, 'o, 'g, 'd, 'mt, 'z) torch_scheme \<Rightarrow> nat \<Rightarrow> ('d, 'g) criterion \<Rightarrow> (error + 'd batch) list
     \<Rightarrow> 'mt acc \<Rightarrow> ('sd, 'o, 'g) session \<Rightarrow> error option \<times> 'mt acc \<times> ('sd, 'o, 'g) session" where
  "validate_loop env num_classes criterion [] acc s = (None, acc, s)"
| "validate_loop env num_classes criterion (item # rest) acc s =
     (case item of
        Inl e \<Rightarrow> (Some e, acc, s)
      | Inr b \<Rightarrow>
          (case validate_batch env num_classes criterion b acc s of
             (Some e, acc', s') \<Rightarrow> (Some e, acc', s')
           | (None, acc', s') \<Rightarrow> validate_loop env num_classes criterion rest acc' s'))"

text \<open>\<^verbatim>\<open>validate\<close>, lines 203 to 237.\<close>

definition validate ::
  "('sd, 'o, 'g, 'd, 'mt, 'z) torch_scheme \<Rightarrow> 'd data_loader \<Rightarrow> nat \<Rightarrow> device \<Rightarrow> ('d, 'g) criterion
     \<Rightarrow> ('sd, 'o, 'g) session \<Rightarrow> (error + stats) \<times> ('sd, 'o, 'g) session" where
  "validate env loader num_classes dev criterion s =
     (let s1 = s\<lparr>training := False, calls := calls s @ [NetEval]\<rparr>;
          (items, s2) = loader_iter env loader s1;
          (err, acc, s3) = validate_loop env num_classes criterion items (0, 0, metrics_new env) s2
      in case err of
           Some e \<Rightarrow> (Inl e, s3)
         | None \<Rightarrow>
             (case acc of (num_samples, running_loss, metrics) \<Rightarrow>
                if num_samples > 0
                then (Inr \<lparr>loss = running_loss / real num_samples, miou = get_miou env metrics,
                           fg_iou = get_fg_iou env metrics, mcc = get_mcc env metrics\<rparr>, s3)
                else (Inl (AssertionError ''dataset contains validation images and labels''), s3)))"

section \<open>\<^verbatim>\<open>get_dataset_loaders\<close>\<close>

text \<open>
  The value of \<^verbatim>\<open>dataset_path\<close> in \<^verbatim>\<open>main\<close>: the string of the configuration, or
  the integer that \<^verbatim>\<open>--dataset\<close> was converted to.
\<close>

datatype path_val = PathStr string | PathInt int

text \<open>
  Lines 240 to 271. \<^verbatim>\<open>os.path.join\<close> raises \<^verbatim>\<open>TypeError\<close> on an integer.
  \<open>tiles_dataset\<close> is the constructor \<^verbatim>\<open>SlippyMapTilesConcatenation\<close>, a collaborator.
\<close>

definition get_dataset_loaders ::
  "('sd, 'o, 'g, 'd, 'mt) env \<Rightarrow> path_val \<Rightarrow> config \<Rightarrow> int
     \<Rightarrow> error + 'd data_loader \<times> 'd data_loader" where
  "get_dataset_loaders env path cfg nworkers =
     (let transform = joint_transform cfg
      in case path of
           PathInt i \<Rightarrow> Inl TypeError
         | PathStr p \<Rightarrow>
        (case tiles_dataset env (path_join p ''training'') (channels cfg)
                (path_join3 p ''training'' ''labels'') transform of
           Inl e \<Rightarrow> Inl e
         | Inr train_samples \<Rightarrow>
        (case tiles_dataset env (path_join p ''validation'') (channels cfg)
                (path_join3 p ''validation'' ''labels'') transform of
           Inl e \<Rightarrow> Inl e
         | Inr val_samples \<Rightarrow>
        (let train_dataset =
               \<lparr>ds_root = path_join p ''training'', ds_channels = channels cfg,
                ds_target = path_join3 p ''training'' ''labels'',
                ds_joint_transform = transform, ds_samples = train_samples\<rparr>;
             val_dataset =
               \<lparr>ds_root = path_join p ''validation'', ds_channels = channels cfg,
                ds_target = path_join3 p ''validation'' ''labels'',
                ds_joint_transform = transform, ds_samples = val_samples\<rparr>;
             batch_size = model_batch_size cfg
         in case DataLoader train_dataset batch_size True True nworkers of
              Inl e \<Rightarrow> Inl e
            | Inr train_loader \<Rightarrow>
           (case DataLoader val_dataset batch_size False True nworkers of
              Inl e \<Rightarrow> Inl e
            | Inr val_loader \<Rightarrow> Inr (train_loader, val_loader))))))"

section \<open>\<^verbatim>\<open>main\<close>\<close>

definition log_line :: "string \<Rightarrow> ('sd, 'o, 'z) world_scheme \<Rightarrow> ('sd, 'o, 'z) world_scheme" where
  "log_line l w = w\<lparr>log_lines := log_lines w @ [l]\<rparr>"

definition world_of :: "('sd, 'o, 'g) session \<Rightarrow> ('sd, 'o) world" where
  "world_of s = \<lparr>files = files s, log_lines = log_lines s, calls = calls s, rng = rng s\<rparr>"

definition tab :: string where
  "tab = [CHR 0x09]"

definition str_bool :: "bool \<Rightarrow> string" where
  "str_bool b = (if b then ''True'' else ''False'')"

definition str_path :: "path_val \<Rightarrow> string" where
  "str_path p = (case p of PathStr x \<Rightarrow> x | PathInt i \<Rightarrow> str_int i)"

text \<open>
  Lines 85 to 98: loading the checkpoint. The result is \<^verbatim>\<open>resume\<close>, or the
  exception raised. \<^verbatim>\<open>load_state_dict\<close> of the network and of the optimizer refuse a
  state that does not fit and otherwise replace the whole state.
\<close>

definition load_checkpoint ::
  "('sd, 'o, 'g, 'd, 'mt) env \<Rightarrow> args \<Rightarrow> ('sd, 'o, 'g) session
     \<Rightarrow> (error + int) \<times> ('sd, 'o, 'g) session" where
  "load_checkpoint env a s =
     (case checkpoint a of
        None \<Rightarrow> (Inr 0, s)
      | Some p \<Rightarrow>
          if p = [] then (Inr 0, s)
          else
            (case files s p of
               None \<Rightarrow> (Inl FileNotFoundError, s)
             | Some chkpt \<Rightarrow>
                 (let s1 = s\<lparr>calls := calls s @ [TorchLoad p]\<rparr>
                  in if \<not> state_dict_fits env (state_dict s1) (ck_state_dict chkpt)
                     then (Inl RuntimeError, s1)
                     else
                       (let s2 = s1\<lparr>state_dict := ck_state_dict chkpt,
                                    calls := calls s1 @ [LoadStateDict]\<rparr>;
                            s3 = log_line (''Using checkpoint: '' @ p) s2
                        in if resume a
                           then
                             (if \<not> optimizer_state_fits env (opt_state s3) (ck_optimizer chkpt)
                              then (Inl ValueError, s3)
                              else (Inr (ck_epoch chkpt),
                                    s3\<lparr>opt_state := ck_optimizer chkpt,
                                       calls := calls s3 @ [OptimizerLoadStateDict]\<rparr>))
                           else (Inr 0, s3)))))"

text \<open>The local variables of \<^verbatim>\<open>main\<close> that the lines from 112 on read.\<close>

record ('d, 'g) locals =
  lc_config :: config
  lc_args :: args
  lc_lr :: pyfloat
  lc_dataset_path :: path_val
  lc_num_epochs :: int
  lc_num_classes :: nat
  lc_device :: device
  lc_criterion :: "('d, 'g) criterion"
  lc_train_loader :: "'d data_loader"
  lc_val_loader :: "'d data_loader"

text \<open>Lines 112 to 130: the description of the run, sent to the log.\<close>

fun band_lines :: "int \<Rightarrow> string \<Rightarrow> int list \<Rightarrow> string list" where
  "band_lines k name [] = []"
| "band_lines k name (b # bs) =
     (''Channel '' @ str_int k @ '':'' @ tab @ tab @ '' '' @ name @ ''[band: '' @ str_int b @ '']'')
       # band_lines (k + 1) name bs"

fun channel_lines :: "int \<Rightarrow> channel list \<Rightarrow> string list" where
  "channel_lines k [] = []"
| "channel_lines k (c # cs) =
     band_lines k (sub c) (bands c) @ channel_lines (k + int (length (bands c))) cs"

definition header_lines :: "('sd, 'o, 'g, 'd, 'mt) env \<Rightarrow> ('d, 'g) locals \<Rightarrow> string list" where
  "header_lines env l =
     (let cfg = lc_config l
      in [[], ''--- Input tensor from Dataset: '' @ str_path (lc_dataset_path l) @ '' ---'']
         @ channel_lines 1 (channels cfg)
         @ [[],
            ''--- Hyper Parameters ---'',
            ''Model:'' @ tab @ tab @ tab @ '' '' @ model_name cfg,
            ''Encoder model:'' @ tab @ tab @ '' '' @ model_encoder cfg,
            ''Loss function:'' @ tab @ tab @ '' '' @ model_loss cfg,
            ''ResNet pre-trained:'' @ tab @ '' '' @ str_bool (model_pretrained cfg),
            ''Batch Size:'' @ tab @ tab @ '' '' @ str_int (model_batch_size cfg),
            ''Tile Size:'' @ tab @ tab @ '' '' @ str_int (model_tile_size cfg),
            ''Data Augmentation:'' @ tab @ '' '' @ str_bool (model_data_augmentation cfg),
            ''Learning Rate:'' @ tab @ tab @ '' '' @ str_float env (lc_lr l),
            ''Weight Decay:'' @ tab @ tab @ '' '' @ str_float env (model_decay cfg),
            []])"

definition stats_line :: "('sd, 'o, 'g, 'd, 'mt) env \<Rightarrow> string \<Rightarrow> stats \<Rightarrow> string \<Rightarrow> string" where
  "stats_line env pass h title =
     pass @ '' loss: '' @ format_float env 4 (loss h) @ '', mIoU: '' @ format_float env 3 (miou h)
       @ '', '' @ title @ '' IoU: '' @ format_float env 3 (fg_iou h)
       @ '', MCC: '' @ format_float env 3 (mcc h)"

text \<open>The name of the checkpoint file of line 156.\<close>

definition checkpoint_path :: "string \<Rightarrow> int \<Rightarrow> int \<Rightarrow> string" where
  "checkpoint_path outdir n num_epochs =
     path_join outdir (''checkpoint-'' @ format_05d n @ ''-of-'' @ format_05d num_epochs @ ''.pth'')"

text \<open>
  Lines 134 to 157: the body of the loop over the epochs. The second class title is
  read when the line of the training statistics is formatted.
\<close>

definition epoch_body ::
  "('sd, 'o, 'g, 'd, 'mt) env \<Rightarrow> ('d, 'g) locals \<Rightarrow> int \<Rightarrow> ('sd, 'o, 'g) session
     \<Rightarrow> error option \<times> ('sd, 'o, 'g) session" where
  "epoch_body env l epoch s =
     (let num_epochs = lc_num_epochs l;
          titles = classes_titles (lc_config l);
          s1 = log_line ''---'' s;
          s2 = log_line (''Epoch: '' @ str_int (epoch + 1) @ ''/'' @ str_int num_epochs) s1
      in case train env (lc_train_loader l) (lc_num_classes l) (lc_device l) (lc_criterion l) s2 of
           (Inl e, s3) \<Rightarrow> (Some e, s3)
         | (Inr train_hist, s3) \<Rightarrow>
             if length titles < 2 then (Some IndexError, s3)
             else
               (let s4 = log_line (stats_line env ''Train   '' train_hist (titles ! 1)) s3
                in case validate env (lc_val_loader l) (lc_num_classes l) (lc_device l)
                          (lc_criterion l) s4 of
                     (Inl e, s5) \<Rightarrow> (Some e, s5)
                   | (Inr val_hist, s5) \<Rightarrow>
                       (let s6 = log_line (stats_line env ''Validate'' val_hist (titles ! 1)) s5;
                            states = \<lparr>ck_epoch = epoch + 1, ck_state_dict = state_dict s6,
                                      ck_optimizer = opt_state s6\<rparr>;
                            file = checkpoint_path (out (lc_args l)) (epoch + 1) num_epochs
                        in (None, s6\<lparr>files := (files s6)(file \<mapsto> states),
                                     calls := calls s6 @ [TorchSave file]\<rparr>))))"

fun run_epochs ::
  "('sd, 'o, 'g, 'd, 'mt) env \<Rightarrow> ('d, 'g) locals \<Rightarrow> int list \<Rightarrow> ('sd, 'o, 'g) session
     \<Rightarrow> error option \<times> ('sd, 'o, 'g) session" where
  "run_epochs env l [] s = (None, s)"
| "run_epochs env l (epoch # rest) s =
     (case epoch_body env l epoch s of
        (Some e, s') \<Rightarrow> (Some e, s')
      | (None, s') \<Rightarrow> run_epochs env l rest s')"

text \<open>
  Lines 51 to 53: a value from the command line replaces the one of the configuration.
  \<^verbatim>\<open>x if x else y\<close> takes \<open>y\<close> when \<open>x\<close> is \<^verbatim>\<open>None\<close> and also when it is zero.
\<close>

definition lr_of :: "args \<Rightarrow> config \<Rightarrow> pyfloat" where
  "lr_of a cfg =
     (case lr a of None \<Rightarrow> model_lr cfg | Some x \<Rightarrow> if float_truthy x then x else model_lr cfg)"

definition dataset_path_of :: "args \<Rightarrow> config \<Rightarrow> path_val" where
  "dataset_path_of a cfg =
     (case dataset a of
        None \<Rightarrow> PathStr (dataset_path cfg)
      | Some d \<Rightarrow> if d = 0 then PathStr (dataset_path cfg) else PathInt d)"

definition num_epochs_of :: "args \<Rightarrow> config \<Rightarrow> int" where
  "num_epochs_of a cfg =
     (case epochs a of None \<Rightarrow> model_epochs cfg | Some n \<Rightarrow> if n = 0 then model_epochs cfg else n)"

text \<open>Lines 57 to 64: the device and the first line of the log.\<close>

definition device_of :: "('sd, 'o, 'g, 'd, 'mt) env \<Rightarrow> device" where
  "device_of env = (if cuda_is_available env then Cuda else Cpu)"

definition banner :: "('sd, 'o, 'g, 'd, 'mt) env \<Rightarrow> args \<Rightarrow> string" where
  "banner env a =
     (if cuda_is_available env
      then ''RoboSat - training on '' @ str_int (int (cuda_device_count env))
             @ '' GPUs, with '' @ str_int (workers a) @ '' workers''
      else ''RoboSat - training on CPU, with '' @ str_int (workers a) @ '' workers'')"

text \<open>Lines 67 to 69: the number of bands over all channels.\<close>

definition num_channels_of :: "config \<Rightarrow> nat" where
  "num_channels_of cfg = foldl (\<lambda>n channel. n + length (bands channel)) 0 (channels cfg)"

text \<open>
  Line 83, \<^verbatim>\<open>Adam(net.parameters(), lr=lr, weight_decay=decay)\<close>: the constructor
  raises \<^verbatim>\<open>ValueError\<close> unless \<^verbatim>\<open>0.0 <= lr\<close>, then unless \<^verbatim>\<open>0.0 <= weight_decay\<close>;
  after these checks the collaborator \<open>adam\<close> builds the state of the optimizer, or
  fails (a network without parameters is refused).
\<close>

definition Adam ::
  "('sd, 'o, 'g, 'd, 'mt) env \<Rightarrow> 'sd \<Rightarrow> pyfloat \<Rightarrow> pyfloat \<Rightarrow> error + 'o" where
  "Adam env net rate decay =
     (if \<not> float_nonneg rate then Inl ValueError
      else if \<not> float_nonneg decay then Inl ValueError
      else adam env net rate decay)"

text \<open>
  Lines 77 to 83: the session with the network that the plugin returned and the new
  optimizer. A new network is in training mode and has no gradients.
\<close>

definition new_session ::
  "('sd, 'o, 'g, 'd, 'mt) env \<Rightarrow> ('sd, 'o) world \<Rightarrow> 'sd \<Rightarrow> 'o \<Rightarrow> ('sd, 'o, 'g) session" where
  "new_session env w net optimizer =
     \<lparr>files = files w, log_lines = log_lines w, calls = calls w, rng = rng w,
      state_dict = net, training = True, grads = grads_none env,
      opt_state = optimizer\<rparr>"

text \<open>
  Lines 50 to 130 of \<^verbatim>\<open>main\<close>: everything before the loop over the epochs. The
  result is the exception raised with the world as it is then, or the local
  variables, \<^verbatim>\<open>resume\<close> and the session.
\<close>

definition prepare ::
  "('sd, 'o, 'g, 'd, 'mt) env \<Rightarrow> args \<Rightarrow> ('sd, 'o) world
     \<Rightarrow> error \<times> ('sd, 'o) world + ('d, 'g) locals \<times> int \<times> ('sd, 'o, 'g) session" where
  "prepare env a w =
     (case load_config env (config a) of
        Inl e \<Rightarrow> Inl (e, w)
      | Inr cfg \<Rightarrow>
     (let lr_v = lr_of a cfg;
          dataset_path_v = dataset_path_of a cfg;
          num_epochs = num_epochs_of a cfg;
          dev = device_of env;
          w1 = log_line (banner env a) w;
          num_classes = length (classes_titles cfg);
          num_channels = num_channels_of cfg;
          pretrained = model_pretrained cfg;
          encoder = model_encoder cfg;
          models = model_modules env
      in if model_name cfg \<notin> set models
         then Inl (SystemExit (''Unknown model, thoses available are '' @ py_repr_list models), w1)
         else
        (case model_new env (''robosat_pink.models.'' @ model_name cfg) (py_title (model_name cfg))
                num_classes num_channels encoder pretrained of
           Inl e \<Rightarrow> Inl (e, w1)
         | Inr net \<Rightarrow>
        (case Adam env net lr_v (model_decay cfg) of
           Inl e \<Rightarrow> Inl (e, w1)
         | Inr optimizer \<Rightarrow>
        (case load_checkpoint env a (new_session env w1 net optimizer) of
              (Inl e, s1) \<Rightarrow> Inl (e, world_of s1)
            | (Inr resume_v, s1) \<Rightarrow>
           (let losses = loss_modules env
            in if model_loss cfg \<notin> set losses
               then Inl (SystemExit (''Unknown loss, thoses available are '' @ py_repr_list losses),
                         world_of s1)
               else
              (case loss_new env (''robosat_pink.losses.'' @ model_loss cfg)
                      (py_title (model_loss cfg)) of
                 Inl e \<Rightarrow> Inl (e, world_of s1)
               | Inr criterion \<Rightarrow>
              (case get_dataset_loaders env dataset_path_v cfg (workers a) of
                 Inl e \<Rightarrow> Inl (e, world_of s1)
               | Inr (train_loader, val_loader) \<Rightarrow>
                   if resume_v \<ge> num_epochs
                   then Inl (SystemExit (''Error: Epoch '' @ str_int num_epochs @ '' set in ''
                               @ config a @ '' already reached by the checkpoint provided''),
                             world_of s1)
                   else
                     (let l = \<lparr>lc_config = cfg, lc_args = a, lc_lr = lr_v,
                               lc_dataset_path = dataset_path_v, lc_num_epochs = num_epochs,
                               lc_num_classes = num_classes, lc_device = dev,
                               lc_criterion = criterion, lc_train_loader = train_loader,
                               lc_val_loader = val_loader\<rparr>
                      in Inr (l, resume_v,
                              s1\<lparr>log_lines := log_lines s1 @ header_lines env l\<rparr>))))))))))"

text \<open>
  \<^verbatim>\<open>main\<close>, lines 49 to 157. The result is the exception that ends the program, if
  any, and the world it leaves; \<open>[i..j]\<close> with \<open>j = num_epochs - 1\<close> is
  \<^verbatim>\<open>range(resume, num_epochs)\<close>.
\<close>

definition main ::
  "('sd, 'o, 'g, 'd, 'mt) env \<Rightarrow> args \<Rightarrow> ('sd, 'o) world \<Rightarrow> error option \<times> ('sd, 'o) world" where
  "main env a w =
     (case prepare env a w of
        Inl (e, w') \<Rightarrow> (Some e, w')
      | Inr (l, resume_v, s) \<Rightarrow>
          (case run_epochs env l [resume_v..lc_num_epochs l - 1] s of
             (r, s') \<Rightarrow> (r, world_of s')))"

section \<open>Sets of outcomes used in the statements\<close>

text \<open>The exceptions that the body of the loop of a pass raises by itself.\<close>

definition batch_errors :: "error set" where
  "batch_errors =
     {AssertionError ''resolutions for images and masks are in sync'',
      AssertionError ''resolutions for predictions and masks are in sync'',
      AssertionError ''classes for predictions and dataset are in sync'',
      IndexError, TypeError}"

text \<open>The three failed assertions on shapes.\<close>

definition shape_assertions :: "error set" where
  "shape_assertions =
     {AssertionError ''resolutions for images and masks are in sync'',
      AssertionError ''resolutions for predictions and masks are in sync'',
      AssertionError ''classes for predictions and dataset are in sync''}"

text \<open>The calls that load a checkpoint; the calls of a training or validation pass are not among them.\<close>

definition loading_calls :: "call set" where
  "loading_calls = {LoadStateDict, OptimizerLoadStateDict} \<union> range TorchLoad"

text \<open>
  The number of batches of one iteration over a loader, \<^verbatim>\<open>len(loader)\<close>, and the calls
  of an epoch that completes: the training pass with its four calls for each batch,
  the validation pass with one forward pass for each batch, then \<^verbatim>\<open>torch.save\<close> to
  the checkpoint file of the epoch.
\<close>

definition num_batches :: "'d data_loader \<Rightarrow> nat" where
  "num_batches ld =
     length (chunks (nat (dl_batch_size ld)) (dl_drop_last ld) (ds_samples (dl_dataset ld)))"

definition epoch_calls :: "('d, 'g) locals \<Rightarrow> int \<Rightarrow> call list" where
  "epoch_calls l e =
     NetTrain
       # concat (replicate (num_batches (lc_train_loader l))
                   [ZeroGrad, Forward True, Backward, OptimizerStep])
       @ NetEval
       # replicate (num_batches (lc_val_loader l)) (Forward False)
       @ [TorchSave (checkpoint_path (out (lc_args l)) (e + 1) (lc_num_epochs l))]"

section \<open>A small concrete run\<close>

text \<open>
  A configuration, collaborators and a world on which the definitions above can be
  evaluated: two classes, one channel of three bands, batches of two samples, a
  training set of three tiles and a validation set of two; two more configuration
  files name a model and a loss that are not installed. The network's state, the
  optimizer's state and the gradients are counters; the network maps images of size
  \<open>[N, C, H, W]\<close> to outputs of size \<open>[N, 2, H, W]\<close>.
\<close>

definition demo_config :: config where
  "demo_config =
     \<lparr>model_name = ''albunet'', model_encoder = ''resnet50'', model_pretrained = True,
      model_loss = ''lovasz'', model_lr = Finite (1 / 1000), model_decay = Finite 0, model_epochs = 2,
      model_batch_size = 2, model_tile_size = 4, model_data_augmentation = True,
      dataset_path = ''/data'', classes_titles = [''background'', ''building''],
      channels = [\<lparr>sub = ''images'', bands = [1, 2, 3]\<rparr>]\<rparr>"

definition demo_sample :: "nat \<Rightarrow> nat sample" where
  "demo_sample k = (Tensor [3, 4, 4] k, Tensor [4, 4] (k + 100), (k, k, 18))"

definition demo_forward :: "bool \<Rightarrow> bool \<Rightarrow> nat \<Rightarrow> nat tensor \<Rightarrow> nat tensor \<times> nat" where
  "demo_forward mode rec_grad sd t =
     (Tensor (case tsize t of [] \<Rightarrow> [] | n # sz \<Rightarrow> n # 2 # drop 1 sz) (tdata t + sd),
      if mode then sd + 1 else sd)"

definition demo_criterion :: "(nat, nat) criterion" where
  "demo_criterion outputs masks = (1 / 2, 1)"

definition demo_env :: "(nat, nat, nat, nat, nat) env" where
  "demo_env =
     \<lparr>stack_data = sum_list, row_data = (\<lambda>d i. d + i),
      rng_draws = (\<lambda>n. [n, n + 1, n + 2]), rng_next = Suc,
      forward = demo_forward,
      grads_none = 0, zero_grad = (\<lambda>g. 0), accumulate_grad = (\<lambda>g h. g + h),
      optimizer_step = (\<lambda>opt sd g. (opt + 1, sd + g)),
      metrics_new = 0, metrics_add = (\<lambda>m a b. m + 1),
      get_miou = (\<lambda>m. 1), get_fg_iou = (\<lambda>m. 1), get_mcc = (\<lambda>m. 1),
      load_config = (\<lambda>p. if p = ''config.toml'' then Inr demo_config
                          else if p = ''other-model.toml''
                            then Inr (demo_config\<lparr>model_name := ''unet''\<rparr>)
                          else if p = ''other-loss.toml''
                            then Inr (demo_config\<lparr>model_loss := ''dice''\<rparr>)
                          else Inl (ExternalError ''no such configuration'')),
      cuda_is_available = False, cuda_device_count = 0,
      model_modules = [''albunet'', ''fpn''], loss_modules = [''lovasz''],
      model_new = (\<lambda>m c nc nch enc pre. Inr 0),
      loss_new = (\<lambda>m c. Inr demo_criterion),
      adam = (\<lambda>sd rate decay. Inr 0),
      state_dict_fits = (\<lambda>cur new. True), optimizer_state_fits = (\<lambda>cur new. True),
      tiles_dataset = (\<lambda>root chs target tf.
         if root = ''/data/training'' then Inr [demo_sample 0, demo_sample 1, demo_sample 2]
         else Inr [demo_sample 3, demo_sample 4]),
      str_float = (\<lambda>x. ''x''), format_float = (\<lambda>n x. ''x'')\<rparr>"

definition demo_args :: args where
  "demo_args =
     \<lparr>config = ''config.toml'', checkpoint = None, resume = False, workers = 0,
      dataset = None, epochs = None, lr = None, out = ''out''\<rparr>"

definition demo_world :: "(nat, nat) world" where
  "demo_world = \<lparr>files = Map.empty, log_lines = [], calls = [], rng = 0\<rparr>"

definition demo_command_line :: "string \<Rightarrow> cli_item list" where
  "demo_command_line v = [Valued FConfig ''config.toml'', Valued FDataset v, Positional ''out'']"

definition demo_dataset :: "string \<Rightarrow> nat sample list \<Rightarrow> nat dataset" where
  "demo_dataset part samples =
     \<lparr>ds_root = path_join ''/data'' part, ds_channels = channels demo_config,
      ds_target = path_join3 ''/data'' part ''labels'',
      ds_joint_transform = joint_transform demo_config, ds_samples = samples\<rparr>"

definition demo_train_loader :: "nat data_loader" where
  "demo_train_loader =
     \<lparr>dl_dataset = demo_dataset ''training'' [demo_sample 0, demo_sample 1, demo_sample 2],
      dl_batch_size = 2, dl_shuffle = True, dl_drop_last = True, dl_num_workers = 0\<rparr>"

definition demo_val_loader :: "nat data_loader" where
  "demo_val_loader =
     \<lparr>dl_dataset = demo_dataset ''validation'' [demo_sample 3, demo_sample 4],
      dl_batch_size = 2, dl_shuffle = False, dl_drop_last = True, dl_num_workers = 0\<rparr>"

definition demo_session :: "(nat, nat, nat) session" where
  "demo_session =
     \<lparr>files = Map.empty, log_lines = [], calls = [], rng = 0,
      state_dict = 0, training = True, grads = 0, opt_state = 0\<rparr>"

definition demo_locals :: "(nat, nat) locals" where
  "demo_locals =
     \<lparr>lc_config = demo_config, lc_args = demo_args, lc_lr = Finite (1 / 1000),
      lc_dataset_path = PathStr ''/data'', lc_num_epochs = 2, lc_num_classes = 2,
      lc_device = Cpu, lc_criterion = demo_criterion,
      lc_train_loader = demo_train_loader, lc_val_loader = demo_val_loader\<rparr>"

text \<open>
  A validation loader with a single tile, a loader whose masks do not have the size
  of the images, and a run that is given a checkpoint saved after two epochs.
\<close>

definition demo_small_loader :: "nat data_loader" where
  "demo_small_loader =
     \<lparr>dl_dataset = demo_dataset ''validation'' [demo_sample 3],
      dl_batch_size = 2, dl_shuffle = False, dl_drop_last = True, dl_num_workers = 0\<rparr>"

definition demo_bad_sample :: "nat \<Rightarrow> nat sample" where
  "demo_bad_sample k = (Tensor [3, 4, 4] k, Tensor [2, 2] (k + 100), (k, k, 18))"

definition demo_bad_loader :: "nat data_loader" where
  "demo_bad_loader =
     \<lparr>dl_dataset = demo_dataset ''validation'' [demo_bad_sample 0, demo_bad_sample 1],
      dl_batch_size = 2, dl_shuffle = False, dl_drop_last = True, dl_num_workers = 0\<rparr>"

definition demo_resume_args :: args where
  "demo_resume_args = demo_args\<lparr>checkpoint := Some ''ck.pth'', resume := True\<rparr>"

definition demo_retrain_args :: args where
  "demo_retrain_args = demo_args\<lparr>checkpoint := Some ''ck.pth''\<rparr>"

definition demo_resume_world :: "(nat, nat) world" where
  "demo_resume_world =
     \<lparr>files = [''ck.pth'' \<mapsto> \<lparr>ck_epoch = 2, ck_state_dict = 5, ck_optimizer = 3\<rparr>],
      log_lines = [], calls = [], rng = 0\<rparr>"

section \<open>The loaders of the concrete run\<close>

lemma demo_loaders:
  "get_dataset_loaders demo_env (PathStr ''/data'') demo_config 0
     = Inr (demo_train_loader, demo_val_loader)"
  by (simp add: get_dataset_loaders_def demo_env_def demo_config_def DataLoader_def
      demo_train_loader_def demo_val_loader_def demo_dataset_def path_join_def path_join3_def
      joint_transform_def Let_def)

section \<open>The transform pipeline\<close>

text \<open>
  Claim C7. The pipeline that \<^verbatim>\<open>get_dataset_loaders\<close> builds is the list of the four
  stages resize, flip-or-rotate (with the augmentation flag), tensor conversion of
  image and mask, normalization of the image only with the constants of line 242; run
  on a pair, the stages apply in this order and the mask is not touched by the last
  one; both datasets carry this pipeline.
\<close>

theorem joint_transform_order:
  "joint_transform cfg =
     [JointResize (model_tile_size cfg),
      JointRandomFlipOrRotate (model_data_augmentation cfg),
      JointTransform (Some ImageToTensor) (Some MaskToTensor),
      JointTransform (Some (Normalize [0.485, 0.456, 0.406] [0.229, 0.224, 0.225])) None]
   \<and> joint_compose ops g (joint_transform cfg) (img, msk) =
       (normalize ops [0.485, 0.456, 0.406] [0.229, 0.224, 0.225]
          (image_to_tensor ops
             (if model_data_augmentation cfg
              then geom_image ops g (resize_image ops (model_tile_size cfg) img)
              else resize_image ops (model_tile_size cfg) img)),
        mask_to_tensor ops
          (if model_data_augmentation cfg
           then geom_mask ops g (resize_mask ops (model_tile_size cfg) msk)
           else resize_mask ops (model_tile_size cfg) msk))
   \<and> (\<forall>tl vl. get_dataset_loaders env path cfg nw = Inr (tl, vl) \<longrightarrow>
          ds_joint_transform (dl_dataset tl) = joint_transform cfg
        \<and> ds_joint_transform (dl_dataset vl) = joint_transform cfg)"
proof (intro conjI allI impI)
  show "joint_transform cfg =
     [JointResize (model_tile_size cfg),
      JointRandomFlipOrRotate (model_data_augmentation cfg),
      JointTransform (Some ImageToTensor) (Some MaskToTensor),
      JointTransform (Some (Normalize [0.485, 0.456, 0.406] [0.229, 0.224, 0.225])) None]"
    by (simp add: joint_transform_def)
next
  show "joint_compose ops g (joint_transform cfg) (img, msk) =
       (normalize ops [0.485, 0.456, 0.406] [0.229, 0.224, 0.225]
          (image_to_tensor ops
             (if model_data_augmentation cfg
              then geom_image ops g (resize_image ops (model_tile_size cfg) img)
              else resize_image ops (model_tile_size cfg) img)),
        mask_to_tensor ops
          (if model_data_augmentation cfg
           then geom_mask ops g (resize_mask ops (model_tile_size cfg) msk)
           else resize_mask ops (model_tile_size cfg) msk))"
    by (simp add: joint_transform_def apply_image_op_def apply_mask_op_def)
next
  fix tl vl
  assume h: "get_dataset_loaders env path cfg nw = Inr (tl, vl)"
  then show "ds_joint_transform (dl_dataset tl) = joint_transform cfg"
    by (auto simp: get_dataset_loaders_def DataLoader_def Let_def
             split: path_val.splits sum.splits if_splits)
  from h show "ds_joint_transform (dl_dataset vl) = joint_transform cfg"
    by (auto simp: get_dataset_loaders_def DataLoader_def Let_def
             split: path_val.splits sum.splits if_splits)
qed

theorem joint_transform_order_witness:
  "get_dataset_loaders demo_env (PathStr ''/data'') demo_config 0
     = Inr (demo_train_loader, demo_val_loader)
   \<and> ds_joint_transform (dl_dataset demo_train_loader) = joint_transform demo_config
   \<and> ds_joint_transform (dl_dataset demo_val_loader) = joint_transform demo_config"
proof -
  note order = joint_transform_order [where cfg = demo_config and env = demo_env
      and path = "PathStr ''/data''" and nw = 0]
  from order [THEN conjunct2, THEN conjunct2, rule_format, OF demo_loaders] demo_loaders
  show ?thesis by simp
qed

section \<open>The command line\<close>

text \<open>
  Claim C8, evaluated on the code. A dataset path given to \<^verbatim>\<open>--dataset\<close> is refused
  by the parser, because line 41 converts the value with \<^verbatim>\<open>int\<close>; and an integer
  that the parser accepts stops \<^verbatim>\<open>main\<close> with \<^verbatim>\<open>TypeError\<close> when the loaders are
  built, so no value of the flag ever becomes the dataset root.
\<close>

theorem dataset_flag_refuses_paths:
  "parse_args pf (demo_command_line ''/data/tiles'') =
     Inl (ArgumentError (''argument --dataset: invalid int value: ''
            @ [CHR 0x27] @ ''/data/tiles'' @ [CHR 0x27]))
   \<and> parse_args pf (demo_command_line ''7'') = Inr (demo_args\<lparr>dataset := Some 7\<rparr>)
   \<and> fst (main demo_env (demo_args\<lparr>dataset := Some 7\<rparr>) demo_world) = Some TypeError"
proof (intro conjI)
  show "parse_args pf (demo_command_line ''/data/tiles'') =
     Inl (ArgumentError (''argument --dataset: invalid int value: ''
            @ [CHR 0x27] @ ''/data/tiles'' @ [CHR 0x27]))"
    by (simp add: parse_args_def demo_command_line_def read_item_def empty_namespace_def
        invalid_value_def py_int_def strip_def is_space_def py_repr_def repr_char_def
        digit_val_def Let_def)
next
  show "parse_args pf (demo_command_line ''7'') = Inr (demo_args\<lparr>dataset := Some 7\<rparr>)"
    by (simp add: parse_args_def demo_command_line_def read_item_def empty_namespace_def
        py_int_def strip_def is_space_def digit_val_def demo_args_def)
next
  show "fst (main demo_env (demo_args\<lparr>dataset := Some 7\<rparr>) demo_world) = Some TypeError"
    by (simp add: main_def prepare_def demo_env_def demo_args_def demo_world_def demo_config_def
        load_checkpoint_def get_dataset_loaders_def dataset_path_of_def new_session_def Adam_def
        float_nonneg_def lr_of_def Let_def)
qed

section \<open>The passes\<close>

subsection \<open>Which exceptions a pass can raise\<close>

lemma rows_error: "rows env t = Inl e \<Longrightarrow> e = TypeError"
  by (auto simp: rows_def split: list.splits)

lemma zip_rows_error: "zip_rows env a b = Inl e \<Longrightarrow> e = TypeError"
  by (auto simp: zip_rows_def split: sum.splits dest: rows_error)

lemma stack_error: "stack env ts = Inl e \<Longrightarrow> e = RuntimeError"
  by (auto simp: stack_def split: list.splits if_splits)

lemma collate_error: "collate env xs = Inl e \<Longrightarrow> e = RuntimeError"
  by (auto simp: collate_def split: sum.splits dest: stack_error)

lemma loader_iter_error:
  assumes "loader_iter env loader s = (items, s2)" and "Inl e \<in> set items"
  shows "e = RuntimeError"
  using assms
  by (auto simp: loader_iter_def Let_def split: if_splits dest: collate_error[OF sym])

lemma train_batch_error:
  "train_batch env nc crit b acc s = (Some e, acc', s') \<Longrightarrow> e \<in> batch_errors"
  by (auto simp: train_batch_def batch_errors_def Let_def
           split: prod.splits if_splits list.splits sum.splits dest: zip_rows_error)

lemma validate_batch_error:
  "validate_batch env nc crit b acc s = (Some e, acc', s') \<Longrightarrow> e \<in> batch_errors"
  by (auto simp: validate_batch_def batch_errors_def Let_def
           split: prod.splits if_splits list.splits sum.splits dest: zip_rows_error)

lemma train_loop_error:
  "train_loop env nc crit items acc s = (Some e, acc', s') \<Longrightarrow> e \<in> batch_errors \<or> Inl e \<in> set items"
proof (induction items arbitrary: acc s)
  case Nil
  then show ?case by simp
next
  case (Cons item rest)
  show ?case
  proof (cases item)
    case (Inl x)
    with Cons.prems show ?thesis by simp
  next
    case (Inr b)
    obtain r acc1 s1 where tb: "train_batch env nc crit b acc s = (r, acc1, s1)"
      by (metis prod_cases3)
    show ?thesis
    proof (cases r)
      case None
      with Cons.prems Inr tb have "train_loop env nc crit rest acc1 s1 = (Some e, acc', s')"
        by simp
      from Cons.IH[OF this] show ?thesis by auto
    next
      case (Some x)
      with Cons.prems Inr tb have "x = e" by simp
      with Some tb show ?thesis by (auto dest: train_batch_error)
    qed
  qed
qed

lemma validate_loop_error:
  "validate_loop env nc crit items acc s = (Some e, acc', s') \<Longrightarrow> e \<in> batch_errors \<or> Inl e \<in> set items"
proof (induction items arbitrary: acc s)
  case Nil
  then show ?case by simp
next
  case (Cons item rest)
  show ?case
  proof (cases item)
    case (Inl x)
    with Cons.prems show ?thesis by simp
  next
    case (Inr b)
    obtain r acc1 s1 where vb: "validate_batch env nc crit b acc s = (r, acc1, s1)"
      by (metis prod_cases3)
    show ?thesis
    proof (cases r)
      case None
      with Cons.prems Inr vb have "validate_loop env nc crit rest acc1 s1 = (Some e, acc', s')"
        by simp
      from Cons.IH[OF this] show ?thesis by auto
    next
      case (Some x)
      with Cons.prems Inr vb have "x = e" by simp
      with Some vb show ?thesis by (auto dest: validate_batch_error)
    qed
  qed
qed

subsection \<open>The counter of samples\<close>

lemma train_batch_count:
  "train_batch env nc crit b acc s = (None, acc', s') \<Longrightarrow> fst acc' = fst acc + samples_in (Inr b)"
  by (auto simp: train_batch_def samples_in_def Let_def
           split: prod.splits if_splits list.splits sum.splits)

lemma validate_batch_count:
  "validate_batch env nc crit b acc s = (None, acc', s') \<Longrightarrow> fst acc' = fst acc + samples_in (Inr b)"
  by (auto simp: validate_batch_def samples_in_def Let_def
           split: prod.splits if_splits list.splits sum.splits)

lemma train_loop_count:
  "train_loop env nc crit items acc s = (None, acc', s')
     \<Longrightarrow> fst acc' = fst acc + sum_list (map samples_in items)"
proof (induction items arbitrary: acc s)
  case Nil
  then show ?case by simp
next
  case (Cons item rest)
  from Cons.prems obtain b where item: "item = Inr b"
    by (cases item) auto
  obtain r acc1 s1 where tb: "train_batch env nc crit b acc s = (r, acc1, s1)"
    by (metis prod_cases3)
  from Cons.prems item tb have r: "r = None"
    by (cases r) auto
  with Cons.prems item tb have "train_loop env nc crit rest acc1 s1 = (None, acc', s')"
    by simp
  from Cons.IH[OF this] train_batch_count[OF tb[unfolded r]] item
  show ?case by simp
qed

lemma validate_loop_count:
  "validate_loop env nc crit items acc s = (None, acc', s')
     \<Longrightarrow> fst acc' = fst acc + sum_list (map samples_in items)"
proof (induction items arbitrary: acc s)
  case Nil
  then show ?case by simp
next
  case (Cons item rest)
  from Cons.prems obtain b where item: "item = Inr b"
    by (cases item) auto
  obtain r acc1 s1 where vb: "validate_batch env nc crit b acc s = (r, acc1, s1)"
    by (metis prod_cases3)
  from Cons.prems item vb have r: "r = None"
    by (cases r) auto
  with Cons.prems item vb have "validate_loop env nc crit rest acc1 s1 = (None, acc', s')"
    by simp
  from Cons.IH[OF this] validate_batch_count[OF vb[unfolded r]] item
  show ?case by simp
qed

lemma empty_message_not_batch_error:
  "AssertionError ''dataset contains training images and labels'' \<notin> batch_errors"
  "AssertionError ''dataset contains validation images and labels'' \<notin> batch_errors"
  by (simp_all add: batch_errors_def)

lemma train_result:
  assumes it: "loader_iter env ld (s\<lparr>training := True, calls := calls s @ [NetTrain]\<rparr>) = (items, s2)"
    and lp: "train_loop env nc crit items (0, 0, metrics_new env) s2 = (err, (n, rl, m), s3)"
  shows "train env ld nc dev crit s =
     (case err of
        Some e \<Rightarrow> (Inl e, s3)
      | None \<Rightarrow>
          if n > 0
          then (Inr \<lparr>loss = rl / real n, miou = get_miou env m,
                     fg_iou = get_fg_iou env m, mcc = get_mcc env m\<rparr>, s3)
          else (Inl (AssertionError ''dataset contains training images and labels''), s3))"
  using it lp by (simp add: train_def Let_def split: option.splits)

lemma validate_result:
  assumes it: "loader_iter env ld (s\<lparr>training := False, calls := calls s @ [NetEval]\<rparr>) = (items, s2)"
    and lp: "validate_loop env nc crit items (0, 0, metrics_new env) s2 = (err, (n, rl, m), s3)"
  shows "validate env ld nc dev crit s =
     (case err of
        Some e \<Rightarrow> (Inl e, s3)
      | None \<Rightarrow>
          if n > 0
          then (Inr \<lparr>loss = rl / real n, miou = get_miou env m,
                     fg_iou = get_fg_iou env m, mcc = get_mcc env m\<rparr>, s3)
          else (Inl (AssertionError ''dataset contains validation images and labels''), s3))"
  using it lp by (simp add: validate_def Let_def split: option.splits)

lemma train_empty_iff:
  assumes it: "loader_iter env ld (s\<lparr>training := True, calls := calls s @ [NetTrain]\<rparr>) = (items, s2)"
    and lp: "train_loop env nc crit items (0, 0, metrics_new env) s2 = (err, (n, rl, m), s3)"
  shows "(fst (train env ld nc dev crit s)
            = Inl (AssertionError ''dataset contains training images and labels''))
         = (err = None \<and> sum_list (map samples_in items) = 0)"
proof (cases err)
  case None
  from train_loop_count[OF lp[unfolded None]] have "n = sum_list (map samples_in items)"
    by simp
  with None show ?thesis
    by (simp add: train_result[OF it lp] del: sum_list_eq_0_iff)
next
  case (Some e)
  from train_loop_error[OF lp[unfolded Some]] loader_iter_error[OF it]
  have "e \<in> batch_errors \<or> e = RuntimeError" by blast
  then have "e \<noteq> AssertionError ''dataset contains training images and labels''"
    using empty_message_not_batch_error by auto
  with Some show ?thesis
    by (simp add: train_result[OF it lp])
qed

lemma validate_empty_iff:
  assumes it: "loader_iter env ld (s\<lparr>training := False, calls := calls s @ [NetEval]\<rparr>) = (items, s2)"
    and lp: "validate_loop env nc crit items (0, 0, metrics_new env) s2 = (err, (n, rl, m), s3)"
  shows "(fst (validate env ld nc dev crit s)
            = Inl (AssertionError ''dataset contains validation images and labels''))
         = (err = None \<and> sum_list (map samples_in items) = 0)"
proof (cases err)
  case None
  from validate_loop_count[OF lp[unfolded None]] have "n = sum_list (map samples_in items)"
    by simp
  with None show ?thesis
    by (simp add: validate_result[OF it lp] del: sum_list_eq_0_iff)
next
  case (Some e)
  from validate_loop_error[OF lp[unfolded Some]] loader_iter_error[OF it]
  have "e \<in> batch_errors \<or> e = RuntimeError" by blast
  then have "e \<noteq> AssertionError ''dataset contains validation images and labels''"
    using empty_message_not_batch_error by auto
  with Some show ?thesis
    by (simp add: validate_result[OF it lp])
qed

subsection \<open>The concrete loaders\<close>

lemma demo_train_items:
  "rng s = 0 \<Longrightarrow>
   loader_iter demo_env demo_train_loader s =
     ([Inr (Tensor [2, 3, 4, 4] 2, Tensor [2, 4, 4] 202, [(0, 0, 18), (2, 2, 18)])],
      s\<lparr>rng := 1\<rparr>)"
  by (simp add: loader_iter_def demo_train_loader_def demo_env_def demo_dataset_def
      chunks.simps shuffle_with.simps collate_def stack_def demo_sample_def Let_def)

lemma demo_val_items:
  "loader_iter demo_env demo_val_loader s =
     ([Inr (Tensor [2, 3, 4, 4] 7, Tensor [2, 4, 4] 207, [(3, 3, 18), (4, 4, 18)])], s)"
  by (simp add: loader_iter_def demo_val_loader_def demo_env_def demo_dataset_def
      chunks.simps collate_def stack_def demo_sample_def Let_def)

lemma demo_small_items: "loader_iter demo_env demo_small_loader s = ([], s)"
  by (simp add: loader_iter_def demo_small_loader_def demo_env_def demo_dataset_def
      chunks.simps Let_def)

lemma demo_metrics_new: "metrics_new demo_env = 0"
  by (simp add: demo_env_def)

lemma demo_train_batch:
  "train_batch demo_env 2 demo_criterion
     (Tensor [2, 3, 4, 4] 2, Tensor [2, 4, 4] 202, [(0, 0, 18), (2, 2, 18)]) (0, 0, 0) s
   = (None, (2, 1 / 2, 2),
      s\<lparr>calls := calls s @ [ZeroGrad, Forward True, Backward, OptimizerStep],
        state_dict := (if training s then state_dict s + 1 else state_dict s) + 1,
        grads := 1, opt_state := opt_state s + 1\<rparr>)"
  by (simp add: train_batch_def demo_env_def demo_forward_def demo_criterion_def
      zip_rows_def rows_def Let_def upt_conv_Cons)

subsection \<open>The empty dataset\<close>

text \<open>
  Claim C3. A training pass and a validation pass end with the failed assertion on
  the number of samples exactly when the loop went over the whole loader and counted
  no sample; when the loop went over the whole loader and counted at least one
  sample, the pass returns the record of its statistics.
\<close>

theorem empty_dataset_iff:
  assumes "loader_iter env tld (s\<lparr>training := True, calls := calls s @ [NetTrain]\<rparr>) = (titems, ts2)"
    and "train_loop env nc crit titems (0, 0, metrics_new env) ts2 = (terr, (tn, trl, tm), ts3)"
    and "loader_iter env vld (u\<lparr>training := False, calls := calls u @ [NetEval]\<rparr>) = (vitems, vs2)"
    and "validate_loop env nc crit vitems (0, 0, metrics_new env) vs2 = (verr, (vn, vrl, vm), vs3)"
  shows
    "((fst (train env tld nc dev crit s)
         = Inl (AssertionError ''dataset contains training images and labels''))
       = (terr = None \<and> sum_list (map samples_in titems) = 0))
     \<and> (terr = None \<and> 0 < sum_list (map samples_in titems) \<longrightarrow>
          fst (train env tld nc dev crit s)
            = Inr \<lparr>loss = trl / real (sum_list (map samples_in titems)), miou = get_miou env tm,
                   fg_iou = get_fg_iou env tm, mcc = get_mcc env tm\<rparr>)
     \<and> ((fst (validate env vld nc dev crit u)
         = Inl (AssertionError ''dataset contains validation images and labels''))
       = (verr = None \<and> sum_list (map samples_in vitems) = 0))
     \<and> (verr = None \<and> 0 < sum_list (map samples_in vitems) \<longrightarrow>
          fst (validate env vld nc dev crit u)
            = Inr \<lparr>loss = vrl / real (sum_list (map samples_in vitems)), miou = get_miou env vm,
                   fg_iou = get_fg_iou env vm, mcc = get_mcc env vm\<rparr>)"
proof (intro conjI impI)
  show "(fst (train env tld nc dev crit s)
         = Inl (AssertionError ''dataset contains training images and labels''))
       = (terr = None \<and> sum_list (map samples_in titems) = 0)"
    by (rule train_empty_iff[OF assms(1) assms(2)])
next
  assume h: "terr = None \<and> 0 < sum_list (map samples_in titems)"
  with assms(2) have "train_loop env nc crit titems (0, 0, metrics_new env) ts2 = (None, (tn, trl, tm), ts3)"
    by simp
  from train_loop_count[OF this] have "tn = sum_list (map samples_in titems)"
    by simp
  with h show "fst (train env tld nc dev crit s)
            = Inr \<lparr>loss = trl / real (sum_list (map samples_in titems)), miou = get_miou env tm,
                   fg_iou = get_fg_iou env tm, mcc = get_mcc env tm\<rparr>"
    by (simp add: train_result[OF assms(1) assms(2)])
next
  show "(fst (validate env vld nc dev crit u)
         = Inl (AssertionError ''dataset contains validation images and labels''))
       = (verr = None \<and> sum_list (map samples_in vitems) = 0)"
    by (rule validate_empty_iff[OF assms(3) assms(4)])
next
  assume h: "verr = None \<and> 0 < sum_list (map samples_in vitems)"
  with assms(4) have "validate_loop env nc crit vitems (0, 0, metrics_new env) vs2 = (None, (vn, vrl, vm), vs3)"
    by simp
  from validate_loop_count[OF this] have "vn = sum_list (map samples_in vitems)"
    by simp
  with h show "fst (validate env vld nc dev crit u)
            = Inr \<lparr>loss = vrl / real (sum_list (map samples_in vitems)), miou = get_miou env vm,
                   fg_iou = get_fg_iou env vm, mcc = get_mcc env vm\<rparr>"
    by (simp add: validate_result[OF assms(3) assms(4)])
qed

theorem empty_dataset_iff_witness:
  "fst (train demo_env demo_train_loader 2 Cpu demo_criterion demo_session)
     = Inr \<lparr>loss = 1 / 4, miou = 1, fg_iou = 1, mcc = 1\<rparr>
   \<and> fst (validate demo_env demo_small_loader 2 Cpu demo_criterion demo_session)
     = Inl (AssertionError ''dataset contains validation images and labels'')"
proof -
  let ?s1 = "demo_session\<lparr>training := True, calls := calls demo_session @ [NetTrain]\<rparr>"
  let ?u1 = "demo_session\<lparr>training := False, calls := calls demo_session @ [NetEval]\<rparr>"
  let ?b = "(Tensor [2, 3, 4, 4] 2, Tensor [2, 4, 4] 202, [(0, 0, 18), (2, 2, 18)])"
  have h1: "loader_iter demo_env demo_train_loader ?s1 = ([Inr ?b], ?s1\<lparr>rng := 1\<rparr>)"
    by (rule demo_train_items) (simp add: demo_session_def)
  have h2: "train_loop demo_env 2 demo_criterion [Inr ?b] (0, 0, metrics_new demo_env) (?s1\<lparr>rng := 1\<rparr>)
      = (None, (2, 1 / 2, 2), snd (snd (train_batch demo_env 2 demo_criterion ?b (0, 0, 0) (?s1\<lparr>rng := 1\<rparr>))))"
    by (simp add: demo_metrics_new demo_train_batch)
  have h3: "loader_iter demo_env demo_small_loader ?u1 = ([], ?u1)"
    by (rule demo_small_items)
  have h4: "validate_loop demo_env 2 demo_criterion [] (0, 0, metrics_new demo_env) ?u1
      = (None, (0, 0, metrics_new demo_env), ?u1)"
    by simp
  from empty_dataset_iff [OF h1 h2 h3 h4, where dev = Cpu]
  show ?thesis
    by (simp add: samples_in_def demo_env_def demo_metrics_new)
qed

subsection \<open>Shape mismatches\<close>

lemma train_loop_append:
  "train_loop env nc crit pre acc0 s0 = (None, acc, s)
     \<Longrightarrow> train_loop env nc crit (pre @ items) acc0 s0 = train_loop env nc crit items acc s"
proof (induction pre arbitrary: acc0 s0)
  case Nil
  then show ?case by simp
next
  case (Cons item rest)
  from Cons.prems obtain b where item: "item = Inr b"
    by (cases item) auto
  obtain r acc1 s1 where tb: "train_batch env nc crit b acc0 s0 = (r, acc1, s1)"
    by (metis prod_cases3)
  from Cons.prems item tb have r: "r = None"
    by (cases r) auto
  with Cons.prems item tb have "train_loop env nc crit rest acc1 s1 = (None, acc, s)"
    by simp
  from Cons.IH[OF this] item tb r show ?case by simp
qed

lemma validate_loop_append:
  "validate_loop env nc crit pre acc0 s0 = (None, acc, s)
     \<Longrightarrow> validate_loop env nc crit (pre @ items) acc0 s0 = validate_loop env nc crit items acc s"
proof (induction pre arbitrary: acc0 s0)
  case Nil
  then show ?case by simp
next
  case (Cons item rest)
  from Cons.prems obtain b where item: "item = Inr b"
    by (cases item) auto
  obtain r acc1 s1 where vb: "validate_batch env nc crit b acc0 s0 = (r, acc1, s1)"
    by (metis prod_cases3)
  from Cons.prems item vb have r: "r = None"
    by (cases r) auto
  with Cons.prems item vb have "validate_loop env nc crit rest acc1 s1 = (None, acc, s)"
    by simp
  from Cons.IH[OF this] item vb r show ?case by simp
qed

text \<open>A mismatched batch makes the body of the loop raise, with the metrics as they were.\<close>

lemma train_batch_mismatch:
  assumes out: "outputs = fst (forward env (training s) True (state_dict s) images)"
    and mis: "drop 2 (tsize images) \<noteq> drop 1 (tsize masks)
        \<or> drop 2 (tsize outputs) \<noteq> drop 1 (tsize masks)
        \<or> length (tsize outputs) < 2 \<or> tsize outputs ! 1 \<noteq> nc"
  shows "\<exists>e acc' s'. train_batch env nc crit (images, masks, tiles) acc s = (Some e, acc', s')
      \<and> snd (snd acc') = snd (snd acc)
      \<and> (tsize images \<noteq> [] \<and> 2 \<le> length (tsize outputs) \<longrightarrow> e \<in> shape_assertions)"
  using mis unfolding out
  by (cases acc; cases "forward env (training s) True (state_dict s) images")
     (auto simp: train_batch_def shape_assertions_def Let_def split: list.splits)

lemma validate_batch_mismatch:
  assumes out: "outputs = fst (forward env (training s) False (state_dict s) images)"
    and mis: "drop 2 (tsize images) \<noteq> drop 1 (tsize masks)
        \<or> drop 2 (tsize outputs) \<noteq> drop 1 (tsize masks)
        \<or> length (tsize outputs) < 2 \<or> tsize outputs ! 1 \<noteq> nc"
  shows "\<exists>e acc' s'. validate_batch env nc crit (images, masks, tiles) acc s = (Some e, acc', s')
      \<and> snd (snd acc') = snd (snd acc)
      \<and> (tsize images \<noteq> [] \<and> 2 \<le> length (tsize outputs) \<longrightarrow> e \<in> shape_assertions)"
  using mis unfolding out
  by (cases acc; cases "forward env (training s) False (state_dict s) images")
     (auto simp: validate_batch_def shape_assertions_def Let_def split: list.splits)

lemma train_mismatch:
  assumes it: "loader_iter env ld (s0\<lparr>training := True, calls := calls s0 @ [NetTrain]\<rparr>)
        = (pre @ Inr (images, masks, tiles) # post, s2)"
    and pre: "train_loop env nc crit pre (0, 0, metrics_new env) s2 = (None, acc, s)"
    and out: "outputs = fst (forward env (training s) True (state_dict s) images)"
    and mis: "drop 2 (tsize images) \<noteq> drop 1 (tsize masks)
        \<or> drop 2 (tsize outputs) \<noteq> drop 1 (tsize masks)
        \<or> length (tsize outputs) < 2 \<or> tsize outputs ! 1 \<noteq> nc"
  shows "\<exists>e acc' s'.
        train_loop env nc crit (pre @ Inr (images, masks, tiles) # post) (0, 0, metrics_new env) s2
          = (Some e, acc', s')
      \<and> snd (snd acc') = snd (snd acc)
      \<and> train env ld nc dev crit s0 = (Inl e, s')
      \<and> (tsize images \<noteq> [] \<and> 2 \<le> length (tsize outputs) \<longrightarrow> e \<in> shape_assertions)"
proof -
  from train_batch_mismatch[OF out mis, of crit tiles acc]
  obtain e acc' s' where
    tb: "train_batch env nc crit (images, masks, tiles) acc s = (Some e, acc', s')"
    and m: "snd (snd acc') = snd (snd acc)"
    and a: "tsize images \<noteq> [] \<and> 2 \<le> length (tsize outputs) \<longrightarrow> e \<in> shape_assertions"
    by blast
  have lp: "train_loop env nc crit (pre @ Inr (images, masks, tiles) # post) (0, 0, metrics_new env) s2
      = (Some e, acc', s')"
    by (simp add: train_loop_append[OF pre] tb)
  obtain n rl mt where acc': "acc' = (n, rl, mt)"
    by (cases acc') auto
  from train_result[OF it lp[unfolded acc']]
  have "train env ld nc dev crit s0 = (Inl e, s')" by simp
  with lp m a show ?thesis by blast
qed

lemma validate_mismatch:
  assumes it: "loader_iter env ld (s0\<lparr>training := False, calls := calls s0 @ [NetEval]\<rparr>)
        = (pre @ Inr (images, masks, tiles) # post, s2)"
    and pre: "validate_loop env nc crit pre (0, 0, metrics_new env) s2 = (None, acc, s)"
    and out: "outputs = fst (forward env (training s) False (state_dict s) images)"
    and mis: "drop 2 (tsize images) \<noteq> drop 1 (tsize masks)
        \<or> drop 2 (tsize outputs) \<noteq> drop 1 (tsize masks)
        \<or> length (tsize outputs) < 2 \<or> tsize outputs ! 1 \<noteq> nc"
  shows "\<exists>e acc' s'.
        validate_loop env nc crit (pre @ Inr (images, masks, tiles) # post) (0, 0, metrics_new env) s2
          = (Some e, acc', s')
      \<and> snd (snd acc') = snd (snd acc)
      \<and> validate env ld nc dev crit s0 = (Inl e, s')
      \<and> (tsize images \<noteq> [] \<and> 2 \<le> length (tsize outputs) \<longrightarrow> e \<in> shape_assertions)"
proof -
  from validate_batch_mismatch[OF out mis, of crit tiles acc]
  obtain e acc' s' where
    vb: "validate_batch env nc crit (images, masks, tiles) acc s = (Some e, acc', s')"
    and m: "snd (snd acc') = snd (snd acc)"
    and a: "tsize images \<noteq> [] \<and> 2 \<le> length (tsize outputs) \<longrightarrow> e \<in> shape_assertions"
    by blast
  have lp: "validate_loop env nc crit (pre @ Inr (images, masks, tiles) # post) (0, 0, metrics_new env) s2
      = (Some e, acc', s')"
    by (simp add: validate_loop_append[OF pre] vb)
  obtain n rl mt where acc': "acc' = (n, rl, mt)"
    by (cases acc') auto
  from validate_result[OF it lp[unfolded acc']]
  have "validate env ld nc dev crit s0 = (Inl e, s')" by simp
  with lp m a show ?thesis by blast
qed

text \<open>
  Claim C2. In a training pass and in a validation pass, let the loop have gone
  through the batches before some batch without an exception. If the sizes of the
  batch's images and masks disagree beyond the leading dimensions, or the sizes of the
  network's output and the masks do, or the output's second dimension is not the
  number of classes, then the loop raises at this batch, the metrics are those
  accumulated before it, and the pass ends with that exception. The exception is one
  of the three shape assertions as soon as the images have a first dimension and the
  output a second one (without them, reading the dimension raises instead).
\<close>

theorem shape_mismatch_fatal:
  assumes "loader_iter env tld (s0\<lparr>training := True, calls := calls s0 @ [NetTrain]\<rparr>)
        = (tpre @ Inr (timages, tmasks, ttiles) # tpost, ts2)"
    and "train_loop env nc crit tpre (0, 0, metrics_new env) ts2 = (None, tacc, ts)"
    and "toutputs = fst (forward env (training ts) True (state_dict ts) timages)"
    and "drop 2 (tsize timages) \<noteq> drop 1 (tsize tmasks)
        \<or> drop 2 (tsize toutputs) \<noteq> drop 1 (tsize tmasks)
        \<or> length (tsize toutputs) < 2 \<or> tsize toutputs ! 1 \<noteq> nc"
    and "loader_iter env vld (u0\<lparr>training := False, calls := calls u0 @ [NetEval]\<rparr>)
        = (vpre @ Inr (vimages, vmasks, vtiles) # vpost, vs2)"
    and "validate_loop env nc crit vpre (0, 0, metrics_new env) vs2 = (None, vacc, vs)"
    and "voutputs = fst (forward env (training vs) False (state_dict vs) vimages)"
    and "drop 2 (tsize vimages) \<noteq> drop 1 (tsize vmasks)
        \<or> drop 2 (tsize voutputs) \<noteq> drop 1 (tsize vmasks)
        \<or> length (tsize voutputs) < 2 \<or> tsize voutputs ! 1 \<noteq> nc"
  shows
    "(\<exists>e acc' s'.
        train_loop env nc crit (tpre @ Inr (timages, tmasks, ttiles) # tpost)
            (0, 0, metrics_new env) ts2 = (Some e, acc', s')
      \<and> snd (snd acc') = snd (snd tacc)
      \<and> train env tld nc dev crit s0 = (Inl e, s')
      \<and> (tsize timages \<noteq> [] \<and> 2 \<le> length (tsize toutputs) \<longrightarrow> e \<in> shape_assertions))
     \<and> (\<exists>e acc' s'.
        validate_loop env nc crit (vpre @ Inr (vimages, vmasks, vtiles) # vpost)
            (0, 0, metrics_new env) vs2 = (Some e, acc', s')
      \<and> snd (snd acc') = snd (snd vacc)
      \<and> validate env vld nc dev crit u0 = (Inl e, s')
      \<and> (tsize vimages \<noteq> [] \<and> 2 \<le> length (tsize voutputs) \<longrightarrow> e \<in> shape_assertions))"
  using train_mismatch[OF assms(1-4)] validate_mismatch[OF assms(5-8)]
  by blast

lemma demo_bad_items:
  "loader_iter demo_env demo_bad_loader s =
     ([Inr (Tensor [2, 3, 4, 4] 1, Tensor [2, 2, 2] 201, [(0, 0, 18), (1, 1, 18)])], s)"
  by (simp add: loader_iter_def demo_bad_loader_def demo_env_def demo_dataset_def
      chunks.simps collate_def stack_def demo_bad_sample_def Let_def)

theorem shape_mismatch_fatal_witness:
  "fst (train demo_env demo_bad_loader 2 Cpu demo_criterion demo_session) \<in> Inl ` shape_assertions
   \<and> fst (validate demo_env demo_bad_loader 2 Cpu demo_criterion demo_session)
       \<in> Inl ` shape_assertions"
proof -
  let ?s1 = "demo_session\<lparr>training := True, calls := calls demo_session @ [NetTrain]\<rparr>"
  let ?u1 = "demo_session\<lparr>training := False, calls := calls demo_session @ [NetEval]\<rparr>"
  let ?img = "Tensor [2, 3, 4, 4] (1::nat)"
  let ?msk = "Tensor [2, 2, 2] (201::nat)"
  let ?tiles = "[(0, 0, 18), (1, 1, 18)] :: tile list"
  have h1: "loader_iter demo_env demo_bad_loader ?s1 = ([] @ Inr (?img, ?msk, ?tiles) # [], ?s1)"
    by (simp add: demo_bad_items)
  have h2: "train_loop demo_env 2 demo_criterion [] (0, 0, metrics_new demo_env) ?s1
      = (None, (0, 0, metrics_new demo_env), ?s1)"
    by simp
  have h4: "drop 2 (tsize ?img) \<noteq> drop 1 (tsize ?msk)
      \<or> drop 2 (tsize (fst (forward demo_env (training ?s1) True (state_dict ?s1) ?img)))
           \<noteq> drop 1 (tsize ?msk)
      \<or> length (tsize (fst (forward demo_env (training ?s1) True (state_dict ?s1) ?img))) < 2
      \<or> tsize (fst (forward demo_env (training ?s1) True (state_dict ?s1) ?img)) ! 1 \<noteq> 2"
    by simp
  have h5: "loader_iter demo_env demo_bad_loader ?u1 = ([] @ Inr (?img, ?msk, ?tiles) # [], ?u1)"
    by (simp add: demo_bad_items)
  have h6: "validate_loop demo_env 2 demo_criterion [] (0, 0, metrics_new demo_env) ?u1
      = (None, (0, 0, metrics_new demo_env), ?u1)"
    by simp
  have h8: "drop 2 (tsize ?img) \<noteq> drop 1 (tsize ?msk)
      \<or> drop 2 (tsize (fst (forward demo_env (training ?u1) False (state_dict ?u1) ?img)))
           \<noteq> drop 1 (tsize ?msk)
      \<or> length (tsize (fst (forward demo_env (training ?u1) False (state_dict ?u1) ?img))) < 2
      \<or> tsize (fst (forward demo_env (training ?u1) False (state_dict ?u1) ?img)) ! 1 \<noteq> 2"
    by simp
  have dims: "tsize ?img \<noteq> []"
    "2 \<le> length (tsize (fst (forward demo_env (training ?s1) True (state_dict ?s1) ?img)))"
    "2 \<le> length (tsize (fst (forward demo_env (training ?u1) False (state_dict ?u1) ?img)))"
    by (simp_all add: demo_env_def demo_forward_def)
  from shape_mismatch_fatal [OF h1 h2 refl h4 h5 h6 refl h8, where dev = Cpu] dims
  show ?thesis
    by (metis fst_conv imageI)
qed

subsection \<open>What a validation pass leaves unchanged\<close>

lemma validate_batch_frame:
  assumes "validate_batch env nc crit b acc s = (r, acc', s')"
  shows "opt_state s' = opt_state s \<and> grads s' = grads s \<and> files s' = files s
       \<and> training s' = training s \<and> rng s' = rng s \<and> log_lines s' = log_lines s
       \<and> (\<exists>cs. calls s' = calls s @ cs \<and> set cs \<subseteq> {Forward False})
       \<and> ((\<forall>sd x. snd (forward env False False sd x) = sd) \<and> \<not> training s
            \<longrightarrow> state_dict s' = state_dict s)"
proof -
  obtain images masks tiles where b: "b = (images, masks, tiles)"
    by (cases b) auto
  obtain n rl m where acc: "acc = (n, rl, m)"
    by (cases acc) auto
  obtain outputs sd where f: "forward env (training s) False (state_dict s) images = (outputs, sd)"
    by (cases "forward env (training s) False (state_dict s) images") auto
  have pure: "(\<forall>sd x. snd (forward env False False sd x) = sd) \<and> \<not> training s \<longrightarrow> sd = state_dict s"
    using f by (metis snd_conv)
  from assms pure show ?thesis
    unfolding b acc
    by (auto simp: validate_batch_def Let_def f split: if_splits list.splits sum.splits prod.splits)
qed

lemma validate_loop_frame:
  assumes "validate_loop env nc crit items acc s = (r, acc', s')"
  shows "opt_state s' = opt_state s \<and> grads s' = grads s \<and> files s' = files s
       \<and> training s' = training s \<and> rng s' = rng s \<and> log_lines s' = log_lines s
       \<and> (\<exists>cs. calls s' = calls s @ cs \<and> set cs \<subseteq> {Forward False})
       \<and> ((\<forall>sd x. snd (forward env False False sd x) = sd) \<and> \<not> training s
            \<longrightarrow> state_dict s' = state_dict s)"
  using assms
proof (induction items arbitrary: acc s)
  case Nil
  then show ?case by simp
next
  case (Cons item rest)
  show ?case
  proof (cases item)
    case (Inl e)
    with Cons.prems show ?thesis by simp
  next
    case (Inr b)
    obtain r1 acc1 s1 where vb: "validate_batch env nc crit b acc s = (r1, acc1, s1)"
      by (metis prod_cases3)
    note fb = validate_batch_frame[OF vb]
    show ?thesis
    proof (cases r1)
      case (Some e)
      with Cons.prems Inr vb have "s' = s1" by simp
      with fb show ?thesis by simp
    next
      case None
      with Cons.prems Inr vb have "validate_loop env nc crit rest acc1 s1 = (r, acc', s')"
        by simp
      note fl = Cons.IH[OF this]
      from fb obtain cs1 where c1: "calls s1 = calls s @ cs1" "set cs1 \<subseteq> {Forward False}"
        by blast
      from fl obtain cs2 where c2: "calls s' = calls s1 @ cs2" "set cs2 \<subseteq> {Forward False}"
        by blast
      have "calls s' = calls s @ (cs1 @ cs2) \<and> set (cs1 @ cs2) \<subseteq> {Forward False}"
        using c1 c2 by simp
      then have "\<exists>cs. calls s' = calls s @ cs \<and> set cs \<subseteq> {Forward False}"
        by blast
      with fb fl show ?thesis by simp
    qed
  qed
qed

lemma loader_iter_frame:
  assumes "loader_iter env ld s = (items, s')"
  shows "opt_state s' = opt_state s \<and> grads s' = grads s \<and> files s' = files s
       \<and> training s' = training s \<and> calls s' = calls s \<and> state_dict s' = state_dict s
       \<and> log_lines s' = log_lines s"
  using assms by (auto simp: loader_iter_def Let_def split: if_splits)

text \<open>
  Claim C6. A validation pass leaves the optimizer's state, the gradients and the
  checkpoint files as they were and the network in evaluation mode; the calls it
  makes are \<^verbatim>\<open>net.eval()\<close> and forward passes without gradients, so neither
  backpropagation nor an optimizer step; and the network's state is unchanged as well,
  given that a forward pass in evaluation mode without gradients does not change it.
\<close>

theorem validate_frame:
  assumes "validate env ld nc dev crit s = (r, s')"
  shows "opt_state s' = opt_state s \<and> grads s' = grads s \<and> files s' = files s
       \<and> training s' = False
       \<and> (\<exists>cs. calls s' = calls s @ NetEval # cs \<and> set cs \<subseteq> {Forward False})
       \<and> ((\<forall>sd x. snd (forward env False False sd x) = sd) \<longrightarrow> state_dict s' = state_dict s)"
proof -
  let ?s1 = "s\<lparr>training := False, calls := calls s @ [NetEval]\<rparr>"
  obtain items s2 where it: "loader_iter env ld ?s1 = (items, s2)"
    by (cases "loader_iter env ld ?s1") auto
  obtain err n rl m s3 where
    lp: "validate_loop env nc crit items (0, 0, metrics_new env) s2 = (err, (n, rl, m), s3)"
    by (metis prod_cases3)
  from validate_result[OF it lp, of dev] assms have s': "s' = s3"
    by (auto split: option.splits if_splits)
  note f1 = loader_iter_frame[OF it]
  note f2 = validate_loop_frame[OF lp]
  from f2 obtain cs where cs: "calls s3 = calls s2 @ cs" "set cs \<subseteq> {Forward False}"
    by blast
  with f1 have "calls s3 = calls s @ NetEval # cs" by simp
  with cs have "\<exists>cs. calls s3 = calls s @ NetEval # cs \<and> set cs \<subseteq> {Forward False}"
    by blast
  with f1 f2 show ?thesis
    unfolding s' by simp
qed

theorem validate_frame_witness:
  "(\<forall>sd x. snd (forward demo_env False False sd x) = sd)
   \<and> state_dict (snd (validate demo_env demo_val_loader 2 Cpu demo_criterion demo_session))
       = state_dict demo_session
   \<and> opt_state (snd (validate demo_env demo_val_loader 2 Cpu demo_criterion demo_session))
       = opt_state demo_session
   \<and> grads (snd (validate demo_env demo_val_loader 2 Cpu demo_criterion demo_session))
       = grads demo_session"
proof -
  have pure: "\<forall>sd x. snd (forward demo_env False False sd x) = sd"
    by (simp add: demo_env_def demo_forward_def)
  have run: "validate demo_env demo_val_loader 2 Cpu demo_criterion demo_session
      = (fst (validate demo_env demo_val_loader 2 Cpu demo_criterion demo_session),
         snd (validate demo_env demo_val_loader 2 Cpu demo_criterion demo_session))"
    by simp
  from validate_frame[OF run] pure show ?thesis
    by blast
qed

section \<open>Batching with \<^verbatim>\<open>drop_last\<close>\<close>

lemma chunks_short: "0 < n \<Longrightarrow> length xs < n \<Longrightarrow> chunks n True xs = []"
  by (simp add: chunks.simps)

lemma chunks_lengths: "c \<in> set (chunks n True xs) \<Longrightarrow> length c = n"
proof (induction n True xs rule: chunks.induct)
  case (1 n xs)
  show ?case
  proof (cases "n = 0 \<or> length xs < n")
    case True
    with "1.prems" show ?thesis
      by (auto simp: chunks.simps[of n True xs])
  next
    case False
    with "1.prems" have "c = take n xs \<or> c \<in> set (chunks n True (drop n xs))"
      by (auto simp: chunks.simps[of n True xs])
    with False "1.hyps" show ?thesis by auto
  qed
qed

lemma concat_chunks:
  "0 < n \<Longrightarrow> concat (chunks n True xs) = take (length xs - length xs mod n) xs"
proof (induction n True xs rule: chunks.induct)
  case (1 n xs)
  show ?case
  proof (cases "length xs < n")
    case True
    with "1.prems" show ?thesis
      by (simp add: chunks.simps[of n True xs])
  next
    case False
    then have le: "n \<le> length xs" by simp
    from "1.hyps" "1.prems" False
    have ih: "concat (chunks n True (drop n xs))
        = take (length (drop n xs) - length (drop n xs) mod n) (drop n xs)"
      by simp
    have m: "(length xs - n) mod n = length xs mod n"
      using le by (simp add: le_mod_geq)
    have "length xs mod n \<le> length xs - n"
      using m by (metis mod_less_eq_dividend)
    then have k: "n + (length xs - n - length xs mod n) = length xs - length xs mod n"
      using le by simp
    have "concat (chunks n True xs) = take n xs @ concat (chunks n True (drop n xs))"
      using False "1.prems" by (simp add: chunks.simps[of n True xs])
    also have "\<dots> = take n xs @ take (length xs - n - length xs mod n) (drop n xs)"
      using ih m by simp
    also have "\<dots> = take (n + (length xs - n - length xs mod n)) xs"
      by (simp add: take_add)
    finally show ?thesis using k by simp
  qed
qed

lemma length_chunks: "0 < n \<Longrightarrow> length (chunks n True xs) = length xs div n"
proof (induction n True xs rule: chunks.induct)
  case (1 n xs)
  show ?case
  proof (cases "length xs < n")
    case True
    with "1.prems" show ?thesis
      by (simp add: chunks.simps[of n True xs])
  next
    case False
    with "1.hyps" "1.prems" have "length (chunks n True (drop n xs)) = (length xs - n) div n"
      by simp
    with False "1.prems" show ?thesis
      by (simp add: chunks.simps[of n True xs] le_div_geq)
  qed
qed

lemma mset_shuffle_with: "mset (shuffle_with rs xs) = mset xs"
proof (induction rs xs rule: shuffle_with.induct)
  case (1 rs xs)
  show ?case
  proof (cases "xs = []")
    case True
    then show ?thesis by (simp add: shuffle_with.simps[of rs "[]"])
  next
    case False
    define i where "i = (case rs of [] \<Rightarrow> 0 | r # _ \<Rightarrow> r mod length xs)"
    have i: "i < length xs"
      using False by (cases rs) (simp_all add: i_def)
    from "1.IH"[OF False i_def]
    have ih: "mset (shuffle_with (tl rs) (take i xs @ drop (Suc i) xs))
        = mset (take i xs @ drop (Suc i) xs)" .
    have "shuffle_with rs xs = xs ! i # shuffle_with (tl rs) (take i xs @ drop (Suc i) xs)"
      using False by (simp add: shuffle_with.simps[of rs xs] i_def Let_def)
    then have "mset (shuffle_with rs xs) = add_mset (xs ! i) (mset (take i xs @ drop (Suc i) xs))"
      using ih by simp
    also have "\<dots> = mset (take i xs @ xs ! i # drop (Suc i) xs)"
      by simp
    also have "\<dots> = mset xs"
      using i by (simp add: id_take_nth_drop[symmetric])
    finally show ?thesis .
  qed
qed

lemma length_shuffle_with: "length (shuffle_with rs xs) = length xs"
  using mset_shuffle_with[of rs xs] by (metis size_mset)

lemma get_dataset_loaders_fields:
  assumes "get_dataset_loaders env path cfg nw = Inr (tld, vld)"
  shows "dl_drop_last tld \<and> dl_drop_last vld \<and> dl_shuffle tld \<and> \<not> dl_shuffle vld
       \<and> dl_batch_size tld = model_batch_size cfg \<and> dl_batch_size vld = model_batch_size cfg
       \<and> 0 < model_batch_size cfg"
  using assms
  by (auto simp: get_dataset_loaders_def DataLoader_def Let_def
           split: path_val.splits sum.splits if_splits)

lemma loader_iter_drop_last:
  assumes "dl_drop_last ld" and "0 < dl_batch_size ld"
  shows "fst (loader_iter env ld s) =
     map (collate env)
       (chunks (nat (dl_batch_size ld)) True
          (if dl_shuffle ld then shuffle_with (rng_draws env (rng s)) (ds_samples (dl_dataset ld))
           else ds_samples (dl_dataset ld)))"
  using assms by (simp add: loader_iter_def Let_def)

lemma train_short_dataset:
  assumes dl: "dl_drop_last ld" and b: "0 < dl_batch_size ld"
    and short: "length (ds_samples (dl_dataset ld)) < nat (dl_batch_size ld)"
  shows "fst (train env ld nc dev crit s)
      = Inl (AssertionError ''dataset contains training images and labels'')"
proof -
  let ?s1 = "s\<lparr>training := True, calls := calls s @ [NetTrain]\<rparr>"
  have "fst (loader_iter env ld ?s1) = []"
    using b short by (simp add: loader_iter_drop_last[OF dl b] chunks_short length_shuffle_with)
  then obtain s2 where it: "loader_iter env ld ?s1 = ([], s2)"
    by (cases "loader_iter env ld ?s1") auto
  have lp: "train_loop env nc crit [] (0, 0, metrics_new env) s2 = (None, (0, 0, metrics_new env), s2)"
    by simp
  from train_result[OF it lp, of dev] show ?thesis by simp
qed

lemma validate_short_dataset:
  assumes dl: "dl_drop_last ld" and b: "0 < dl_batch_size ld"
    and short: "length (ds_samples (dl_dataset ld)) < nat (dl_batch_size ld)"
  shows "fst (validate env ld nc dev crit s)
      = Inl (AssertionError ''dataset contains validation images and labels'')"
proof -
  let ?s1 = "s\<lparr>training := False, calls := calls s @ [NetEval]\<rparr>"
  have "fst (loader_iter env ld ?s1) = []"
    using b short by (simp add: loader_iter_drop_last[OF dl b] chunks_short length_shuffle_with)
  then obtain s2 where it: "loader_iter env ld ?s1 = ([], s2)"
    by (cases "loader_iter env ld ?s1") auto
  have lp: "validate_loop env nc crit [] (0, 0, metrics_new env) s2 = (None, (0, 0, metrics_new env), s2)"
    by simp
  from validate_result[OF it lp, of dev] show ?thesis by simp
qed

text \<open>
  Claim C9. Both loaders that \<^verbatim>\<open>get_dataset_loaders\<close> returns drop the last,
  incomplete batch. With \<open>n\<close> samples and batch size \<open>b\<close>, the batches of a pass are
  the groups of \<open>b\<close> consecutive samples of the sampling order (the dataset's order
  for validation, a permutation of it for training); together they are the first
  \<open>n - n mod b\<close> samples of that order, so the last \<open>n mod b\<close> are not visited; and
  with fewer than \<open>b\<close> samples the pass has no batch and fails the assertion on the
  number of samples.
\<close>

theorem drop_last_skips_tail:
  assumes "get_dataset_loaders env path cfg nw = Inr (tld, vld)"
  shows "dl_drop_last tld \<and> dl_drop_last vld \<and> 0 < nat (model_batch_size cfg)
     \<and> (let b = nat (model_batch_size cfg);
             xs = ds_samples (dl_dataset vld);
             n = length xs
         in fst (loader_iter env vld u) = map (collate env) (chunks b True xs)
          \<and> concat (chunks b True xs) = take (n - n mod b) xs
          \<and> (n < b \<longrightarrow> fst (validate env vld nc dev crit u)
                = Inl (AssertionError ''dataset contains validation images and labels'')))
     \<and> (let b = nat (model_batch_size cfg);
             xs = ds_samples (dl_dataset tld);
             order = shuffle_with (rng_draws env (rng s)) xs;
             n = length xs
         in fst (loader_iter env tld s) = map (collate env) (chunks b True order)
          \<and> mset order = mset xs
          \<and> concat (chunks b True order) = take (n - n mod b) order
          \<and> (n < b \<longrightarrow> fst (train env tld nc dev crit s)
                = Inl (AssertionError ''dataset contains training images and labels'')))"
proof -
  note f = get_dataset_loaders_fields[OF assms]
  from f have tdl: "dl_drop_last tld" and vdl: "dl_drop_last vld"
    and tb: "0 < dl_batch_size tld" and vb: "0 < dl_batch_size vld"
    and tsz: "dl_batch_size tld = model_batch_size cfg"
    and vsz: "dl_batch_size vld = model_batch_size cfg"
    and tsh: "dl_shuffle tld" and vsh: "\<not> dl_shuffle vld"
    by simp_all
  have b: "0 < nat (model_batch_size cfg)"
    using f by simp
  have v1: "fst (loader_iter env vld u)
      = map (collate env) (chunks (nat (model_batch_size cfg)) True (ds_samples (dl_dataset vld)))"
    using loader_iter_drop_last[OF vdl vb, of env u] vsh vsz by simp
  have v2: "length (ds_samples (dl_dataset vld)) < nat (model_batch_size cfg) \<longrightarrow>
      fst (validate env vld nc dev crit u)
        = Inl (AssertionError ''dataset contains validation images and labels'')"
    using validate_short_dataset[OF vdl vb, of env nc dev crit u] vsz by simp
  have t1: "fst (loader_iter env tld s)
      = map (collate env) (chunks (nat (model_batch_size cfg)) True
          (shuffle_with (rng_draws env (rng s)) (ds_samples (dl_dataset tld))))"
    using loader_iter_drop_last[OF tdl tb, of env s] tsh tsz by simp
  have t2: "length (ds_samples (dl_dataset tld)) < nat (model_batch_size cfg) \<longrightarrow>
      fst (train env tld nc dev crit s)
        = Inl (AssertionError ''dataset contains training images and labels'')"
    using train_short_dataset[OF tdl tb, of env nc dev crit s] tsz by simp
  show ?thesis
    using tdl vdl b v1 v2 t1 t2
    by (simp add: Let_def concat_chunks[OF b] mset_shuffle_with length_shuffle_with)
qed

lemma demo_loaders_big:
  "get_dataset_loaders demo_env (PathStr ''/data'') (demo_config\<lparr>model_batch_size := 4\<rparr>) 0
     = Inr (demo_train_loader\<lparr>dl_batch_size := 4\<rparr>, demo_val_loader\<lparr>dl_batch_size := 4\<rparr>)"
  by (simp add: get_dataset_loaders_def demo_env_def demo_config_def DataLoader_def
      demo_train_loader_def demo_val_loader_def demo_dataset_def path_join_def path_join3_def
      joint_transform_def Let_def)

theorem drop_last_skips_tail_witness:
  "dl_drop_last demo_train_loader \<and> dl_drop_last demo_val_loader
   \<and> concat (chunks 2 True
        (shuffle_with (rng_draws demo_env 0) (ds_samples (dl_dataset demo_train_loader))))
      = take 2 (shuffle_with (rng_draws demo_env 0) (ds_samples (dl_dataset demo_train_loader)))
   \<and> fst (train demo_env (demo_train_loader\<lparr>dl_batch_size := 4\<rparr>) 2 Cpu demo_criterion demo_session)
      = Inl (AssertionError ''dataset contains training images and labels'')
   \<and> fst (validate demo_env (demo_val_loader\<lparr>dl_batch_size := 4\<rparr>) 2 Cpu demo_criterion demo_session)
      = Inl (AssertionError ''dataset contains validation images and labels'')"
proof -
  have n: "length (ds_samples (dl_dataset demo_train_loader)) = 3"
    "length (ds_samples (dl_dataset demo_val_loader)) = 2"
    "nat (model_batch_size demo_config) = 2" "rng demo_session = 0"
    by (simp_all add: demo_train_loader_def demo_val_loader_def demo_dataset_def demo_config_def
        demo_session_def)
  have m: "(3::nat) - 3 mod 2 = 2"
    by simp
  from drop_last_skips_tail [OF demo_loaders, where s = demo_session]
  have a: "dl_drop_last demo_train_loader \<and> dl_drop_last demo_val_loader
     \<and> concat (chunks 2 True
        (shuffle_with (rng_draws demo_env 0) (ds_samples (dl_dataset demo_train_loader))))
      = take 2 (shuffle_with (rng_draws demo_env 0) (ds_samples (dl_dataset demo_train_loader)))"
    by (simp add: Let_def n m)
  from drop_last_skips_tail [OF demo_loaders_big, where s = demo_session and u = demo_session
      and nc = 2 and dev = Cpu and crit = demo_criterion]
  have b: "fst (train demo_env (demo_train_loader\<lparr>dl_batch_size := 4\<rparr>) 2 Cpu demo_criterion demo_session)
      = Inl (AssertionError ''dataset contains training images and labels'')
   \<and> fst (validate demo_env (demo_val_loader\<lparr>dl_batch_size := 4\<rparr>) 2 Cpu demo_criterion demo_session)
      = Inl (AssertionError ''dataset contains validation images and labels'')"
    by (simp add: Let_def n)
  from a b show ?thesis by simp
qed

section \<open>Checkpoint files\<close>

subsection \<open>The formatting of integers loses nothing\<close>

lemma digit_val_digit_char: "digit_val (digit_char d) = Some (d mod 10)"
  by (simp add: digit_val_def digit_char_def Let_def)

lemma digit_char_not_minus: "digit_char d \<noteq> CHR ''-''"
proof
  assume "digit_char d = CHR ''-''"
  then have "digit_val (digit_char d) = digit_val (CHR ''-'')" by simp
  then show False by (simp add: digit_val_digit_char) (simp add: digit_val_def)
qed

lemma dec_val_snoc:
  "dec_val (s @ [c]) = 10 * dec_val s + (case digit_val c of Some d \<Rightarrow> d | None \<Rightarrow> 0)"
  by (simp add: dec_val_def)

lemma dec_val_dec_digits: "dec_val (dec_digits n) = n"
proof (induction n rule: dec_digits.induct)
  case (1 n)
  show ?case
  proof (cases "n < 10")
    case True
    then show ?thesis
      by (simp add: dec_digits.simps[of n] dec_val_def digit_val_digit_char)
  next
    case False
    with "1.IH" have "dec_val (dec_digits (n div 10)) = n div 10" by simp
    with False show ?thesis
      by (simp add: dec_digits.simps[of n] dec_val_snoc digit_val_digit_char)
  qed
qed

lemma dec_digits_no_minus: "CHR ''-'' \<notin> set (dec_digits n)"
proof (induction n rule: dec_digits.induct)
  case (1 n)
  show ?case
  proof (cases "n < 10")
    case True
    then show ?thesis
      using digit_char_not_minus[of n] by (auto simp: dec_digits.simps[of n])
  next
    case False
    with "1.IH" have "CHR ''-'' \<notin> set (dec_digits (n div 10))" by simp
    with False show ?thesis
      using digit_char_not_minus[of "n mod 10"] by (auto simp: dec_digits.simps[of n])
  qed
qed

lemma dec_val_zeros: "foldl (\<lambda>acc c. 10 * acc + (case digit_val c of Some d \<Rightarrow> d | None \<Rightarrow> 0)) 0
    (replicate k (CHR ''0'')) = 0"
  by (induction k) (simp_all add: digit_val_def)

lemma dec_val_zfill: "dec_val (zfill w s) = dec_val s"
  by (simp add: dec_val_def zfill_def dec_val_zeros)

lemma zfill_no_minus: "CHR ''-'' \<notin> set s \<Longrightarrow> CHR ''-'' \<notin> set (zfill w s)"
  by (auto simp: zfill_def)

lemma format_05d_inj:
  assumes "format_05d a = format_05d b"
  shows "a = b"
proof -
  have neg_pos: False
    if "x < 0" "\<not> y < 0" "format_05d x = format_05d y" for x y
  proof -
    from that have "CHR ''-'' # zfill 4 (dec_digits (nat (- x))) = zfill 5 (dec_digits (nat y))"
      by (simp add: format_05d_def)
    then have "CHR ''-'' \<in> set (zfill 5 (dec_digits (nat y)))"
      by (metis list.set_intros(1))
    then show False
      using zfill_no_minus[OF dec_digits_no_minus] by blast
  qed
  show ?thesis
  proof (cases "a < 0"; cases "b < 0")
    assume ab: "a < 0" "b < 0"
    with assms have "zfill 4 (dec_digits (nat (- a))) = zfill 4 (dec_digits (nat (- b)))"
      by (simp add: format_05d_def)
    then have "dec_val (zfill 4 (dec_digits (nat (- a)))) = dec_val (zfill 4 (dec_digits (nat (- b))))"
      by simp
    then have "nat (- a) = nat (- b)"
      by (simp add: dec_val_zfill dec_val_dec_digits)
    with ab show ?thesis by simp
  next
    assume ab: "\<not> a < 0" "\<not> b < 0"
    with assms have "dec_val (zfill 5 (dec_digits (nat a))) = dec_val (zfill 5 (dec_digits (nat b)))"
      by (simp add: format_05d_def)
    then have "nat a = nat b"
      by (simp add: dec_val_zfill dec_val_dec_digits)
    with ab show ?thesis by simp
  next
    assume "a < 0" "\<not> b < 0"
    from neg_pos[OF this assms] show ?thesis ..
  next
    assume "\<not> a < 0" "b < 0"
    from neg_pos[OF this(2) this(1) assms[symmetric]] show ?thesis ..
  qed
qed

lemma path_join_relative:
  assumes "b \<noteq> []" "hd b \<noteq> CHR ''/''"
  shows "path_join a b = (if a = [] \<or> last a = CHR ''/'' then a else a @ ''/'') @ b"
  using assms by (simp add: path_join_def)

lemma checkpoint_path_inj:
  assumes "checkpoint_path outdir i n = checkpoint_path outdir j n"
  shows "i = j"
proof -
  let ?f = "\<lambda>k. ''checkpoint-'' @ format_05d k @ ''-of-'' @ format_05d n @ ''.pth''"
  have rel: "?f k \<noteq> [] \<and> hd (?f k) \<noteq> CHR ''/''" for k
    by simp
  from assms have "?f i = ?f j"
    unfolding checkpoint_path_def
    using path_join_relative[of "?f i" outdir] path_join_relative[of "?f j" outdir] rel
    by (metis same_append_eq)
  then have "format_05d i @ (''-of-'' @ format_05d n @ ''.pth'')
      = format_05d j @ (''-of-'' @ format_05d n @ ''.pth'')"
    by simp
  then have "format_05d i = format_05d j"
    by (simp only: append_same_eq)
  then show ?thesis by (rule format_05d_inj)
qed

subsection \<open>Who writes files\<close>

lemma train_batch_files:
  "train_batch env nc crit b acc s = (r, acc', s') \<Longrightarrow> files s' = files s"
  by (cases b; cases acc)
     (auto simp: train_batch_def Let_def split: if_splits list.splits sum.splits prod.splits)

lemma train_loop_files:
  "train_loop env nc crit items acc s = (r, acc', s') \<Longrightarrow> files s' = files s"
proof (induction items arbitrary: acc s)
  case Nil
  then show ?case by simp
next
  case (Cons item rest)
  show ?case
  proof (cases item)
    case (Inl e)
    with Cons.prems show ?thesis by simp
  next
    case (Inr b)
    obtain r1 acc1 s1 where tb: "train_batch env nc crit b acc s = (r1, acc1, s1)"
      by (metis prod_cases3)
    show ?thesis
    proof (cases r1)
      case (Some e)
      with Cons.prems Inr tb train_batch_files[OF tb] show ?thesis by simp
    next
      case None
      with Cons.prems Inr tb have "train_loop env nc crit rest acc1 s1 = (r, acc', s')"
        by simp
      from Cons.IH[OF this] train_batch_files[OF tb] show ?thesis by simp
    qed
  qed
qed

lemma train_files:
  assumes "train env ld nc dev crit s = (r, s')"
  shows "files s' = files s"
proof -
  let ?s1 = "s\<lparr>training := True, calls := calls s @ [NetTrain]\<rparr>"
  obtain items s2 where it: "loader_iter env ld ?s1 = (items, s2)"
    by (cases "loader_iter env ld ?s1") auto
  obtain err n rl m s3 where
    lp: "train_loop env nc crit items (0, 0, metrics_new env) s2 = (err, (n, rl, m), s3)"
    by (metis prod_cases3)
  from train_result[OF it lp, of dev] assms have "s' = s3"
    by (auto split: option.splits if_splits)
  with loader_iter_frame[OF it] train_loop_files[OF lp] show ?thesis by simp
qed

lemma validate_files:
  assumes "validate env ld nc dev crit s = (r, s')"
  shows "files s' = files s"
proof -
  let ?s1 = "s\<lparr>training := False, calls := calls s @ [NetEval]\<rparr>"
  obtain items s2 where it: "loader_iter env ld ?s1 = (items, s2)"
    by (cases "loader_iter env ld ?s1") auto
  obtain err n rl m s3 where
    lp: "validate_loop env nc crit items (0, 0, metrics_new env) s2 = (err, (n, rl, m), s3)"
    by (metis prod_cases3)
  from validate_result[OF it lp, of dev] assms have "s' = s3"
    by (auto split: option.splits if_splits)
  with loader_iter_frame[OF it] validate_loop_frame[OF lp] show ?thesis by simp
qed

lemma epoch_body_files:
  assumes "epoch_body env l e s = (r, s')"
  shows "files s' =
     (if r = None
      then (files s)(checkpoint_path (out (lc_args l)) (e + 1) (lc_num_epochs l) \<mapsto>
              \<lparr>ck_epoch = e + 1, ck_state_dict = state_dict s', ck_optimizer = opt_state s'\<rparr>)
      else files s)"
proof -
  let ?s2 = "log_line (''Epoch: '' @ str_int (e + 1) @ ''/'' @ str_int (lc_num_epochs l))
               (log_line ''---'' s)"
  obtain tr s3 where t: "train env (lc_train_loader l) (lc_num_classes l) (lc_device l)
      (lc_criterion l) ?s2 = (tr, s3)"
    by (metis surj_pair)
  have f3: "files s3 = files s"
    using train_files[OF t] by (simp add: log_line_def)
  show ?thesis
  proof (cases tr)
    case (Inl x)
    with assms t f3 show ?thesis
      by (auto simp: epoch_body_def Let_def)
  next
    case (Inr th)
    show ?thesis
    proof (cases "length (classes_titles (lc_config l)) < 2")
      case True
      with assms t f3 Inr show ?thesis
        by (auto simp: epoch_body_def Let_def)
    next
      case False
      let ?s4 = "log_line (stats_line env ''Train   '' th (classes_titles (lc_config l) ! 1)) s3"
      obtain vr s5 where v: "validate env (lc_val_loader l) (lc_num_classes l) (lc_device l)
          (lc_criterion l) ?s4 = (vr, s5)"
        by (metis surj_pair)
      have f5: "files s5 = files s"
        using validate_files[OF v] f3 by (simp add: log_line_def)
      from assms t Inr False v f5 show ?thesis
        by (cases vr) (auto simp: epoch_body_def Let_def log_line_def)
    qed
  qed
qed

lemma run_epochs_keeps:
  assumes "run_epochs env l es s = (r, s')"
    and "\<forall>e \<in> set es. checkpoint_path (out (lc_args l)) (e + 1) (lc_num_epochs l) \<noteq> p"
  shows "files s' p = files s p"
  using assms
proof (induction es arbitrary: s)
  case Nil
  then show ?case by simp
next
  case (Cons e rest)
  obtain r1 s1 where eb: "epoch_body env l e s = (r1, s1)"
    by (metis surj_pair)
  from epoch_body_files[OF eb] Cons.prems(2) have k: "files s1 p = files s p"
    by (auto split: if_splits)
  show ?case
  proof (cases r1)
    case (Some x)
    with Cons.prems(1) eb k show ?thesis by simp
  next
    case None
    with Cons.prems(1) eb have "run_epochs env l rest s1 = (r, s')" by simp
    from Cons.IH[OF this] Cons.prems(2) k show ?thesis by simp
  qed
qed

lemma run_epochs_append:
  "run_epochs env l pre s = (None, s1)
     \<Longrightarrow> run_epochs env l (pre @ es) s = run_epochs env l es s1"
proof (induction pre arbitrary: s)
  case Nil
  then show ?case by simp
next
  case (Cons e rest)
  obtain r1 s' where eb: "epoch_body env l e s = (r1, s')"
    by (metis surj_pair)
  from Cons.prems eb have r1: "r1 = None"
    by (cases r1) auto
  with Cons.prems eb have "run_epochs env l rest s' = (None, s1)" by simp
  from Cons.IH[OF this] eb r1 show ?case by simp
qed

text \<open>
  Claim C5. Let the loop of \<^verbatim>\<open>main\<close> run over \<^verbatim>\<open>range(resume, num_epochs)\<close>, let
  the epochs before \<open>e\<close> and epoch \<open>e\<close> itself complete (train pass, validation
  pass, both lines of statistics). Then at the end of epoch \<open>e\<close> the file
  \<^verbatim>\<open>checkpoint-<e+1>-of-<num_epochs>.pth\<close> in the output directory, both numbers
  padded with zeros to five digits, holds the record of \<open>e + 1\<close>, the network's
  state and the optimizer's state as they are then; no other epoch has this file
  name, and the file still holds that record when the loop stops, however it stops.
\<close>

theorem checkpoint_per_epoch:
  assumes "[first..lc_num_epochs l - 1] = pre @ e # post"
    and "run_epochs env l pre s = (None, s1)"
    and "epoch_body env l e s1 = (None, s2)"
    and "run_epochs env l post s2 = (r, s3)"
  shows "run_epochs env l [first..lc_num_epochs l - 1] s = (r, s3)
     \<and> checkpoint_path (out (lc_args l)) (e + 1) (lc_num_epochs l)
         = path_join (out (lc_args l))
             (''checkpoint-'' @ format_05d (e + 1) @ ''-of-'' @ format_05d (lc_num_epochs l) @ ''.pth'')
     \<and> files s2 (checkpoint_path (out (lc_args l)) (e + 1) (lc_num_epochs l))
         = Some \<lparr>ck_epoch = e + 1, ck_state_dict = state_dict s2, ck_optimizer = opt_state s2\<rparr>
     \<and> files s3 (checkpoint_path (out (lc_args l)) (e + 1) (lc_num_epochs l))
         = Some \<lparr>ck_epoch = e + 1, ck_state_dict = state_dict s2, ck_optimizer = opt_state s2\<rparr>
     \<and> (\<forall>e'. e' \<noteq> e \<longrightarrow>
           checkpoint_path (out (lc_args l)) (e' + 1) (lc_num_epochs l)
             \<noteq> checkpoint_path (out (lc_args l)) (e + 1) (lc_num_epochs l))"
proof -
  let ?p = "checkpoint_path (out (lc_args l)) (e + 1) (lc_num_epochs l)"
  have inj: "checkpoint_path (out (lc_args l)) (e' + 1) (lc_num_epochs l) \<noteq> ?p" if "e' \<noteq> e" for e'
    using that checkpoint_path_inj[of "out (lc_args l)" "e' + 1" "lc_num_epochs l" "e + 1"] by auto
  have "distinct (pre @ e # post)"
    using assms(1) distinct_upto[of first "lc_num_epochs l - 1"] by simp
  then have notin: "e \<notin> set post" by simp
  have later: "\<forall>e' \<in> set post. checkpoint_path (out (lc_args l)) (e' + 1) (lc_num_epochs l) \<noteq> ?p"
  proof
    fix e'
    assume "e' \<in> set post"
    with notin have "e' \<noteq> e" by auto
    then show "checkpoint_path (out (lc_args l)) (e' + 1) (lc_num_epochs l) \<noteq> ?p"
      by (rule inj)
  qed
  have run: "run_epochs env l [first..lc_num_epochs l - 1] s = (r, s3)"
    using run_epochs_append[OF assms(2), of "e # post"] assms(1,3,4) by simp
  have at_end: "files s2 ?p
      = Some \<lparr>ck_epoch = e + 1, ck_state_dict = state_dict s2, ck_optimizer = opt_state s2\<rparr>"
    using epoch_body_files[OF assms(3)] by simp
  have kept: "files s3 ?p = files s2 ?p"
    by (rule run_epochs_keeps[OF assms(4) later])
  show ?thesis
    using run at_end kept inj by (simp add: checkpoint_path_def)
qed

lemma demo_train_ok:
  assumes "rng s = 0"
  shows "fst (train demo_env demo_train_loader 2 dev demo_criterion s)
     = Inr \<lparr>loss = 1 / 4, miou = 1, fg_iou = 1, mcc = 1\<rparr>"
proof -
  let ?s1 = "s\<lparr>training := True, calls := calls s @ [NetTrain]\<rparr>"
  let ?b = "(Tensor [2, 3, 4, 4] 2, Tensor [2, 4, 4] 202, [(0, 0, 18), (2, 2, 18)])"
  have it: "loader_iter demo_env demo_train_loader ?s1 = ([Inr ?b], ?s1\<lparr>rng := 1\<rparr>)"
    by (rule demo_train_items) (simp add: assms)
  have lp: "train_loop demo_env 2 demo_criterion [Inr ?b] (0, 0, metrics_new demo_env) (?s1\<lparr>rng := 1\<rparr>)
      = (None, (2, 1 / 2, 2), snd (snd (train_batch demo_env 2 demo_criterion ?b (0, 0, 0) (?s1\<lparr>rng := 1\<rparr>))))"
    by (simp add: demo_metrics_new demo_train_batch)
  from train_result[OF it lp, of dev] show ?thesis
    by (simp add: demo_env_def)
qed

lemma demo_validate_batch:
  "validate_batch demo_env 2 demo_criterion
     (Tensor [2, 3, 4, 4] 7, Tensor [2, 4, 4] 207, [(3, 3, 18), (4, 4, 18)]) (0, 0, 0) s
   = (None, (2, 1 / 2, 2),
      s\<lparr>state_dict := (if training s then state_dict s + 1 else state_dict s),
        calls := calls s @ [Forward False]\<rparr>)"
  by (simp add: validate_batch_def demo_env_def demo_forward_def demo_criterion_def
      zip_rows_def rows_def Let_def upt_conv_Cons)

lemma demo_validate_ok:
  "fst (validate demo_env demo_val_loader 2 dev demo_criterion s)
     = Inr \<lparr>loss = 1 / 4, miou = 1, fg_iou = 1, mcc = 1\<rparr>"
proof -
  let ?s1 = "s\<lparr>training := False, calls := calls s @ [NetEval]\<rparr>"
  let ?b = "(Tensor [2, 3, 4, 4] 7, Tensor [2, 4, 4] 207, [(3, 3, 18), (4, 4, 18)])"
  have it: "loader_iter demo_env demo_val_loader ?s1 = ([Inr ?b], ?s1)"
    by (rule demo_val_items)
  have lp: "validate_loop demo_env 2 demo_criterion [Inr ?b] (0, 0, metrics_new demo_env) ?s1
      = (None, (2, 1 / 2, 2), snd (snd (validate_batch demo_env 2 demo_criterion ?b (0, 0, 0) ?s1)))"
    by (simp add: demo_metrics_new demo_validate_batch)
  from validate_result[OF it lp, of dev] show ?thesis
    by (simp add: demo_env_def)
qed

lemma demo_epoch_ok:
  assumes "rng s = 0"
  shows "fst (epoch_body demo_env demo_locals e s) = None"
proof -
  let ?s2 = "log_line (''Epoch: '' @ str_int (e + 1) @ ''/'' @ str_int (lc_num_epochs demo_locals))
               (log_line ''---'' s)"
  have r2: "rng ?s2 = 0"
    using assms by (simp add: log_line_def)
  obtain tr s3 where t: "train demo_env demo_train_loader 2 Cpu demo_criterion ?s2 = (tr, s3)"
    by (metis surj_pair)
  with demo_train_ok[OF r2, of Cpu] have tr: "tr = Inr \<lparr>loss = 1 / 4, miou = 1, fg_iou = 1, mcc = 1\<rparr>"
    by simp
  let ?s4 = "log_line (stats_line demo_env ''Train   '' \<lparr>loss = 1 / 4, miou = 1, fg_iou = 1, mcc = 1\<rparr>
                (classes_titles demo_config ! 1)) s3"
  obtain vr s5 where v: "validate demo_env demo_val_loader 2 Cpu demo_criterion ?s4 = (vr, s5)"
    by (metis surj_pair)
  with demo_validate_ok[of Cpu ?s4] have vr: "vr = Inr \<lparr>loss = 1 / 4, miou = 1, fg_iou = 1, mcc = 1\<rparr>"
    by simp
  have titles: "\<not> length (classes_titles demo_config) < 2"
    by (simp add: demo_config_def)
  show ?thesis
    using t v titles unfolding tr vr
    by (simp add: epoch_body_def demo_locals_def Let_def)
qed

theorem checkpoint_per_epoch_witness:
  "files (snd (run_epochs demo_env demo_locals [0..1] demo_session))
       ''out/checkpoint-00001-of-00002.pth''
     = Some \<lparr>ck_epoch = 1,
             ck_state_dict = state_dict (snd (epoch_body demo_env demo_locals 0 demo_session)),
             ck_optimizer = opt_state (snd (epoch_body demo_env demo_locals 0 demo_session))\<rparr>"
proof -
  let ?s2 = "snd (epoch_body demo_env demo_locals 0 demo_session)"
  have h1: "[0..lc_num_epochs demo_locals - 1] = [] @ 0 # [1]"
    by (simp add: demo_locals_def upto.simps)
  have h2: "run_epochs demo_env demo_locals [] demo_session = (None, demo_session)"
    by simp
  have "fst (epoch_body demo_env demo_locals 0 demo_session) = None"
    by (rule demo_epoch_ok) (simp add: demo_session_def)
  then have h3: "epoch_body demo_env demo_locals 0 demo_session = (None, ?s2)"
    by (metis prod.collapse)
  have h4: "run_epochs demo_env demo_locals [1] ?s2
      = (fst (run_epochs demo_env demo_locals [1] ?s2), snd (run_epochs demo_env demo_locals [1] ?s2))"
    by simp
  have p: "checkpoint_path (out (lc_args demo_locals)) (0 + 1) (lc_num_epochs demo_locals)
      = ''out/checkpoint-00001-of-00002.pth''"
  proof -
    have "checkpoint_path ''out'' 1 2 = ''out/checkpoint-00001-of-00002.pth''"
      by code_simp
    then show ?thesis
      by (simp add: demo_locals_def demo_args_def)
  qed
  have n: "lc_num_epochs demo_locals - 1 = 1"
    by (simp add: demo_locals_def)
  note c = checkpoint_per_epoch [OF h1 h2 h3 h4]
  from c [THEN conjunct1] have run: "snd (run_epochs demo_env demo_locals [0..1] demo_session)
      = snd (run_epochs demo_env demo_locals [1] ?s2)"
    unfolding n by (simp only: snd_conv)
  from c [THEN conjunct2, THEN conjunct2, THEN conjunct2, THEN conjunct1]
  have "files (snd (run_epochs demo_env demo_locals [1] ?s2)) ''out/checkpoint-00001-of-00002.pth''
      = Some \<lparr>ck_epoch = 0 + 1, ck_state_dict = state_dict ?s2, ck_optimizer = opt_state ?s2\<rparr>"
    unfolding p .
  with run show ?thesis
    by simp
qed

section \<open>Before the loop: \<^verbatim>\<open>main\<close> up to line 130\<close>

lemma load_checkpoint_frame:
  assumes "load_checkpoint env a s = (r, s')"
  shows "files s' = files s \<and> (\<exists>cs. calls s' = calls s @ cs \<and> set cs \<subseteq> loading_calls)"
  using assms
  by (auto simp: load_checkpoint_def log_line_def loading_calls_def Let_def
           split: option.splits if_splits)

lemma load_checkpoint_resume:
  assumes "load_checkpoint env a s = (Inr rv, s1)"
    and "checkpoint a = Some p" "p \<noteq> []" "resume a" "files s p = Some chk"
  shows "rv = ck_epoch chk \<and> state_dict s1 = ck_state_dict chk \<and> opt_state s1 = ck_optimizer chk"
  using assms
  by (auto simp: load_checkpoint_def log_line_def Let_def split: if_splits)

lemma load_checkpoint_retrain:
  assumes "load_checkpoint env a s = (Inr rv, s1)"
    and "checkpoint a = Some p" "p \<noteq> []" "\<not> resume a"
  shows "rv = 0 \<and> (\<exists>chk. files s p = Some chk \<and> state_dict s1 = ck_state_dict chk)
       \<and> opt_state s1 = opt_state s \<and> calls s1 = calls s @ [TorchLoad p, LoadStateDict]"
  using assms
  by (auto simp: load_checkpoint_def log_line_def Let_def split: if_splits option.splits)

text \<open>What it means that the preparation succeeds.\<close>

lemma prepare_Inr:
  assumes "prepare env a w = Inr (l, rv, s)"
  shows "\<exists>cfg net opt s1 crit tld vld.
       load_config env (config a) = Inr cfg
     \<and> model_name cfg \<in> set (model_modules env)
     \<and> model_new env (''robosat_pink.models.'' @ model_name cfg) (py_title (model_name cfg))
          (length (classes_titles cfg)) (num_channels_of cfg) (model_encoder cfg)
          (model_pretrained cfg) = Inr net
     \<and> Adam env net (lr_of a cfg) (model_decay cfg) = Inr opt
     \<and> load_checkpoint env a (new_session env (log_line (banner env a) w) net opt) = (Inr rv, s1)
     \<and> model_loss cfg \<in> set (loss_modules env)
     \<and> loss_new env (''robosat_pink.losses.'' @ model_loss cfg) (py_title (model_loss cfg)) = Inr crit
     \<and> get_dataset_loaders env (dataset_path_of a cfg) cfg (workers a) = Inr (tld, vld)
     \<and> rv < num_epochs_of a cfg
     \<and> l = \<lparr>lc_config = cfg, lc_args = a, lc_lr = lr_of a cfg,
             lc_dataset_path = dataset_path_of a cfg, lc_num_epochs = num_epochs_of a cfg,
             lc_num_classes = length (classes_titles cfg), lc_device = device_of env,
             lc_criterion = crit, lc_train_loader = tld, lc_val_loader = vld\<rparr>
     \<and> s = s1\<lparr>log_lines := log_lines s1 @ header_lines env l\<rparr>"
  using assms
  by (auto simp: prepare_def Let_def split: sum.splits if_splits prod.splits)

lemma prepare_Inl:
  assumes "prepare env a w = Inl (e, w')"
  shows "files w' = files w \<and> (\<exists>cs. calls w' = calls w @ cs \<and> set cs \<subseteq> loading_calls)"
proof (cases "load_config env (config a)")
  case (Inl x)
  with assms show ?thesis by (simp add: prepare_def)
next
  case (Inr cfg)
  let ?w1 = "log_line (banner env a) w"
  have w1: "files ?w1 = files w" "calls ?w1 = calls w"
    by (simp_all add: log_line_def)
  show ?thesis
  proof (cases "model_name cfg \<in> set (model_modules env)")
    case False
    with assms Inr w1 show ?thesis by (auto simp: prepare_def Let_def)
  next
    case True
    show ?thesis
    proof (cases "model_new env (''robosat_pink.models.'' @ model_name cfg) (py_title (model_name cfg))
          (length (classes_titles cfg)) (num_channels_of cfg) (model_encoder cfg)
          (model_pretrained cfg)")
      case (Inl x)
      with assms Inr True w1 show ?thesis by (auto simp: prepare_def Let_def)
    next
      case net: (Inr net)
      show ?thesis
      proof (cases "Adam env net (lr_of a cfg) (model_decay cfg)")
        case (Inl x)
        with assms Inr True net w1 show ?thesis by (auto simp: prepare_def Let_def)
      next
        case opt: (Inr opt)
        let ?s0 = "new_session env ?w1 net opt"
        obtain r s1 where lc: "load_checkpoint env a ?s0 = (r, s1)"
          by (metis surj_pair)
        from load_checkpoint_frame[OF lc] w1
        have f: "files (world_of s1) = files w
            \<and> (\<exists>cs. calls (world_of s1) = calls w @ cs \<and> set cs \<subseteq> loading_calls)"
          by (simp add: world_of_def new_session_def)
        from assms Inr True net opt lc have "w' = world_of s1"
          by (auto simp: prepare_def Let_def split: sum.splits if_splits prod.splits)
        with f show ?thesis by simp
      qed
    qed
  qed
qed

text \<open>
  A learning rate or a weight decay that \<^verbatim>\<open>Adam\<close> refuses ends \<^verbatim>\<open>main\<close> at line 83,
  before the checkpoint is read and before the loss is looked up.
\<close>

lemma adam_refusal_ends_main:
  assumes "load_config env (config a) = Inr cfg"
    and "model_name cfg \<in> set (model_modules env)"
    and "model_new env (''robosat_pink.models.'' @ model_name cfg) (py_title (model_name cfg))
          (length (classes_titles cfg)) (num_channels_of cfg) (model_encoder cfg)
          (model_pretrained cfg) = Inr net"
    and "\<not> float_nonneg (lr_of a cfg) \<or> \<not> float_nonneg (model_decay cfg)"
  shows "main env a w = (Some ValueError, log_line (banner env a) w)"
  using assms by (auto simp: main_def prepare_def Adam_def Let_def)

lemma demo_negative_rate:
  "fst (main demo_env (demo_resume_args\<lparr>lr := Some (Finite (- 1))\<rparr>) demo_resume_world)
     = Some ValueError"
proof -
  let ?a = "demo_resume_args\<lparr>lr := Some (Finite (- 1))\<rparr>"
  have "main demo_env ?a demo_resume_world
      = (Some ValueError, log_line (banner demo_env ?a) demo_resume_world)"
  proof (rule adam_refusal_ends_main)
    show "load_config demo_env (config ?a) = Inr demo_config"
      by (simp add: demo_env_def demo_resume_args_def demo_args_def)
    show "model_name demo_config \<in> set (model_modules demo_env)"
      by (simp add: demo_env_def demo_config_def)
    show "model_new demo_env (''robosat_pink.models.'' @ model_name demo_config)
          (py_title (model_name demo_config)) (length (classes_titles demo_config))
          (num_channels_of demo_config) (model_encoder demo_config)
          (model_pretrained demo_config) = Inr 0"
      by (simp add: demo_env_def)
    show "\<not> float_nonneg (lr_of ?a demo_config) \<or> \<not> float_nonneg (model_decay demo_config)"
      by (simp add: lr_of_def float_nonneg_def float_truthy_def demo_resume_args_def)
  qed
  then show ?thesis by simp
qed

lemma main_prepare_Inl:
  "prepare env a w = Inl (e, w') \<Longrightarrow> main env a w = (Some e, w')"
  by (simp add: main_def)

lemma load_checkpoint_resume_ok:
  assumes "checkpoint a = Some p" "p \<noteq> []" "resume a" "files s p = Some chk"
    and "state_dict_fits env (state_dict s) (ck_state_dict chk)"
    and "optimizer_state_fits env (opt_state s) (ck_optimizer chk)"
  shows "fst (load_checkpoint env a s) = Inr (ck_epoch chk)"
  using assms by (simp add: load_checkpoint_def log_line_def Let_def)

lemma exit_status_error: "exit_status (Some e) \<noteq> 0"
  by (cases e) simp_all

section \<open>The resume guard\<close>

text \<open>
  Claim C1. Let the configuration load, let \<^verbatim>\<open>--resume\<close> be given with a
  checkpoint file that exists, and let the epoch stored in it be at least the number
  of epochs in force (\<^verbatim>\<open>--epochs\<close> or the configuration). Then \<^verbatim>\<open>main\<close> ends with
  an exception, so with a non-zero exit status; it has written no file and made no
  call other than those that load the checkpoint, so no pass has run; and when
  the steps before line 109 succeed (plugins found and built, optimizer built by
  \<^verbatim>\<open>Adam\<close> at line 83, checkpoint states accepted, loaders built), the exception is
  \<^verbatim>\<open>sys.exit\<close> with the message of line 110.
\<close>

theorem resume_guard:
  assumes "load_config env (config a) = Inr cfg"
    and "checkpoint a = Some p" and "p \<noteq> []" and "resume a" and "files w p = Some chk"
    and "num_epochs_of a cfg \<le> ck_epoch chk"
  shows "\<exists>e w' cs. main env a w = (Some e, w') \<and> exit_status (Some e) \<noteq> 0
       \<and> files w' = files w \<and> calls w' = calls w @ cs \<and> set cs \<subseteq> loading_calls
       \<and> (model_name cfg \<in> set (model_modules env)
            \<and> (\<exists>net. model_new env (''robosat_pink.models.'' @ model_name cfg)
                        (py_title (model_name cfg)) (length (classes_titles cfg))
                        (num_channels_of cfg) (model_encoder cfg) (model_pretrained cfg) = Inr net
                    \<and> state_dict_fits env net (ck_state_dict chk)
                    \<and> (\<exists>opt. Adam env net (lr_of a cfg) (model_decay cfg) = Inr opt
                           \<and> optimizer_state_fits env opt (ck_optimizer chk)))
            \<and> model_loss cfg \<in> set (loss_modules env)
            \<and> (\<exists>crit. loss_new env (''robosat_pink.losses.'' @ model_loss cfg)
                         (py_title (model_loss cfg)) = Inr crit)
            \<and> (\<exists>tld vld. get_dataset_loaders env (dataset_path_of a cfg) cfg (workers a)
                         = Inr (tld, vld))
          \<longrightarrow> e = SystemExit (''Error: Epoch '' @ str_int (num_epochs_of a cfg) @ '' set in ''
                   @ config a @ '' already reached by the checkpoint provided''))"
proof -
  let ?w1 = "log_line (banner env a) w"
  have never: "prepare env a w \<noteq> Inr (l, rv, s)" for l rv s
  proof
    assume "prepare env a w = Inr (l, rv, s)"
    from prepare_Inr[OF this] assms(1) obtain net opt s1 where
      lc: "load_checkpoint env a (new_session env ?w1 net opt) = (Inr rv, s1)"
      and lt: "rv < num_epochs_of a cfg"
      by auto
    have "files (new_session env ?w1 net opt) p = Some chk"
      using assms(5) by (simp add: new_session_def log_line_def)
    from load_checkpoint_resume[OF lc assms(2,3,4) this] have "rv = ck_epoch chk" by simp
    with lt assms(6) show False by simp
  qed
  then obtain e w' where pr: "prepare env a w = Inl (e, w')"
    by (cases "prepare env a w") auto
  from prepare_Inl[OF pr] obtain cs where
    fr: "files w' = files w" "calls w' = calls w @ cs" "set cs \<subseteq> loading_calls"
    by blast
  have msg: "e = SystemExit (''Error: Epoch '' @ str_int (num_epochs_of a cfg) @ '' set in ''
                   @ config a @ '' already reached by the checkpoint provided'')"
    if m: "model_name cfg \<in> set (model_modules env)"
      and n: "model_new env (''robosat_pink.models.'' @ model_name cfg)
                        (py_title (model_name cfg)) (length (classes_titles cfg))
                        (num_channels_of cfg) (model_encoder cfg) (model_pretrained cfg) = Inr net"
      and f1: "state_dict_fits env net (ck_state_dict chk)"
      and ad: "Adam env net (lr_of a cfg) (model_decay cfg) = Inr opt"
      and f2: "optimizer_state_fits env opt (ck_optimizer chk)"
      and lo: "model_loss cfg \<in> set (loss_modules env)"
      and ln: "loss_new env (''robosat_pink.losses.'' @ model_loss cfg) (py_title (model_loss cfg)) = Inr crit"
      and dl: "get_dataset_loaders env (dataset_path_of a cfg) cfg (workers a) = Inr (tld, vld)"
    for net opt crit tld vld
  proof -
    let ?s0 = "new_session env ?w1 net opt"
    have "fst (load_checkpoint env a ?s0) = Inr (ck_epoch chk)"
      by (rule load_checkpoint_resume_ok[OF assms(2,3,4)])
         (simp_all add: new_session_def log_line_def assms(5) f1 f2)
    then obtain s1 where lc: "load_checkpoint env a ?s0 = (Inr (ck_epoch chk), s1)"
      by (cases "load_checkpoint env a ?s0") auto
    from pr n ad lc ln dl show ?thesis
      by (simp add: prepare_def Let_def assms(1,6) m lo)
  qed
  have "main env a w = (Some e, w')"
    by (rule main_prepare_Inl[OF pr])
  with fr exit_status_error[of e] msg show ?thesis
    by blast
qed

theorem resume_guard_witness:
  "fst (main demo_env demo_resume_args demo_resume_world)
     = Some (SystemExit ''Error: Epoch 2 set in config.toml already reached by the checkpoint provided'')"
proof -
  have cfg: "load_config demo_env (config demo_resume_args) = Inr demo_config"
    by (simp add: demo_env_def demo_resume_args_def demo_args_def)
  have ck: "checkpoint demo_resume_args = Some ''ck.pth''" "''ck.pth'' \<noteq> []"
    "resume demo_resume_args"
    "files demo_resume_world ''ck.pth'' = Some \<lparr>ck_epoch = 2, ck_state_dict = 5, ck_optimizer = 3\<rparr>"
    by (simp_all add: demo_resume_args_def demo_resume_world_def)
  have n: "num_epochs_of demo_resume_args demo_config = 2"
    by (simp add: num_epochs_of_def demo_resume_args_def demo_args_def demo_config_def)
  have reached: "num_epochs_of demo_resume_args demo_config
      \<le> ck_epoch \<lparr>ck_epoch = 2, ck_state_dict = 5::nat, ck_optimizer = 3::nat\<rparr>"
    by (simp add: n)
  have good: "model_name demo_config \<in> set (model_modules demo_env)"
    "model_loss demo_config \<in> set (loss_modules demo_env)"
    "model_new demo_env m c nc nch enc pre = Inr 0"
    "state_dict_fits demo_env x y" "optimizer_state_fits demo_env u v"
    "loss_new demo_env lm lcl = Inr demo_criterion"
    for m c nc nch enc pre x y u v lm lcl
    by (simp_all add: demo_env_def demo_config_def)
  have dl: "get_dataset_loaders demo_env (dataset_path_of demo_resume_args demo_config) demo_config
      (workers demo_resume_args) = Inr (demo_train_loader, demo_val_loader)"
    using demo_loaders
    by (simp add: dataset_path_of_def demo_resume_args_def demo_args_def demo_config_def)
  have two: "str_int 2 = ''2''"
    by code_simp
  have c: "config demo_resume_args = ''config.toml''"
    by (simp add: demo_resume_args_def demo_args_def)
  have ad: "Adam demo_env 0 (lr_of demo_resume_args demo_config) (model_decay demo_config) = Inr 0"
    by (simp add: Adam_def float_nonneg_def lr_of_def demo_resume_args_def demo_args_def
        demo_config_def demo_env_def)
  from resume_guard [OF cfg ck reached]
  have "fst (main demo_env demo_resume_args demo_resume_world)
      = Some (SystemExit (''Error: Epoch '' @ str_int (num_epochs_of demo_resume_args demo_config)
           @ '' set in '' @ config demo_resume_args @ '' already reached by the checkpoint provided''))"
    by (auto simp: good ad dl)
  then show ?thesis
    by (simp add: n two c)
qed

section \<open>Unknown plugins\<close>

lemma sublist_join_with: "x \<in> set xs \<Longrightarrow> sublist x (join_with sep xs)"
proof (induction sep xs rule: join_with.induct)
  case (1 sep)
  then show ?case by simp
next
  case (2 sep y)
  then show ?case by simp
next
  case (3 sep y z zs)
  show ?case
  proof (cases "x = y")
    case True
    then show ?thesis by simp
  next
    case False
    with "3.prems" have "x \<in> set (z # zs)" by simp
    from "3.IH"[OF this] obtain ps ss where "join_with sep (z # zs) = ps @ x @ ss"
      by (auto simp: sublist_def)
    then have "join_with sep (y # z # zs) = (y @ sep @ ps) @ x @ ss"
      by simp
    then show ?thesis
      unfolding sublist_def by blast
  qed
qed

lemma name_listed:
  assumes "n \<in> set names"
  shows "sublist (py_repr n) (msg @ py_repr_list names)"
proof -
  from assms have "py_repr n \<in> set (map py_repr names)" by simp
  from sublist_join_with[OF this, of "'', ''"] obtain ps ss where
    "join_with '', '' (map py_repr names) = ps @ py_repr n @ ss"
    by (auto simp: sublist_def)
  then have "msg @ py_repr_list names = (msg @ ''['' @ ps) @ py_repr n @ (ss @ '']'')"
    by (simp add: py_repr_list_def)
  then show ?thesis
    unfolding sublist_def by blast
qed

text \<open>
  Claim C4. Let the configuration load. If the model name is not among the installed
  model modules, \<^verbatim>\<open>main\<close> ends with \<^verbatim>\<open>sys.exit\<close> and the message of line 75, in
  which every installed name is displayed; if the model is found and built, \<^verbatim>\<open>Adam\<close>
  builds the optimizer at line 83 (it raises \<^verbatim>\<open>ValueError\<close> on a negative learning
  rate or weight decay) and the checkpoint step passes, but the loss name is not
  among the installed loss modules,
  \<^verbatim>\<open>main\<close> ends with \<^verbatim>\<open>sys.exit\<close> and the message of line 102, likewise. In
  both cases, and whatever else fails first, the exit status is not zero, no file is
  written and no call of a pass is made. The loop over the epochs is reached only
  when both names are found.
\<close>

theorem unknown_plugin_exits:
  assumes "load_config env (config a) = Inr cfg"
  shows
    "(model_name cfg \<notin> set (model_modules env) \<longrightarrow>
        main env a w =
          (Some (SystemExit (''Unknown model, thoses available are ''
                   @ py_repr_list (model_modules env))),
           log_line (banner env a) w)
      \<and> (\<forall>n \<in> set (model_modules env).
            sublist (py_repr n)
              (''Unknown model, thoses available are '' @ py_repr_list (model_modules env))))
     \<and> (model_name cfg \<in> set (model_modules env)
        \<and> model_new env (''robosat_pink.models.'' @ model_name cfg) (py_title (model_name cfg))
             (length (classes_titles cfg)) (num_channels_of cfg) (model_encoder cfg)
             (model_pretrained cfg) = Inr net
        \<and> Adam env net (lr_of a cfg) (model_decay cfg) = Inr opt
        \<and> load_checkpoint env a (new_session env (log_line (banner env a) w) net opt)
             = (Inr rv, s1)
        \<and> model_loss cfg \<notin> set (loss_modules env) \<longrightarrow>
        main env a w =
          (Some (SystemExit (''Unknown loss, thoses available are ''
                   @ py_repr_list (loss_modules env))),
           world_of s1)
      \<and> (\<forall>n \<in> set (loss_modules env).
            sublist (py_repr n)
              (''Unknown loss, thoses available are '' @ py_repr_list (loss_modules env))))
     \<and> (model_name cfg \<notin> set (model_modules env) \<or> model_loss cfg \<notin> set (loss_modules env) \<longrightarrow>
        (\<exists>e w' cs. main env a w = (Some e, w') \<and> exit_status (Some e) \<noteq> 0
           \<and> files w' = files w \<and> calls w' = calls w @ cs \<and> set cs \<subseteq> loading_calls))
     \<and> (\<forall>l r s. prepare env a w = Inr (l, r, s) \<longrightarrow>
          model_name cfg \<in> set (model_modules env) \<and> model_loss cfg \<in> set (loss_modules env))"
proof (intro conjI impI allI)
  assume "model_name cfg \<notin> set (model_modules env)"
  with assms show "main env a w =
          (Some (SystemExit (''Unknown model, thoses available are ''
                   @ py_repr_list (model_modules env))),
           log_line (banner env a) w)"
    by (simp add: main_def prepare_def Let_def)
next
  show "\<forall>n \<in> set (model_modules env).
            sublist (py_repr n)
              (''Unknown model, thoses available are '' @ py_repr_list (model_modules env))"
    using name_listed by blast
next
  assume h: "model_name cfg \<in> set (model_modules env)
        \<and> model_new env (''robosat_pink.models.'' @ model_name cfg) (py_title (model_name cfg))
             (length (classes_titles cfg)) (num_channels_of cfg) (model_encoder cfg)
             (model_pretrained cfg) = Inr net
        \<and> Adam env net (lr_of a cfg) (model_decay cfg) = Inr opt
        \<and> load_checkpoint env a (new_session env (log_line (banner env a) w) net opt)
             = (Inr rv, s1)
        \<and> model_loss cfg \<notin> set (loss_modules env)"
  with assms show "main env a w =
          (Some (SystemExit (''Unknown loss, thoses available are ''
                   @ py_repr_list (loss_modules env))),
           world_of s1)"
    by (simp add: main_def prepare_def Let_def)
next
  show "\<forall>n \<in> set (loss_modules env).
            sublist (py_repr n)
              (''Unknown loss, thoses available are '' @ py_repr_list (loss_modules env))"
    using name_listed by blast
next
  assume bad: "model_name cfg \<notin> set (model_modules env) \<or> model_loss cfg \<notin> set (loss_modules env)"
  have "prepare env a w \<noteq> Inr (l, r, s)" for l r s
    using prepare_Inr[of env a w l r s] assms bad by auto
  then obtain e w' where pr: "prepare env a w = Inl (e, w')"
    by (cases "prepare env a w") auto
  from prepare_Inl[OF pr] main_prepare_Inl[OF pr] exit_status_error[of e]
  show "\<exists>e w' cs. main env a w = (Some e, w') \<and> exit_status (Some e) \<noteq> 0
           \<and> files w' = files w \<and> calls w' = calls w @ cs \<and> set cs \<subseteq> loading_calls"
    by blast
next
  fix l r s
  assume "prepare env a w = Inr (l, r, s)"
  from prepare_Inr[OF this] assms
  show "model_name cfg \<in> set (model_modules env)" by auto
next
  fix l r s
  assume "prepare env a w = Inr (l, r, s)"
  from prepare_Inr[OF this] assms
  show "model_loss cfg \<in> set (loss_modules env)" by auto
qed

theorem unknown_plugin_exits_witness:
  "fst (main demo_env (demo_args\<lparr>config := ''other-model.toml''\<rparr>) demo_world)
     = Some (SystemExit (''Unknown model, thoses available are '' @ py_repr_list [''albunet'', ''fpn'']))
   \<and> fst (main demo_env (demo_args\<lparr>config := ''other-loss.toml''\<rparr>) demo_world)
     = Some (SystemExit (''Unknown loss, thoses available are '' @ py_repr_list [''lovasz'']))"
proof -
  let ?am = "demo_args\<lparr>config := ''other-model.toml''\<rparr>"
  let ?al = "demo_args\<lparr>config := ''other-loss.toml''\<rparr>"
  let ?cm = "demo_config\<lparr>model_name := ''unet''\<rparr>"
  let ?cl = "demo_config\<lparr>model_loss := ''dice''\<rparr>"
  have cm: "load_config demo_env (config ?am) = Inr ?cm"
    by (simp add: demo_env_def)
  have cl: "load_config demo_env (config ?al) = Inr ?cl"
    by (simp add: demo_env_def)
  have mods: "model_modules demo_env = [''albunet'', ''fpn'']" "loss_modules demo_env = [''lovasz'']"
    by (simp_all add: demo_env_def)
  have bad_model: "model_name ?cm \<notin> set (model_modules demo_env)"
    by (simp add: mods)
  have ok_model: "model_name ?cl \<in> set (model_modules demo_env)"
    by (simp add: mods demo_config_def)
  have bad_loss: "model_loss ?cl \<notin> set (loss_modules demo_env)"
    by (simp add: mods)
  have net: "model_new demo_env m c nc nch enc pre = Inr 0" for m c nc nch enc pre
    by (simp add: demo_env_def)
  have ad: "Adam demo_env 0 (lr_of ?al ?cl) (model_decay ?cl) = Inr 0"
    by (simp add: Adam_def float_nonneg_def lr_of_def demo_args_def demo_config_def demo_env_def)
  have lc: "load_checkpoint demo_env ?al s = (Inr 0, s)" for s :: "(nat, nat, nat) session"
    by (simp add: load_checkpoint_def demo_args_def)
  from unknown_plugin_exits [OF cm, THEN conjunct1, rule_format, OF bad_model, THEN conjunct1]
  have a: "fst (main demo_env ?am demo_world)
      = Some (SystemExit (''Unknown model, thoses available are '' @ py_repr_list [''albunet'', ''fpn'']))"
    by (simp add: mods)
  from unknown_plugin_exits [OF cl, THEN conjunct2, THEN conjunct1, rule_format,
      OF conjI [OF ok_model conjI [OF net conjI [OF ad conjI [OF lc bad_loss]]]], THEN conjunct1]
  have b: "fst (main demo_env ?al demo_world)
      = Some (SystemExit (''Unknown loss, thoses available are '' @ py_repr_list [''lovasz'']))"
    by (simp add: mods)
  from a b show ?thesis by simp
qed

section \<open>A checkpoint without \<^verbatim>\<open>--resume\<close>\<close>

subsection \<open>The calls of a run\<close>

lemma chunks_length_cong:
  "length xs = length ys \<Longrightarrow> length (chunks n d xs) = length (chunks n d ys)"
proof (induction n d xs arbitrary: ys rule: chunks.induct)
  case (1 n d xs)
  show ?case
  proof (cases "n = 0 \<or> length xs < n")
    case True
    with "1.prems" show ?thesis
      by (auto simp: chunks.simps[of n d xs] chunks.simps[of n d ys])
  next
    case False
    with "1.prems" have "length (drop n xs) = length (drop n ys)" by simp
    from "1.IH"[OF _ _ this] False
    have "length (chunks n d (drop n xs)) = length (chunks n d (drop n ys))" by simp
    with False "1.prems" show ?thesis
      by (simp add: chunks.simps[of n d xs] chunks.simps[of n d ys])
  qed
qed

lemma loader_iter_length:
  assumes "loader_iter env ld s = (items, s')"
  shows "length items = num_batches ld"
proof -
  have "length (chunks n d (shuffle_with rs xs)) = length (chunks n d xs)"
    for n d rs and xs :: "'a sample list"
    by (rule chunks_length_cong) (rule length_shuffle_with)
  with assms show ?thesis
    by (auto simp: loader_iter_def num_batches_def Let_def split: if_splits)
qed

lemma num_batches_drop_last:
  "dl_drop_last ld \<Longrightarrow> 0 < dl_batch_size ld
     \<Longrightarrow> num_batches ld = length (ds_samples (dl_dataset ld)) div nat (dl_batch_size ld)"
  by (simp add: num_batches_def length_chunks)

lemma train_batch_calls:
  "train_batch env nc crit b acc s = (None, acc', s')
     \<Longrightarrow> calls s' = calls s @ [ZeroGrad, Forward True, Backward, OptimizerStep]"
  by (cases b; cases acc)
     (auto simp: train_batch_def Let_def split: if_splits list.splits sum.splits prod.splits)

lemma train_loop_calls:
  "train_loop env nc crit items acc s = (None, acc', s')
     \<Longrightarrow> calls s' = calls s
           @ concat (replicate (length items) [ZeroGrad, Forward True, Backward, OptimizerStep])"
proof (induction items arbitrary: acc s)
  case Nil
  then show ?case by simp
next
  case (Cons item rest)
  show ?case
  proof (cases item)
    case (Inl e)
    with Cons.prems show ?thesis by simp
  next
    case (Inr b)
    obtain r1 acc1 s1 where tb: "train_batch env nc crit b acc s = (r1, acc1, s1)"
      by (metis prod_cases3)
    show ?thesis
    proof (cases r1)
      case (Some e)
      with Cons.prems Inr tb show ?thesis by simp
    next
      case None
      with Cons.prems Inr tb have "train_loop env nc crit rest acc1 s1 = (None, acc', s')"
        by simp
      from Cons.IH[OF this] train_batch_calls[OF tb[unfolded None]] show ?thesis by simp
    qed
  qed
qed

lemma train_calls:
  assumes "train env ld nc dev crit s = (Inr h, s')"
  shows "calls s' = calls s
           @ NetTrain # concat (replicate (num_batches ld)
                                  [ZeroGrad, Forward True, Backward, OptimizerStep])"
proof -
  let ?s1 = "s\<lparr>training := True, calls := calls s @ [NetTrain]\<rparr>"
  obtain items s2 where it: "loader_iter env ld ?s1 = (items, s2)"
    by (cases "loader_iter env ld ?s1") auto
  obtain err n rl m s3 where
    lp: "train_loop env nc crit items (0, 0, metrics_new env) s2 = (err, (n, rl, m), s3)"
    by (metis prod_cases3)
  from train_result[OF it lp, of dev] assms have e: "err = None" and s3: "s' = s3"
    by (auto split: option.splits if_splits)
  from train_loop_calls[OF lp[unfolded e]] loader_iter_frame[OF it] loader_iter_length[OF it] s3
  show ?thesis by simp
qed

lemma validate_batch_calls:
  "validate_batch env nc crit b acc s = (None, acc', s')
     \<Longrightarrow> calls s' = calls s @ [Forward False]"
  by (cases b; cases acc)
     (auto simp: validate_batch_def Let_def split: if_splits list.splits sum.splits prod.splits)

lemma validate_loop_calls:
  "validate_loop env nc crit items acc s = (None, acc', s')
     \<Longrightarrow> calls s' = calls s @ replicate (length items) (Forward False)"
proof (induction items arbitrary: acc s)
  case Nil
  then show ?case by simp
next
  case (Cons item rest)
  show ?case
  proof (cases item)
    case (Inl e)
    with Cons.prems show ?thesis by simp
  next
    case (Inr b)
    obtain r1 acc1 s1 where tb: "validate_batch env nc crit b acc s = (r1, acc1, s1)"
      by (metis prod_cases3)
    show ?thesis
    proof (cases r1)
      case (Some e)
      with Cons.prems Inr tb show ?thesis by simp
    next
      case None
      with Cons.prems Inr tb have "validate_loop env nc crit rest acc1 s1 = (None, acc', s')"
        by simp
      from Cons.IH[OF this] validate_batch_calls[OF tb[unfolded None]] show ?thesis
        by (simp add: replicate_append_same)
    qed
  qed
qed

lemma validate_calls:
  assumes "validate env ld nc dev crit s = (Inr h, s')"
  shows "calls s' = calls s @ NetEval # replicate (num_batches ld) (Forward False)"
proof -
  let ?s1 = "s\<lparr>training := False, calls := calls s @ [NetEval]\<rparr>"
  obtain items s2 where it: "loader_iter env ld ?s1 = (items, s2)"
    by (cases "loader_iter env ld ?s1") auto
  obtain err n rl m s3 where
    lp: "validate_loop env nc crit items (0, 0, metrics_new env) s2 = (err, (n, rl, m), s3)"
    by (metis prod_cases3)
  from validate_result[OF it lp, of dev] assms have e: "err = None" and s3: "s' = s3"
    by (auto split: option.splits if_splits)
  from validate_loop_calls[OF lp[unfolded e]] loader_iter_frame[OF it] loader_iter_length[OF it] s3
  show ?thesis by simp
qed

lemma epoch_body_calls:
  assumes "epoch_body env l e s = (None, s')"
  shows "calls s' = calls s @ epoch_calls l e"
proof -
  from assms have "\<exists>s'. epoch_body env l e s = (None, s')" by blast
  then obtain th s3 vh s5 where
    t: "train env (lc_train_loader l) (lc_num_classes l) (lc_device l) (lc_criterion l)
        (log_line (''Epoch: '' @ str_int (e + 1) @ ''/'' @ str_int (lc_num_epochs l))
           (log_line ''---'' s)) = (Inr th, s3)"
    and ti: "2 \<le> length (classes_titles (lc_config l))"
    and v: "validate env (lc_val_loader l) (lc_num_classes l) (lc_device l) (lc_criterion l)
        (log_line (stats_line env ''Train   '' th (classes_titles (lc_config l) ! 1)) s3)
        = (Inr vh, s5)"
    by (auto simp: epoch_body_def Let_def split: prod.splits sum.splits if_splits)
  from train_calls[OF t] have c3: "calls s3 = calls s
      @ NetTrain # concat (replicate (num_batches (lc_train_loader l))
                            [ZeroGrad, Forward True, Backward, OptimizerStep])"
    by (simp add: log_line_def)
  from validate_calls[OF v] have c5: "calls s5 = calls s3
      @ NetEval # replicate (num_batches (lc_val_loader l)) (Forward False)"
    by (simp add: log_line_def)
  from assms t ti v have "calls s' = calls s5
      @ [TorchSave (checkpoint_path (out (lc_args l)) (e + 1) (lc_num_epochs l))]"
    by (auto simp: epoch_body_def Let_def log_line_def)
  with c3 c5 show ?thesis
    by (simp add: epoch_calls_def)
qed

lemma run_epochs_calls:
  "run_epochs env l es s = (None, s')
     \<Longrightarrow> calls s' = calls s @ concat (map (epoch_calls l) es)"
proof (induction es arbitrary: s)
  case Nil
  then show ?case by simp
next
  case (Cons e rest)
  obtain r1 s1 where eb: "epoch_body env l e s = (r1, s1)"
    by (metis surj_pair)
  from Cons.prems eb have r1: "r1 = None"
    by (cases r1) auto
  with Cons.prems eb have "run_epochs env l rest s1 = (None, s')" by simp
  from Cons.IH[OF this] epoch_body_calls[OF eb[unfolded r1]] show ?case by simp
qed

lemma run_epochs_error:
  "run_epochs env l es s = (Some x, s')
     \<Longrightarrow> \<exists>pre k post sk. es = pre @ k # post \<and> run_epochs env l pre s = (None, sk)
           \<and> epoch_body env l k sk = (Some x, s')"
proof (induction es arbitrary: s)
  case Nil
  then show ?case by simp
next
  case (Cons e rest)
  obtain r1 s1 where eb: "epoch_body env l e s = (r1, s1)"
    by (metis surj_pair)
  show ?case
  proof (cases r1)
    case (Some y)
    with Cons.prems eb have "epoch_body env l e s = (Some x, s')" by simp
    then have "e # rest = [] @ e # rest \<and> run_epochs env l [] s = (None, s)
        \<and> epoch_body env l e s = (Some x, s')"
      by simp
    then show ?thesis by blast
  next
    case None
    with Cons.prems eb have "run_epochs env l rest s1 = (Some x, s')" by simp
    from Cons.IH[OF this] obtain pre k post sk where
      r: "rest = pre @ k # post" "run_epochs env l pre s1 = (None, sk)"
         "epoch_body env l k sk = (Some x, s')"
      by blast
    from r(2) eb None have "run_epochs env l (e # pre) s = (None, sk)" by simp
    with r(1,3) have "e # rest = (e # pre) @ k # post \<and> run_epochs env l (e # pre) s = (None, sk)
        \<and> epoch_body env l k sk = (Some x, s')"
      by simp
    then show ?thesis by blast
  qed
qed

lemma run_epochs_checkpoints:
  "run_epochs env l es s = (None, s') \<Longrightarrow> distinct es
     \<Longrightarrow> \<forall>e \<in> set es. \<exists>chk.
            files s' (checkpoint_path (out (lc_args l)) (e + 1) (lc_num_epochs l)) = Some chk
          \<and> ck_epoch chk = e + 1"
proof (induction es arbitrary: s)
  case Nil
  then show ?case by simp
next
  case (Cons e rest)
  obtain r1 s1 where eb: "epoch_body env l e s = (r1, s1)"
    by (metis surj_pair)
  from Cons.prems eb have r1: "r1 = None"
    by (cases r1) auto
  with Cons.prems eb have run: "run_epochs env l rest s1 = (None, s')" by simp
  let ?p = "checkpoint_path (out (lc_args l)) (e + 1) (lc_num_epochs l)"
  have "\<forall>e' \<in> set rest. checkpoint_path (out (lc_args l)) (e' + 1) (lc_num_epochs l) \<noteq> ?p"
  proof
    fix e'
    assume "e' \<in> set rest"
    with Cons.prems(2) have "e' \<noteq> e" by auto
    then show "checkpoint_path (out (lc_args l)) (e' + 1) (lc_num_epochs l) \<noteq> ?p"
      using checkpoint_path_inj[of "out (lc_args l)" "e' + 1" "lc_num_epochs l" "e + 1"] by auto
  qed
  from run_epochs_keeps[OF run this] epoch_body_files[OF eb] r1
  have here: "\<exists>chk. files s' ?p = Some chk \<and> ck_epoch chk = e + 1"
    by simp
  from Cons.IH[OF run] Cons.prems(2) here show ?case by simp
qed

lemma upto_split:
  "[i..j] = pre @ k # post \<Longrightarrow> pre = [i..k - 1] \<and> i \<le> k \<and> k \<le> j"
proof (induction pre arbitrary: i)
  case Nil
  then have "i \<le> j" by (cases "i \<le> j") auto
  with Nil show ?case by (simp add: upto_rec1)
next
  case (Cons p ps)
  then have ij: "i \<le> j" by (cases "i \<le> j") auto
  then have "[i..j] = i # [i + 1..j]"
    by (rule upto_rec1)
  with Cons.prems have "i # [i + 1..j] = p # (ps @ k # post)"
    by (metis append_Cons)
  then have p: "p = i" and rest: "[i + 1..j] = ps @ k # post"
    by (blast, blast)
  from Cons.IH[OF rest] have ps: "ps = [i + 1..k - 1]" and b: "i + 1 \<le> k" "k \<le> j"
    by simp_all
  from b have "[i..k - 1] = i # [i + 1..k - 1]"
    by (simp add: upto_rec1)
  with p ps b show ?case by simp
qed


lemma main_completes:
  assumes "prepare env a w = Inr (l, rv, s)" and "main env a w = (None, w')"
  shows "\<exists>s'. run_epochs env l [rv..lc_num_epochs l - 1] s = (None, s') \<and> w' = world_of s'"
  using assms by (auto simp: main_def split: prod.splits)

lemma main_stops_in_an_epoch:
  assumes "prepare env a w = Inr (l, rv, s)" and "main env a w = (Some x, w')"
  shows "\<exists>k sk s'. rv \<le> k \<and> k < lc_num_epochs l
       \<and> run_epochs env l [rv..k - 1] s = (None, sk)
       \<and> calls sk = calls s @ concat (map (epoch_calls l) [rv..k - 1])
       \<and> epoch_body env l k sk = (Some x, s') \<and> w' = world_of s'"
proof -
  from assms obtain s' where
    run: "run_epochs env l [rv..lc_num_epochs l - 1] s = (Some x, s')" and w': "w' = world_of s'"
    by (auto simp: main_def split: prod.splits)
  from run_epochs_error[OF run] obtain pre k post sk where
    sp: "[rv..lc_num_epochs l - 1] = pre @ k # post"
    and pre: "run_epochs env l pre s = (None, sk)"
    and eb: "epoch_body env l k sk = (Some x, s')"
    by blast
  from upto_split[OF sp] have p: "pre = [rv..k - 1]" and b: "rv \<le> k" "k < lc_num_epochs l"
    by simp_all
  from run_epochs_calls[OF pre] p
  have "calls sk = calls s @ concat (map (epoch_calls l) [rv..k - 1])" by simp
  with pre p b eb w' show ?thesis by blast
qed

text \<open>
  Claim C10. Let a checkpoint be given without \<^verbatim>\<open>--resume\<close> and let the
  preparation succeed. Then \<^verbatim>\<open>resume\<close> is 0; the network's state is the one
  stored in the checkpoint file; the optimizer's state is the one that \<^verbatim>\<open>Adam\<close>
  built at line 83, and the only calls made before the loop are \<^verbatim>\<open>torch.load\<close> and
  the network's \<^verbatim>\<open>load_state_dict\<close>, so the optimizer's \<^verbatim>\<open>load_state_dict\<close> is not
  called. The loop then starts at epoch 0: when \<^verbatim>\<open>main\<close> ends without an exception,
  the calls it made after the loading are those of the epochs \<open>0, \<dots>, num_epochs - 1\<close>
  in this order, all \<open>num_epochs\<close> of them, each one a training pass over all batches
  of the training loader, a validation pass over all batches of the validation loader
  and the saving of the checkpoint of the epoch; and for every one of these epochs the
  checkpoint file is there at the end, with its epoch number.
\<close>

theorem retrain_from_weights:
  assumes "checkpoint a = Some p" and "p \<noteq> []" and "\<not> resume a"
    and "prepare env a w = Inr (l, rv, s)"
  shows "rv = 0
     \<and> (\<exists>chk. files w p = Some chk \<and> state_dict s = ck_state_dict chk)
     \<and> (\<exists>net. model_new env (''robosat_pink.models.'' @ model_name (lc_config l))
                  (py_title (model_name (lc_config l))) (length (classes_titles (lc_config l)))
                  (num_channels_of (lc_config l)) (model_encoder (lc_config l))
                  (model_pretrained (lc_config l)) = Inr net
              \<and> Adam env net (lc_lr l) (model_decay (lc_config l)) = Inr (opt_state s))
     \<and> calls s = calls w @ [TorchLoad p, LoadStateDict]
     \<and> 0 < lc_num_epochs l
     \<and> length [0..lc_num_epochs l - 1] = nat (lc_num_epochs l)
     \<and> (\<forall>w'. main env a w = (None, w') \<longrightarrow>
           calls w' = calls w @ [TorchLoad p, LoadStateDict]
                        @ concat (map (epoch_calls l) [0..lc_num_epochs l - 1])
         \<and> (\<forall>e \<in> set [0..lc_num_epochs l - 1].
               \<exists>chk. files w' (checkpoint_path (out a) (e + 1) (lc_num_epochs l)) = Some chk
                   \<and> ck_epoch chk = e + 1))"
proof -
  from prepare_Inr[OF assms(4)] obtain cfg net opt s1 crit tld vld where
    n: "model_new env (''robosat_pink.models.'' @ model_name cfg) (py_title (model_name cfg))
          (length (classes_titles cfg)) (num_channels_of cfg) (model_encoder cfg)
          (model_pretrained cfg) = Inr net"
    and ad: "Adam env net (lr_of a cfg) (model_decay cfg) = Inr opt"
    and lc: "load_checkpoint env a (new_session env (log_line (banner env a) w) net opt)
          = (Inr rv, s1)"
    and lt: "rv < num_epochs_of a cfg"
    and l: "l = \<lparr>lc_config = cfg, lc_args = a, lc_lr = lr_of a cfg,
             lc_dataset_path = dataset_path_of a cfg, lc_num_epochs = num_epochs_of a cfg,
             lc_num_classes = length (classes_titles cfg), lc_device = device_of env,
             lc_criterion = crit, lc_train_loader = tld, lc_val_loader = vld\<rparr>"
    and s: "s = s1\<lparr>log_lines := log_lines s1 @ header_lines env l\<rparr>"
    by blast
  note r = load_checkpoint_retrain[OF lc assms(1,2,3)]
  from r have rv: "rv = 0" by simp
  from r have sd: "\<exists>chk. files w p = Some chk \<and> state_dict s = ck_state_dict chk"
    by (simp add: s new_session_def log_line_def)
  from r have opt: "opt_state s = opt"
    by (simp add: s new_session_def)
  from r have cl: "calls s = calls w @ [TorchLoad p, LoadStateDict]"
    by (simp add: s new_session_def log_line_def)
  from lt rv have pos: "0 < lc_num_epochs l"
    by (simp add: l)
  have len: "length [0..lc_num_epochs l - 1] = nat (lc_num_epochs l)"
    using pos by simp
  have la: "lc_args l = a"
    by (simp add: l)
  have run: "calls w' = calls w @ [TorchLoad p, LoadStateDict]
                        @ concat (map (epoch_calls l) [0..lc_num_epochs l - 1])
         \<and> (\<forall>e \<in> set [0..lc_num_epochs l - 1].
               \<exists>chk. files w' (checkpoint_path (out a) (e + 1) (lc_num_epochs l)) = Some chk
                   \<and> ck_epoch chk = e + 1)"
    if m: "main env a w = (None, w')" for w'
  proof -
    from main_completes[OF assms(4) m] rv obtain s' where
      re: "run_epochs env l [0..lc_num_epochs l - 1] s = (None, s')" and w': "w' = world_of s'"
      by auto
    from run_epochs_calls[OF re] cl w'
    have c: "calls w' = calls w @ [TorchLoad p, LoadStateDict]
                        @ concat (map (epoch_calls l) [0..lc_num_epochs l - 1])"
      by (simp add: world_of_def)
    from run_epochs_checkpoints[OF re] w' la
    have "\<forall>e \<in> set [0..lc_num_epochs l - 1].
               \<exists>chk. files w' (checkpoint_path (out a) (e + 1) (lc_num_epochs l)) = Some chk
                   \<and> ck_epoch chk = e + 1"
      by (simp add: world_of_def)
    with c show ?thesis by simp
  qed
  from n ad opt have "\<exists>net. model_new env (''robosat_pink.models.'' @ model_name (lc_config l))
                  (py_title (model_name (lc_config l))) (length (classes_titles (lc_config l)))
                  (num_channels_of (lc_config l)) (model_encoder (lc_config l))
                  (model_pretrained (lc_config l)) = Inr net
              \<and> Adam env net (lc_lr l) (model_decay (lc_config l)) = Inr (opt_state s)"
    by (auto simp: l)
  with rv sd cl pos len run show ?thesis
    by blast
qed

subsection \<open>The concrete run with a checkpoint\<close>

lemma demo_train_items_shape:
  "\<exists>x y ts. loader_iter demo_env demo_train_loader s =
     ([Inr (Tensor [2, 3, 4, 4] x, Tensor [2, 4, 4] y, ts)], s\<lparr>rng := Suc (rng s)\<rparr>)"
proof -
  have a: "rng s mod Suc (Suc (Suc 0)) = 0 \<or> rng s mod Suc (Suc (Suc 0)) = Suc 0
      \<or> rng s mod Suc (Suc (Suc 0)) = Suc (Suc 0)"
    by arith
  have b: "Suc (rng s) mod Suc (Suc 0) = 0 \<or> Suc (rng s) mod Suc (Suc 0) = Suc 0"
    by arith
  from a b show ?thesis
    by (elim disjE)
       (simp_all add: loader_iter_def demo_train_loader_def demo_env_def demo_dataset_def
          chunks.simps shuffle_with.simps collate_def stack_def demo_sample_def Let_def)
qed

lemma demo_train_batch_shape:
  "train_batch demo_env 2 demo_criterion (Tensor [2, 3, 4, 4] x, Tensor [2, 4, 4] y, ts) (0, 0, 0) s
   = (None, (2, 1 / 2, 2),
      s\<lparr>calls := calls s @ [ZeroGrad, Forward True, Backward, OptimizerStep],
        state_dict := (if training s then state_dict s + 1 else state_dict s) + 1,
        grads := 1, opt_state := opt_state s + 1\<rparr>)"
  by (simp add: train_batch_def demo_env_def demo_forward_def demo_criterion_def
      zip_rows_def rows_def Let_def upt_conv_Cons)

lemma demo_train_returns:
  "\<exists>h. fst (train demo_env demo_train_loader 2 dev demo_criterion s) = Inr h"
proof -
  let ?s1 = "s\<lparr>training := True, calls := calls s @ [NetTrain]\<rparr>"
  from demo_train_items_shape[of ?s1] obtain x y ts where
    it: "loader_iter demo_env demo_train_loader ?s1 =
     ([Inr (Tensor [2, 3, 4, 4] x, Tensor [2, 4, 4] y, ts)], ?s1\<lparr>rng := Suc (rng ?s1)\<rparr>)"
    by blast
  let ?b = "(Tensor [2, 3, 4, 4] x, Tensor [2, 4, 4] y, ts)"
  have lp: "train_loop demo_env 2 demo_criterion [Inr ?b] (0, 0, metrics_new demo_env)
        (?s1\<lparr>rng := Suc (rng ?s1)\<rparr>)
      = (None, (2, 1 / 2, 2),
         snd (snd (train_batch demo_env 2 demo_criterion ?b (0, 0, 0) (?s1\<lparr>rng := Suc (rng ?s1)\<rparr>))))"
    by (simp add: demo_metrics_new demo_train_batch_shape)
  from train_result[OF it lp, of dev] show ?thesis
    by simp
qed

lemma demo_epoch_completes:
  assumes "lc_config l = demo_config" and "lc_num_classes l = 2"
    and "lc_criterion l = demo_criterion"
    and "lc_train_loader l = demo_train_loader" and "lc_val_loader l = demo_val_loader"
  shows "fst (epoch_body demo_env l e s) = None"
proof -
  let ?s2 = "log_line (''Epoch: '' @ str_int (e + 1) @ ''/'' @ str_int (lc_num_epochs l))
               (log_line ''---'' s)"
  obtain tr s3 where
    t: "train demo_env demo_train_loader 2 (lc_device l) demo_criterion ?s2 = (tr, s3)"
    by (metis surj_pair)
  with demo_train_returns[of "lc_device l" ?s2] obtain th where tr: "tr = Inr th"
    by auto
  let ?s4 = "log_line (stats_line demo_env ''Train   '' th (classes_titles demo_config ! 1)) s3"
  obtain vr s5 where
    v: "validate demo_env demo_val_loader 2 (lc_device l) demo_criterion ?s4 = (vr, s5)"
    by (metis surj_pair)
  with demo_validate_ok[of "lc_device l" ?s4]
  have vr: "vr = Inr \<lparr>loss = 1 / 4, miou = 1, fg_iou = 1, mcc = 1\<rparr>"
    by simp
  have titles: "\<not> length (classes_titles demo_config) < 2"
    by (simp add: demo_config_def)
  show ?thesis
    using t v titles unfolding tr vr
    by (simp add: epoch_body_def assms Let_def)
qed

lemma demo_run_completes:
  assumes "lc_config l = demo_config" and "lc_num_classes l = 2"
    and "lc_criterion l = demo_criterion"
    and "lc_train_loader l = demo_train_loader" and "lc_val_loader l = demo_val_loader"
  shows "fst (run_epochs demo_env l es s) = None"
proof (induction es arbitrary: s)
  case Nil
  show ?case by simp
next
  case (Cons e rest)
  from demo_epoch_completes[OF assms, of e s]
  obtain s1 where "epoch_body demo_env l e s = (None, s1)"
    by (metis prod.collapse)
  with Cons.IH[of s1] show ?case by simp
qed

lemma demo_num_batches: "num_batches demo_train_loader = 1" "num_batches demo_val_loader = 1"
  by (simp_all add: num_batches_def demo_train_loader_def demo_val_loader_def demo_dataset_def
      chunks.simps)

lemma demo_retrain_prepare:
  "\<exists>s. prepare demo_env demo_retrain_args demo_resume_world
          = Inr (demo_locals\<lparr>lc_args := demo_retrain_args\<rparr>, 0, s)"
proof -
  have cfg: "load_config demo_env (config demo_retrain_args) = Inr demo_config"
    by (simp add: demo_env_def demo_retrain_args_def demo_args_def)
  have good: "model_name demo_config \<in> set (model_modules demo_env)"
    "model_loss demo_config \<in> set (loss_modules demo_env)"
    "model_new demo_env m c nc nch enc pre = Inr 0"
    "loss_new demo_env lm lcl = Inr demo_criterion"
    for m c nc nch enc pre lm lcl
    by (simp_all add: demo_env_def demo_config_def)
  have lrv: "lr_of demo_retrain_args demo_config = Finite (1 / 1000)"
    by (simp add: lr_of_def demo_retrain_args_def demo_args_def demo_config_def)
  have ad: "Adam demo_env 0 (Finite (1 / 1000)) (model_decay demo_config) = Inr 0"
    by (simp add: Adam_def float_nonneg_def demo_config_def demo_env_def)
  have dev: "device_of demo_env = Cpu"
    by (simp add: device_of_def demo_env_def)
  have nc: "length (classes_titles demo_config) = 2"
    by (simp add: demo_config_def)
  have dp: "dataset_path_of demo_retrain_args demo_config = PathStr ''/data''"
    by (simp add: dataset_path_of_def demo_retrain_args_def demo_args_def demo_config_def)
  have dl: "get_dataset_loaders demo_env (PathStr ''/data'') demo_config
      (workers demo_retrain_args) = Inr (demo_train_loader, demo_val_loader)"
    using demo_loaders
    by (simp add: demo_retrain_args_def demo_args_def)
  have n: "num_epochs_of demo_retrain_args demo_config = 2"
    by (simp add: num_epochs_of_def demo_retrain_args_def demo_args_def demo_config_def)
  have lc: "fst (load_checkpoint demo_env demo_retrain_args (new_session demo_env w 0 0)) = Inr 0"
    if "files w ''ck.pth'' = Some chk" for w chk
    using that
    by (simp add: load_checkpoint_def demo_retrain_args_def demo_args_def new_session_def
        demo_env_def Let_def)
  have "files (log_line (banner demo_env demo_retrain_args) demo_resume_world) ''ck.pth''
      = Some \<lparr>ck_epoch = 2, ck_state_dict = 5, ck_optimizer = 3\<rparr>"
    by (simp add: log_line_def demo_resume_world_def)
  from lc[OF this] obtain s1 where
    "load_checkpoint demo_env demo_retrain_args
        (new_session demo_env (log_line (banner demo_env demo_retrain_args) demo_resume_world) 0 0)
      = (Inr 0, s1)"
    by (metis prod.collapse)
  with cfg good(3,4) dl ad have "prepare demo_env demo_retrain_args demo_resume_world
      = Inr (demo_locals\<lparr>lc_args := demo_retrain_args\<rparr>, 0,
             s1\<lparr>log_lines := log_lines s1
                   @ header_lines demo_env (demo_locals\<lparr>lc_args := demo_retrain_args\<rparr>)\<rparr>)"
    by (simp add: prepare_def Let_def good(1,2) n lrv dp dev nc demo_locals_def)
  then show ?thesis ..
qed

theorem retrain_from_weights_witness:
  "fst (main demo_env demo_retrain_args demo_resume_world) = None
   \<and> calls (snd (main demo_env demo_retrain_args demo_resume_world))
       = [TorchLoad ''ck.pth'', LoadStateDict,
          NetTrain, ZeroGrad, Forward True, Backward, OptimizerStep, NetEval, Forward False,
          TorchSave ''out/checkpoint-00001-of-00002.pth'',
          NetTrain, ZeroGrad, Forward True, Backward, OptimizerStep, NetEval, Forward False,
          TorchSave ''out/checkpoint-00002-of-00002.pth'']
   \<and> (\<exists>chk. files (snd (main demo_env demo_retrain_args demo_resume_world))
               ''out/checkpoint-00002-of-00002.pth'' = Some chk \<and> ck_epoch chk = 2)
   \<and> (case prepare demo_env demo_retrain_args demo_resume_world of
        Inl x \<Rightarrow> False
      | Inr (l, rv, s) \<Rightarrow> rv = 0 \<and> state_dict s = 5 \<and> opt_state s = 0)"
proof -
  let ?l = "demo_locals\<lparr>lc_args := demo_retrain_args\<rparr>"
  let ?m = "main demo_env demo_retrain_args demo_resume_world"
  from demo_retrain_prepare obtain s where
    pr: "prepare demo_env demo_retrain_args demo_resume_world = Inr (?l, 0, s)"
    by blast
  have ck: "checkpoint demo_retrain_args = Some ''ck.pth''" "''ck.pth'' \<noteq> []"
    "\<not> resume demo_retrain_args"
    by (simp_all add: demo_retrain_args_def demo_args_def)
  have fields: "lc_config ?l = demo_config" "lc_num_classes ?l = 2"
    "lc_criterion ?l = demo_criterion"
    "lc_train_loader ?l = demo_train_loader" "lc_val_loader ?l = demo_val_loader"
    by (simp_all add: demo_locals_def)
  have n: "lc_num_epochs ?l = 2" "out demo_retrain_args = ''out''"
    by (simp_all add: demo_locals_def demo_retrain_args_def demo_args_def)
  have "fst ?m = fst (run_epochs demo_env ?l [0..lc_num_epochs ?l - 1] s)"
    by (simp add: main_def pr split: prod.splits)
  with demo_run_completes[OF fields] have none: "fst ?m = None"
    by simp
  then have m: "?m = (None, snd ?m)"
    by (metis prod.collapse)
  have p1: "checkpoint_path ''out'' 1 2 = ''out/checkpoint-00001-of-00002.pth''"
    by code_simp
  have p2: "checkpoint_path ''out'' 2 2 = ''out/checkpoint-00002-of-00002.pth''"
    by code_simp
  have up: "[0..(1::int)] = [0, 1]"
    by (simp add: upto.simps)
  note t = retrain_from_weights [OF ck pr]
  from t have sd: "state_dict s = 5"
    by (auto simp: demo_resume_world_def)
  from t have "Adam demo_env 0 (lc_lr ?l) (model_decay (lc_config ?l)) = Inr (opt_state s)"
    by (auto simp: demo_env_def)
  then have opt: "opt_state s = 0"
    by (simp add: Adam_def float_nonneg_def demo_locals_def demo_config_def demo_env_def)
  from t m have run: "calls (snd ?m) = calls demo_resume_world @ [TorchLoad ''ck.pth'', LoadStateDict]
                        @ concat (map (epoch_calls ?l) [0..lc_num_epochs ?l - 1])
         \<and> (\<forall>e \<in> set [0..lc_num_epochs ?l - 1].
               \<exists>chk. files (snd ?m) (checkpoint_path (out demo_retrain_args) (e + 1)
                        (lc_num_epochs ?l)) = Some chk \<and> ck_epoch chk = e + 1)"
    by blast
  from run have c: "calls (snd ?m)
       = [TorchLoad ''ck.pth'', LoadStateDict,
          NetTrain, ZeroGrad, Forward True, Backward, OptimizerStep, NetEval, Forward False,
          TorchSave ''out/checkpoint-00001-of-00002.pth'',
          NetTrain, ZeroGrad, Forward True, Backward, OptimizerStep, NetEval, Forward False,
          TorchSave ''out/checkpoint-00002-of-00002.pth'']"
    by (simp add: n up epoch_calls_def fields demo_num_batches p1 p2 demo_resume_world_def)
  from run have f: "\<exists>chk. files (snd ?m) ''out/checkpoint-00002-of-00002.pth'' = Some chk
      \<and> ck_epoch chk = 2"
    using p2 by (simp add: n up)
  from none c f sd opt show ?thesis
    by (simp add: pr)
qed

section \<open>Overrides from the command line\<close>

text \<open>
  A non-zero \<^verbatim>\<open>--epochs\<close> or \<^verbatim>\<open>--lr\<close> replaces the value of the configuration.
  For \<^verbatim>\<open>--dataset\<close> no value does: a value that is not an integer is refused by
  the parser, a non-zero integer makes the construction of the loaders fail, zero
  is ignored; so whenever the loop over the epochs is reached, the dataset root is
  the path of the configuration.
\<close>

lemma epochs_override: "epochs a = Some n \<Longrightarrow> n \<noteq> 0 \<Longrightarrow> num_epochs_of a cfg = n"
  by (simp add: num_epochs_of_def)

lemma lr_override: "lr a = Some x \<Longrightarrow> float_truthy x \<Longrightarrow> lr_of a cfg = x"
  by (simp add: lr_of_def)

lemma read_items_append:
  "read_items pf (xs @ ys) ns =
     (case read_items pf xs ns of Inl e \<Rightarrow> Inl e | Inr ns' \<Rightarrow> read_items pf ys ns')"
  by (induction xs arbitrary: ns) (auto split: sum.splits)

lemma dataset_flag_needs_integer:
  assumes "read_items pf before empty_namespace = Inr ns" and "py_int v = None"
  shows "parse_args pf (before @ Valued FDataset v # rest)
           = Inl (invalid_value ''--dataset'' ''int'' v)"
  using assms
  by (simp add: parse_args_def read_items_append read_item_def)

lemma dataset_integer_fails:
  assumes "dataset a = Some d" and "d \<noteq> 0"
  shows "get_dataset_loaders env (dataset_path_of a cfg) cfg nw = Inl TypeError"
  using assms by (simp add: get_dataset_loaders_def dataset_path_of_def Let_def)

lemma dataset_root_is_configured:
  assumes "prepare env a w = Inr (l, rv, s)"
  shows "lc_dataset_path l = PathStr (dataset_path (lc_config l))"
proof -
  from prepare_Inr[OF assms] obtain cfg tld vld where
    dl: "get_dataset_loaders env (dataset_path_of a cfg) cfg (workers a) = Inr (tld, vld)"
    and l: "lc_dataset_path l = dataset_path_of a cfg" "lc_config l = cfg"
    by auto
  show ?thesis
  proof (cases "dataset_path_of a cfg")
    case (PathStr x)
    then have "x = dataset_path cfg"
      by (auto simp: dataset_path_of_def split: option.splits if_splits)
    with PathStr l show ?thesis by simp
  next
    case (PathInt i)
    with dl show ?thesis
      by (simp add: get_dataset_loaders_def Let_def)
  qed
qed

section \<open>When an epoch completes\<close>

text \<open>
  The body of the loop over the epochs ends without an exception exactly when the
  training pass returns its statistics, the second class title exists for the line
  of the log, and the validation pass, run on the session after that line, returns
  its statistics.
\<close>

lemma epoch_body_completes_iff:
  "(\<exists>s'. epoch_body env l e s = (None, s')) =
   (\<exists>th s3 vh s5.
      train env (lc_train_loader l) (lc_num_classes l) (lc_device l) (lc_criterion l)
        (log_line (''Epoch: '' @ str_int (e + 1) @ ''/'' @ str_int (lc_num_epochs l))
           (log_line ''---'' s)) = (Inr th, s3)
    \<and> 2 \<le> length (classes_titles (lc_config l))
    \<and> validate env (lc_val_loader l) (lc_num_classes l) (lc_device l) (lc_criterion l)
        (log_line (stats_line env ''Train   '' th (classes_titles (lc_config l) ! 1)) s3)
        = (Inr vh, s5))"
  by (auto simp: epoch_body_def Let_def split: prod.splits sum.splits if_splits)

end
